theory Spec2Isabelle
  imports Main "HOL-Library.Word"
begin

unbundle bit_operations_syntax

section \<open>Errors\<close>

text \<open>
  \<^verbatim>\<open>gdb_assert (e)\<close> with a false \<open>e\<close> ends the operation with an internal error;
  \<^verbatim>\<open>error (msg)\<close> ends it with the message. Both are values of the result type
  \<open>error + 'a\<close>.
\<close>

datatype error = Assertion_failure | Error string

section \<open>Notification channel (cuda-notifications.c)\<close>

text \<open>
  \<^verbatim>\<open>CUDBGEventCallbackData\<close> is declared in cudadebugger.h, which is not part of the
  sources at hand; the code reads its two members \<^verbatim>\<open>tid\<close> and \<^verbatim>\<open>timeout\<close>.
\<close>

record CUDBGEventCallbackData =
  cb_tid :: "32 word"
  cb_timeout :: "32 word"

text \<open>
  The static \<^verbatim>\<open>cuda_notification_info\<close>. The member \<^verbatim>\<open>tid\<close> is called \<open>info_tid\<close>
  here. The mutex is the field \<open>mutex_locked\<close> of the enclosing record below.
\<close>

record notification_info =
  initialized :: bool
  blocked :: bool
  pending_send :: bool
  aliased_event :: bool
  sent :: bool
  received :: bool
  info_tid :: "32 word"
  pending_send_data :: CUDBGEventCallbackData

text \<open>
  What an operation does to the world outside the record, in program order: taking and
  giving back the mutex, a statement that reads or writes a member of
  \<^verbatim>\<open>cuda_notification_info\<close> (the condition of a \<^verbatim>\<open>gdb_assert\<close> or of an
  \<^verbatim>\<open>if\<close>, an assignment, a \<^verbatim>\<open>memset\<close>), and a SIGTRAP sent to a host thread with
  \<^verbatim>\<open>tkill\<close> (the flag tells whether the system call returned 0).
\<close>

datatype action = Acquire | Release | Access | Kill "32 word" bool

record notification_world =
  info :: notification_info
  mutex_locked :: bool
  acts :: "action list"

text \<open>
  The platform, as the channel sees it: \<^verbatim>\<open>cuda_platform_supports_tid ()\<close>, the outcome
  of \<^verbatim>\<open>syscall (SYS_tkill, tid, SIGTRAP)\<close> for each thread id, and the thread ids of
  the host threads in the order \<^verbatim>\<open>iterate_over_threads\<close> visits them.
\<close>

record platform =
  supports_tid :: bool
  tkill_ok :: "32 word \<Rightarrow> bool"
  host_threads :: "32 word list"

definition zero_data :: CUDBGEventCallbackData where
  "zero_data = \<lparr>cb_tid = 0, cb_timeout = 0\<rparr>"

text \<open>The record as static storage and \<^verbatim>\<open>memset (.., 0, ..)\<close> leave it.\<close>

definition zero_info :: notification_info where
  "zero_info = \<lparr>initialized = False, blocked = False, pending_send = False,
     aliased_event = False, sent = False, received = False, info_tid = 0,
     pending_send_data = zero_data\<rparr>"

definition zero_world :: notification_world where
  "zero_world = \<lparr>info = zero_info, mutex_locked = False, acts = []\<rparr>"

definition act :: "action \<Rightarrow> notification_world \<Rightarrow> notification_world" where
  "act a w = w\<lparr>acts := acts w @ [a]\<rparr>"

text \<open>
  A statement that writes the record: the update, and its trace. A statement that only
  reads the record is \<open>act Access\<close>.
\<close>

definition touch :: "(notification_info \<Rightarrow> notification_info) \<Rightarrow> notification_world \<Rightarrow> notification_world" where
  "touch f w = act Access (w\<lparr>info := f (info w)\<rparr>)"

definition cuda_notification_initialize :: "notification_world \<Rightarrow> notification_world" where
  "cuda_notification_initialize w =
     touch (\<lambda>i. i\<lparr>initialized := True\<rparr>)
       ((touch (\<lambda>_. zero_info) w)\<lparr>mutex_locked := False\<rparr>)"

definition cuda_notification_reset :: "notification_world \<Rightarrow> error + notification_world" where
  "cuda_notification_reset w =
     (let w0 = act Access w in
      if \<not> initialized (info w0) then Inl Assertion_failure
      else Inr (touch (\<lambda>i. i\<lparr>info_tid := 0\<rparr>)
                 (touch (\<lambda>i. i\<lparr>received := False\<rparr>)
                   (touch (\<lambda>i. i\<lparr>sent := False\<rparr>)
                     (touch (\<lambda>i. i\<lparr>pending_send := False\<rparr>)
                       (touch (\<lambda>i. i\<lparr>blocked := False\<rparr>) w0))))))"

text \<open>
  Both functions read \<^verbatim>\<open>cuda_notification_info.initialized\<close> in their
  \<^verbatim>\<open>gdb_assert\<close> before they call the mutex: in \<^verbatim>\<open>cuda_notification_acquire_lock\<close>
  that read comes before \<^verbatim>\<open>pthread_mutex_lock\<close>.

  \<^verbatim>\<open>pthread_mutex_lock\<close> on the (non-recursive) mutex when it is already held never
  returns; with one thread running at a time that is an operation that does not finish,
  written as a failure.
\<close>

definition cuda_notification_acquire_lock :: "notification_world \<Rightarrow> error + notification_world" where
  "cuda_notification_acquire_lock w =
     (let w0 = act Access w in
      if \<not> initialized (info w0) then Inl Assertion_failure
      else if mutex_locked w0 then Inl (Error ''deadlock'')
      else Inr (act Acquire (w0\<lparr>mutex_locked := True\<rparr>)))"

definition cuda_notification_release_lock :: "notification_world \<Rightarrow> error + notification_world" where
  "cuda_notification_release_lock w =
     (let w0 = act Access w in
      if \<not> initialized (info w0) then Inl Assertion_failure
      else Inr (act Release (w0\<lparr>mutex_locked := False\<rparr>)))"

text \<open>
  A public operation that brackets its body with the two calls above. The body cannot
  fail, so the shape \<open>acquire; body; release\<close> is written once.
\<close>

definition locked :: "(notification_world \<Rightarrow> notification_world) \<Rightarrow> notification_world \<Rightarrow> error + notification_world" where
  "locked body w =
     (case cuda_notification_acquire_lock w of
        Inl e \<Rightarrow> Inl e
      | Inr w1 \<Rightarrow> cuda_notification_release_lock (body w1))"

definition cuda_notification_notify_thread :: "platform \<Rightarrow> 32 word \<Rightarrow> notification_world \<Rightarrow> bool \<times> notification_world" where
  "cuda_notification_notify_thread pf t w = (tkill_ok pf t, act (Kill t (tkill_ok pf t)) w)"

text \<open>
  \<^verbatim>\<open>iterate_over_threads (cuda_notification_notify_first_valid_thread, NULL)\<close>: the
  callback signals each thread in turn; the iteration stops at the first thread for which
  the callback returns non-zero, and returns it (\<^verbatim>\<open>NULL\<close> when there is none).
\<close>

fun iterate_over_threads :: "platform \<Rightarrow> 32 word list \<Rightarrow> notification_world \<Rightarrow> 32 word option \<times> notification_world" where
  "iterate_over_threads pf [] w = (None, w)"
| "iterate_over_threads pf (t # ts) w =
     (let (ok, w1) = cuda_notification_notify_thread pf t w in
      if ok then (Some t, w1) else iterate_over_threads pf ts w1)"

definition send_first_valid :: "platform \<Rightarrow> notification_world \<Rightarrow> notification_world" where
  "send_first_valid pf w =
     (case iterate_over_threads pf (host_threads pf) w of
        (Some t, w1) \<Rightarrow> touch (\<lambda>i. i\<lparr>sent := True\<rparr>) (touch (\<lambda>i. i\<lparr>info_tid := t\<rparr>) w1)
      | (None, w1) \<Rightarrow> w1)"

text \<open>Every caller passes a non-null \<^verbatim>\<open>data\<close>, so the payload is a record here.\<close>

definition cuda_notification_send :: "platform \<Rightarrow> CUDBGEventCallbackData \<Rightarrow> notification_world \<Rightarrow> notification_world" where
  "cuda_notification_send pf d w =
     (if supports_tid pf \<and> cb_tid d \<noteq> 0 then
        (let (ok, w1) = cuda_notification_notify_thread pf (cb_tid d) w in
         if ok then touch (\<lambda>i. i\<lparr>sent := True\<rparr>) (touch (\<lambda>i. i\<lparr>info_tid := cb_tid d\<rparr>) w1)
         else send_first_valid pf w1)
      else send_first_valid pf w)"

text \<open>
  \<^verbatim>\<open>cuda_notification_accept\<close> passes the address of \<^verbatim>\<open>pending_send_data\<close>; what
  \<^verbatim>\<open>cuda_notification_send\<close> reads through that pointer it reads between the statements
  around the call, with the mutex held, and the trace does not mark it.
\<close>

definition accept_body :: "platform \<Rightarrow> notification_world \<Rightarrow> notification_world" where
  "accept_body pf w =
     (let w1 = act Access (touch (\<lambda>i. i\<lparr>blocked := False\<rparr>) w) in
      if pending_send (info w1) then
        (let w2 = cuda_notification_send pf (pending_send_data (info w1)) w1 in
         touch (\<lambda>i. i\<lparr>pending_send_data := zero_data\<rparr>)
           (touch (\<lambda>i. i\<lparr>pending_send := False\<rparr>) w2))
      else w1)"

definition cuda_notification_accept :: "platform \<Rightarrow> notification_world \<Rightarrow> error + notification_world" where
  "cuda_notification_accept pf = locked (accept_body pf)"

definition cuda_notification_block :: "notification_world \<Rightarrow> error + notification_world" where
  "cuda_notification_block = locked (touch (\<lambda>i. i\<lparr>blocked := True\<rparr>))"

text \<open>
  \<^verbatim>\<open>cuda_notification_notify\<close>: \<^verbatim>\<open>data->timeout\<close> is the caller's; each of the other
  conditions reads the record, and is evaluated only when the ones before it are false.
\<close>

definition notify_body :: "platform \<Rightarrow> CUDBGEventCallbackData \<Rightarrow> notification_world \<Rightarrow> notification_world" where
  "notify_body pf d w =
     (if cb_timeout d \<noteq> 0 then
        (let w0 = act Access w in
         if sent (info w0) \<and> \<not> received (info w0) then cuda_notification_send pf d w0 else w0)
      else
        (let w0 = act Access w in
         if sent (info w0) then touch (\<lambda>i. i\<lparr>aliased_event := True\<rparr>) w0
         else
           (let w1 = act Access w0 in
            if pending_send (info w1) then w1
            else
              (let w2 = act Access w1 in
               if blocked (info w2) then
                 touch (\<lambda>i. i\<lparr>pending_send_data := d\<rparr>) (touch (\<lambda>i. i\<lparr>pending_send := True\<rparr>) w2)
               else cuda_notification_send pf d w2))))"

definition cuda_notification_notify :: "platform \<Rightarrow> CUDBGEventCallbackData \<Rightarrow> notification_world \<Rightarrow> error + notification_world" where
  "cuda_notification_notify pf d = locked (notify_body pf d)"

text \<open>The four readers return a value besides the world.\<close>

definition locked_read :: "(notification_info \<Rightarrow> bool) \<Rightarrow> notification_world \<Rightarrow> error + (bool \<times> notification_world)" where
  "locked_read f w =
     (case locked (act Access) w of
        Inl e \<Rightarrow> Inl e
      | Inr w1 \<Rightarrow> Inr (f (info w), w1))"

definition cuda_notification_aliased_event :: "notification_world \<Rightarrow> error + (bool \<times> notification_world)" where
  "cuda_notification_aliased_event = locked_read aliased_event"

definition cuda_notification_reset_aliased_event :: "notification_world \<Rightarrow> error + notification_world" where
  "cuda_notification_reset_aliased_event = locked (touch (\<lambda>i. i\<lparr>aliased_event := False\<rparr>))"

definition cuda_notification_pending :: "notification_world \<Rightarrow> error + (bool \<times> notification_world)" where
  "cuda_notification_pending = locked_read (\<lambda>i. sent i \<and> \<not> received i)"

definition cuda_notification_received :: "notification_world \<Rightarrow> error + (bool \<times> notification_world)" where
  "cuda_notification_received = locked_read received"

text \<open>
  \<^verbatim>\<open>cuda_notification_analyze (ptid, ws)\<close> reads the thread id of \<^verbatim>\<open>ptid\<close>, the kind
  and the signal of the wait status, and \<^verbatim>\<open>trap_expected\<close> of the inferior thread. The
  two enumerations are the debugger's; only the member compared against is named.
\<close>

datatype target_waitkind = TARGET_WAITKIND_STOPPED | TARGET_WAITKIND_other nat

datatype target_signal = TARGET_SIGNAL_TRAP | TARGET_SIGNAL_other nat

record target_waitstatus =
  ws_kind :: target_waitkind
  ws_sig :: target_signal

definition analyze_body :: "32 word \<Rightarrow> target_waitstatus \<Rightarrow> bool \<Rightarrow> notification_world \<Rightarrow> notification_world" where
  "analyze_body stopped_tid ws trap_expected w =
     (let w0 = act Access w in
      if sent (info w0) \<and> info_tid (info w0) = stopped_tid \<and>
         ws_kind ws = TARGET_WAITKIND_STOPPED \<and> ws_sig ws = TARGET_SIGNAL_TRAP \<and>
         \<not> trap_expected
      then touch (\<lambda>i. i\<lparr>received := True\<rparr>) w0
      else w0)"

definition cuda_notification_analyze :: "32 word \<Rightarrow> target_waitstatus \<Rightarrow> bool \<Rightarrow> notification_world \<Rightarrow> error + notification_world" where
  "cuda_notification_analyze stopped_tid ws trap_expected = locked (analyze_body stopped_tid ws trap_expected)"

definition mark_consumed_body :: "notification_world \<Rightarrow> notification_world" where
  "mark_consumed_body w =
     (let w0 = act Access w in
      if received (info w0)
      then touch (\<lambda>i. i\<lparr>info_tid := 0\<rparr>)
             (touch (\<lambda>i. i\<lparr>received := False\<rparr>) (touch (\<lambda>i. i\<lparr>sent := False\<rparr>) w0))
      else w0)"

definition cuda_notification_mark_consumed :: "notification_world \<Rightarrow> error + notification_world" where
  "cuda_notification_mark_consumed = locked mark_consumed_body"

definition cuda_notification_consume_pending :: "notification_world \<Rightarrow> notification_world" where
  "cuda_notification_consume_pending w = touch (\<lambda>i. i\<lparr>pending_send := False\<rparr>) w"

text \<open>The public operations, as calls; a reader's result is dropped.\<close>

datatype call =
    Initialize
  | Reset
  | Notify platform CUDBGEventCallbackData
  | Block
  | Accept platform
  | Analyze "32 word" target_waitstatus bool
  | Mark_consumed
  | Consume_pending
  | Reset_aliased_event
  | Aliased_event
  | Pending
  | Received

definition drop_result :: "error + (bool \<times> notification_world) \<Rightarrow> error + notification_world" where
  "drop_result r = (case r of Inl e \<Rightarrow> Inl e | Inr (b, w) \<Rightarrow> Inr w)"

fun run :: "call \<Rightarrow> notification_world \<Rightarrow> error + notification_world" where
  "run Initialize w = Inr (cuda_notification_initialize w)"
| "run Reset w = cuda_notification_reset w"
| "run (Notify pf d) w = cuda_notification_notify pf d w"
| "run Block w = cuda_notification_block w"
| "run (Accept pf) w = cuda_notification_accept pf w"
| "run (Analyze t ws te) w = cuda_notification_analyze t ws te w"
| "run Mark_consumed w = cuda_notification_mark_consumed w"
| "run Consume_pending w = Inr (cuda_notification_consume_pending w)"
| "run Reset_aliased_event w = cuda_notification_reset_aliased_event w"
| "run Aliased_event w = drop_result (cuda_notification_aliased_event w)"
| "run Pending w = drop_result (cuda_notification_pending w)"
| "run Received w = drop_result (cuda_notification_received w)"

text \<open>
  The states of the channel: the static record, and what the public operations make of a
  state they return from. An operation that fails does so in its first statement (the
  assertion of \<^verbatim>\<open>cuda_notification_acquire_lock\<close> or of \<^verbatim>\<open>cuda_notification_reset\<close>),
  before it has written anything, so a failed call leaves the state it found.
\<close>

inductive notification_reachable :: "notification_world \<Rightarrow> bool" where
  nr_static: "notification_reachable zero_world"
| nr_call: "notification_reachable w \<Longrightarrow> run c w = Inr w' \<Longrightarrow> notification_reachable w'"

fun run_all :: "call list \<Rightarrow> notification_world \<Rightarrow> error + notification_world" where
  "run_all [] w = Inr w"
| "run_all (c # cs) w = (case run c w of Inl e \<Rightarrow> Inl e | Inr w1 \<Rightarrow> run_all cs w1)"

text \<open>
  Every access of a trace is made while the mutex is held. The first argument tells
  whether the mutex is held when the trace starts: a public operation is entered without
  it.
\<close>

fun guarded :: "bool \<Rightarrow> action list \<Rightarrow> bool" where
  "guarded held [] = True"
| "guarded held (Acquire # tr) = guarded True tr"
| "guarded held (Release # tr) = guarded False tr"
| "guarded held (Access # tr) = (held \<and> guarded held tr)"
| "guarded held (Kill t ok # tr) = guarded held tr"

text \<open>The operations that bracket their body with the mutex.\<close>

fun takes_mutex :: "call \<Rightarrow> bool" where
  "takes_mutex Initialize = False"
| "takes_mutex Reset = False"
| "takes_mutex Consume_pending = False"
| "takes_mutex _ = True"

text \<open>What a call appends to the trace.\<close>

definition trace_of :: "call \<Rightarrow> notification_world \<Rightarrow> error + action list" where
  "trace_of c w = map_sum id (\<lambda>w'. drop (length (acts w)) (acts w')) (run c w)"

text \<open>The SIGTRAPs of a trace.\<close>

fun kills :: "action list \<Rightarrow> (32 word \<times> bool) list" where
  "kills [] = []"
| "kills (Kill t ok # bs) = (t, ok) # kills bs"
| "kills (_ # bs) = kills bs"

text \<open>The number of SIGTRAPs of a trace that reached their thread.\<close>

definition delivered :: "action list \<Rightarrow> nat" where
  "delivered tr = length (filter snd (kills tr))"

text \<open>Whether \<^verbatim>\<open>cuda_notification_send\<close> reaches a thread.\<close>

definition deliverable :: "platform \<Rightarrow> CUDBGEventCallbackData \<Rightarrow> bool" where
  "deliverable pf d = ((supports_tid pf \<and> cb_tid d \<noteq> 0 \<and> tkill_ok pf (cb_tid d)) \<or>
     list_ex (tkill_ok pf) (host_threads pf))"

text \<open>
  Concrete inputs for the scenarios below: a started channel; a platform on which thread 7
  can be signalled and thread 3 cannot; one on which no thread can be signalled; a payload
  for thread 7, and the same payload flagged as a timeout.
\<close>

definition started_world :: notification_world where
  "started_world = cuda_notification_initialize zero_world"

definition platform_7 :: platform where
  "platform_7 = \<lparr>supports_tid = True, tkill_ok = (=) 7, host_threads = [3, 7]\<rparr>"

definition platform_deaf :: platform where
  "platform_deaf = \<lparr>supports_tid = True, tkill_ok = (=) 0, host_threads = [3, 7]\<rparr>"

definition payload_7 :: CUDBGEventCallbackData where
  "payload_7 = \<lparr>cb_tid = 7, cb_timeout = 0\<rparr>"

definition payload_7_timeout :: CUDBGEventCallbackData where
  "payload_7_timeout = \<lparr>cb_tid = 7, cb_timeout = 1\<rparr>"

section \<open>State mirror (cuda-state.c)\<close>

text \<open>
  The structures of the mirror. A member keeps its name behind the prefix of its
  structure (\<open>ln_\<close>, \<open>wp_\<close>, \<open>sm_\<close>, \<open>dev_\<close>, \<open>sys_\<close>), since several structures
  have members of the same name. An array member is a function of the index: every
  access of the code is guarded by an assertion that the index is below the device's
  count, and the counts are asserted to be at most the array sizes.

  Device, SM, warp and lane numbers and the four counts are \<^verbatim>\<open>uint32_t\<close> in the code;
  they are only compared and incremented below an asserted bound, and are natural
  numbers here. The masks are machine words.
\<close>

record CuDim3 =
  dim_x :: "32 word"
  dim_y :: "32 word"
  dim_z :: "32 word"

record lane_state_t =
  ln_thread_idx_p :: bool
  ln_pc_p :: bool
  ln_exception_p :: bool
  ln_virtual_pc_p :: bool
  ln_timestamp_p :: bool
  ln_thread_idx :: CuDim3
  ln_pc :: "64 word"
  ln_exception :: "32 word"
  ln_virtual_pc :: "64 word"
  ln_timestamp :: "64 word"

record warp_state_t =
  wp_valid_p :: bool
  wp_broken_p :: bool
  wp_block_idx_p :: bool
  wp_kernel_p :: bool
  wp_grid_id_p :: bool
  wp_valid_lanes_mask_p :: bool
  wp_active_lanes_mask_p :: bool
  wp_timestamp_p :: bool
  wp_valid :: bool
  wp_broken :: bool
  wp_block_idx :: CuDim3
  wp_kernel :: "nat option"
  wp_grid_id :: "64 word"
  wp_valid_lanes_mask :: "32 word"
  wp_active_lanes_mask :: "32 word"
  wp_timestamp :: "64 word"
  wp_ln :: "nat \<Rightarrow> lane_state_t"

record sm_state_t =
  sm_valid_warps_mask_p :: bool
  sm_broken_warps_mask_p :: bool
  sm_valid_warps_mask :: "64 word"
  sm_broken_warps_mask :: "64 word"
  sm_wp :: "nat \<Rightarrow> warp_state_t"

text \<open>
  The member \<^verbatim>\<open>contexts\<close> of a device points to the registry of cuda-context.c, which
  is not part of the sources at hand. The pointer is \<open>None\<close> when it is \<^verbatim>\<open>NULL\<close>, as in
  the zeroed structure; \<^verbatim>\<open>device_initialize\<close> stores the result of \<^verbatim>\<open>contexts_new ()\<close>,
  a registry of its own for each device, named here by the number of the device. The
  mirror only asks a registry whether any context is present, and the answer is a member
  of the environment below.
\<close>

record device_state_t =
  dev_valid_p :: bool
  dev_num_sms_p :: bool
  dev_num_warps_p :: bool
  dev_num_lanes_p :: bool
  dev_num_registers_p :: bool
  dev_dev_type_p :: bool
  dev_sm_type_p :: bool
  dev_filter_exception_state_p :: bool
  dev_valid :: bool
  dev_suspended :: bool
  dev_dev_type :: string
  dev_sm_type :: string
  dev_num_sms :: nat
  dev_num_warps :: nat
  dev_num_lanes :: nat
  dev_num_registers :: nat
  dev_sm :: "nat \<Rightarrow> sm_state_t"
  dev_contexts :: "nat option"

record cuda_system_t =
  sys_num_devices_p :: bool
  sys_num_devices :: nat
  sys_dev :: "nat \<Rightarrow> device_state_t"
  sys_suspended_devices_mask :: "32 word"

text \<open>
  What the mirror does outside \<^verbatim>\<open>cuda_system_info\<close>, in program order: the calls of
  the debug API (\<^verbatim>\<open>cuda_api_*\<close>), \<^verbatim>\<open>kernel_invalidate\<close> applied to every kernel of
  the registry (\<^verbatim>\<open>device_invalidate_kernels\<close>), a warning, and the call of
  \<^verbatim>\<open>cuda_options_force_set_launch_notification_update\<close>.
\<close>

datatype effect =
    Api_get_num_devices
  | Api_get_num_sms nat
  | Api_get_num_warps nat
  | Api_get_num_lanes nat
  | Api_read_valid_warps nat nat
  | Api_read_broken_warps nat nat
  | Api_read_valid_lanes nat nat nat
  | Api_read_active_lanes nat nat nat
  | Api_read_pc nat nat nat nat
  | Api_read_virtual_pc nat nat nat nat
  | Api_single_step_warp nat nat nat
  | Api_resume_device nat
  | Api_suspend_device nat
  | Kernels_invalidate
  | Warning string
  | Options_force_set_launch_notification_update

record mirror =
  cuda_system_info :: cuda_system_t
  effects :: "effect list"

text \<open>
  What the mirror reads from outside: the globals \<^verbatim>\<open>cuda_initialized\<close> and the option
  \<^verbatim>\<open>software_preemption\<close>, the clock, the array sizes of cudadebugger.h (which is not
  part of the sources at hand), whether a device has a context, and the answers of the
  debug API. A call of the debug API returns its answer; a failure inside the API is not
  modelled.
\<close>

record env =
  cuda_initialized :: bool
  cuda_options_software_preemption :: bool
  cuda_clock :: "64 word"
  CUDBG_MAX_DEVICES :: nat
  CUDBG_MAX_SMS :: nat
  CUDBG_MAX_WARPS :: nat
  CUDBG_MAX_LANES :: nat
  any_context_present :: "nat \<Rightarrow> bool"
  api_num_devices :: nat
  api_num_sms :: "nat \<Rightarrow> nat"
  api_num_warps :: "nat \<Rightarrow> nat"
  api_num_lanes :: "nat \<Rightarrow> nat"
  api_valid_warps :: "nat \<Rightarrow> nat \<Rightarrow> 64 word"
  api_broken_warps :: "nat \<Rightarrow> nat \<Rightarrow> 64 word"
  api_valid_lanes :: "nat \<Rightarrow> nat \<Rightarrow> nat \<Rightarrow> 32 word"
  api_active_lanes :: "nat \<Rightarrow> nat \<Rightarrow> nat \<Rightarrow> 32 word"
  api_pc :: "nat \<Rightarrow> nat \<Rightarrow> nat \<Rightarrow> nat \<Rightarrow> 64 word"
  api_virtual_pc :: "nat \<Rightarrow> nat \<Rightarrow> nat \<Rightarrow> nat \<Rightarrow> 64 word"
  api_single_step_warp :: "nat \<Rightarrow> nat \<Rightarrow> nat \<Rightarrow> 64 word"

definition CACHED :: bool where
  "CACHED = True"

datatype recursion_t = RECURSIVE | NON_RECURSIVE

subsection \<open>Reading and writing \<^verbatim>\<open>cuda_system_info.dev[d].sm[s].wp[w].ln[l]\<close>\<close>

definition dev_of :: "mirror \<Rightarrow> nat \<Rightarrow> device_state_t" where
  "dev_of m d = sys_dev (cuda_system_info m) d"

definition sm_of :: "mirror \<Rightarrow> nat \<Rightarrow> nat \<Rightarrow> sm_state_t" where
  "sm_of m d s = dev_sm (dev_of m d) s"

definition wp_of :: "mirror \<Rightarrow> nat \<Rightarrow> nat \<Rightarrow> nat \<Rightarrow> warp_state_t" where
  "wp_of m d s w = sm_wp (sm_of m d s) w"

definition ln_of :: "mirror \<Rightarrow> nat \<Rightarrow> nat \<Rightarrow> nat \<Rightarrow> nat \<Rightarrow> lane_state_t" where
  "ln_of m d s w l = wp_ln (wp_of m d s w) l"

definition upd_sys :: "(cuda_system_t \<Rightarrow> cuda_system_t) \<Rightarrow> mirror \<Rightarrow> mirror" where
  "upd_sys f m = m\<lparr>cuda_system_info := f (cuda_system_info m)\<rparr>"

definition upd_dev :: "nat \<Rightarrow> (device_state_t \<Rightarrow> device_state_t) \<Rightarrow> mirror \<Rightarrow> mirror" where
  "upd_dev d f = upd_sys (\<lambda>y. y\<lparr>sys_dev := (sys_dev y)(d := f (sys_dev y d))\<rparr>)"

definition upd_sm :: "nat \<Rightarrow> nat \<Rightarrow> (sm_state_t \<Rightarrow> sm_state_t) \<Rightarrow> mirror \<Rightarrow> mirror" where
  "upd_sm d s f = upd_dev d (\<lambda>x. x\<lparr>dev_sm := (dev_sm x)(s := f (dev_sm x s))\<rparr>)"

definition upd_wp :: "nat \<Rightarrow> nat \<Rightarrow> nat \<Rightarrow> (warp_state_t \<Rightarrow> warp_state_t) \<Rightarrow> mirror \<Rightarrow> mirror" where
  "upd_wp d s w f = upd_sm d s (\<lambda>x. x\<lparr>sm_wp := (sm_wp x)(w := f (sm_wp x w))\<rparr>)"

definition upd_ln :: "nat \<Rightarrow> nat \<Rightarrow> nat \<Rightarrow> nat \<Rightarrow> (lane_state_t \<Rightarrow> lane_state_t) \<Rightarrow> mirror \<Rightarrow> mirror" where
  "upd_ln d s w l f = upd_wp d s w (\<lambda>x. x\<lparr>wp_ln := (wp_ln x)(l := f (wp_ln x l))\<rparr>)"

definition do_effect :: "effect \<Rightarrow> mirror \<Rightarrow> mirror" where
  "do_effect a m = m\<lparr>effects := effects m @ [a]\<rparr>"

subsection \<open>Results, sequencing, assertions, loops\<close>

type_synonym 'a result = "error + 'a \<times> mirror"

definition bindE :: "'a result \<Rightarrow> ('a \<Rightarrow> mirror \<Rightarrow> 'b result) \<Rightarrow> 'b result" where
  "bindE r f = (case r of Inl err \<Rightarrow> Inl err | Inr (a, m) \<Rightarrow> f a m)"

definition ret :: "'a \<Rightarrow> mirror \<Rightarrow> 'a result" where
  "ret a m = Inr (a, m)"

definition gdb_assert :: "bool \<Rightarrow> mirror \<Rightarrow> unit result" where
  "gdb_assert b m = (if b then Inr ((), m) else Inl Assertion_failure)"

text \<open>
  \<^verbatim>\<open>for (i = 0; i < bound (); ++i) body (i);\<close> The bound of every loop of the mirror is
  one of the count getters. The loop below reads it once, before the first iteration: the
  getter latches the count on its first call, no body writes a count except through the
  same getters, and a getter that finds its count latched returns it and does nothing
  else (\<open>device_get_num_lanes_ready\<close> and its siblings below), so the later evaluations of
  the bound return the same number and leave the state as it is.
\<close>

fun for_loop :: "nat list \<Rightarrow> (nat \<Rightarrow> mirror \<Rightarrow> unit result) \<Rightarrow> mirror \<Rightarrow> unit result" where
  "for_loop [] body m = Inr ((), m)"
| "for_loop (i # is) body m = bindE (body i m) (\<lambda>_. for_loop is body)"

subsection \<open>System and device\<close>

definition zero_dim :: CuDim3 where
  "zero_dim = \<lparr>dim_x = 0, dim_y = 0, dim_z = 0\<rparr>"

definition zero_lane :: lane_state_t where
  "zero_lane = \<lparr>ln_thread_idx_p = False, ln_pc_p = False, ln_exception_p = False,
     ln_virtual_pc_p = False, ln_timestamp_p = False, ln_thread_idx = zero_dim, ln_pc = 0,
     ln_exception = 0, ln_virtual_pc = 0, ln_timestamp = 0\<rparr>"

definition zero_warp :: warp_state_t where
  "zero_warp = \<lparr>wp_valid_p = False, wp_broken_p = False, wp_block_idx_p = False,
     wp_kernel_p = False, wp_grid_id_p = False, wp_valid_lanes_mask_p = False,
     wp_active_lanes_mask_p = False, wp_timestamp_p = False, wp_valid = False,
     wp_broken = False, wp_block_idx = zero_dim, wp_kernel = None, wp_grid_id = 0,
     wp_valid_lanes_mask = 0, wp_active_lanes_mask = 0, wp_timestamp = 0,
     wp_ln = (\<lambda>_. zero_lane)\<rparr>"

definition zero_sm :: sm_state_t where
  "zero_sm = \<lparr>sm_valid_warps_mask_p = False, sm_broken_warps_mask_p = False,
     sm_valid_warps_mask = 0, sm_broken_warps_mask = 0, sm_wp = (\<lambda>_. zero_warp)\<rparr>"

definition zero_device :: device_state_t where
  "zero_device = \<lparr>dev_valid_p = False, dev_num_sms_p = False, dev_num_warps_p = False,
     dev_num_lanes_p = False, dev_num_registers_p = False, dev_dev_type_p = False,
     dev_sm_type_p = False, dev_filter_exception_state_p = False, dev_valid = False,
     dev_suspended = False, dev_dev_type = [], dev_sm_type = [], dev_num_sms = 0,
     dev_num_warps = 0, dev_num_lanes = 0, dev_num_registers = 0, dev_sm = (\<lambda>_. zero_sm),
     dev_contexts = None\<rparr>"

text \<open>\<^verbatim>\<open>cuda_system_info\<close> as static storage and \<^verbatim>\<open>memset (.., 0, ..)\<close> leave it.\<close>

definition zero_system :: cuda_system_t where
  "zero_system = \<lparr>sys_num_devices_p = False, sys_num_devices = 0, sys_dev = (\<lambda>_. zero_device),
     sys_suspended_devices_mask = 0\<rparr>"

definition zero_mirror :: mirror where
  "zero_mirror = \<lparr>cuda_system_info = zero_system, effects = []\<rparr>"

definition cuda_system_get_num_devices :: "env \<Rightarrow> mirror \<Rightarrow> nat result" where
  "cuda_system_get_num_devices e m =
     (if \<not> cuda_initialized e then Inr (0, m)
      else if sys_num_devices_p (cuda_system_info m) then Inr (sys_num_devices (cuda_system_info m), m)
      else
        (let m1 = upd_sys (\<lambda>y. y\<lparr>sys_num_devices := api_num_devices e\<rparr>) (do_effect Api_get_num_devices m) in
         bindE (gdb_assert (sys_num_devices (cuda_system_info m1) \<le> CUDBG_MAX_DEVICES e) m1) (\<lambda>_ m2.
         ret (sys_num_devices (cuda_system_info m2)) (upd_sys (\<lambda>y. y\<lparr>sys_num_devices_p := CACHED\<rparr>) m2))))"

text \<open>\<^verbatim>\<open>gdb_assert (dev_id < cuda_system_get_num_devices ())\<close>, and the longer chains.\<close>

definition check_dev :: "env \<Rightarrow> nat \<Rightarrow> mirror \<Rightarrow> unit result" where
  "check_dev e d m = bindE (cuda_system_get_num_devices e m) (\<lambda>n. gdb_assert (d < n))"

definition device_initialize :: "env \<Rightarrow> nat \<Rightarrow> mirror \<Rightarrow> unit result" where
  "device_initialize e d m =
     bindE (check_dev e d m) (\<lambda>_ m1. ret () (upd_dev d (\<lambda>x. x\<lparr>dev_contexts := Some d\<rparr>) m1))"

definition cuda_system_initialize :: "env \<Rightarrow> mirror \<Rightarrow> unit result" where
  "cuda_system_initialize e m =
     bindE (gdb_assert (cuda_initialized e) m) (\<lambda>_ m1.
     bindE (cuda_system_get_num_devices e (upd_sys (\<lambda>_. zero_system) m1)) (\<lambda>n m2.
     bindE (for_loop [0..<n] (device_initialize e) m2) (\<lambda>_ m3.
     ret () (do_effect Options_force_set_launch_notification_update m3))))"

definition device_get_contexts :: "env \<Rightarrow> nat \<Rightarrow> mirror \<Rightarrow> nat result" where
  "device_get_contexts e d m =
     bindE (check_dev e d m) (\<lambda>_ m1.
       case dev_contexts (dev_of m1 d) of
         None \<Rightarrow> Inl Assertion_failure
       | Some contexts \<Rightarrow> ret contexts m1)"

definition device_is_any_context_present :: "env \<Rightarrow> nat \<Rightarrow> mirror \<Rightarrow> bool result" where
  "device_is_any_context_present e d m =
     bindE (check_dev e d m) (\<lambda>_ m1.
     bindE (device_get_contexts e d m1) (\<lambda>contexts. ret (any_context_present e d)))"

definition device_get_num_sms :: "env \<Rightarrow> nat \<Rightarrow> mirror \<Rightarrow> nat result" where
  "device_get_num_sms e d m =
     bindE (check_dev e d m) (\<lambda>_ m1.
       if dev_num_sms_p (dev_of m1 d) then ret (dev_num_sms (dev_of m1 d)) m1
       else
         (let m2 = upd_dev d (\<lambda>x. x\<lparr>dev_num_sms := api_num_sms e d\<rparr>) (do_effect (Api_get_num_sms d) m1) in
          bindE (gdb_assert (dev_num_sms (dev_of m2 d) \<le> CUDBG_MAX_SMS e) m2) (\<lambda>_ m3.
          ret (dev_num_sms (dev_of m3 d)) (upd_dev d (\<lambda>x. x\<lparr>dev_num_sms_p := CACHED\<rparr>) m3))))"

definition device_get_num_warps :: "env \<Rightarrow> nat \<Rightarrow> mirror \<Rightarrow> nat result" where
  "device_get_num_warps e d m =
     bindE (check_dev e d m) (\<lambda>_ m1.
       if dev_num_warps_p (dev_of m1 d) then ret (dev_num_warps (dev_of m1 d)) m1
       else
         (let m2 = upd_dev d (\<lambda>x. x\<lparr>dev_num_warps := api_num_warps e d\<rparr>) (do_effect (Api_get_num_warps d) m1) in
          bindE (gdb_assert (dev_num_warps (dev_of m2 d) \<le> CUDBG_MAX_WARPS e) m2) (\<lambda>_ m3.
          ret (dev_num_warps (dev_of m3 d)) (upd_dev d (\<lambda>x. x\<lparr>dev_num_warps_p := CACHED\<rparr>) m3))))"

definition device_get_num_lanes :: "env \<Rightarrow> nat \<Rightarrow> mirror \<Rightarrow> nat result" where
  "device_get_num_lanes e d m =
     bindE (check_dev e d m) (\<lambda>_ m1.
       if dev_num_lanes_p (dev_of m1 d) then ret (dev_num_lanes (dev_of m1 d)) m1
       else
         (let m2 = upd_dev d (\<lambda>x. x\<lparr>dev_num_lanes := api_num_lanes e d\<rparr>) (do_effect (Api_get_num_lanes d) m1) in
          bindE (gdb_assert (dev_num_lanes (dev_of m2 d) \<le> CUDBG_MAX_LANES e) m2) (\<lambda>_ m3.
          ret (dev_num_lanes (dev_of m3 d)) (upd_dev d (\<lambda>x. x\<lparr>dev_num_lanes_p := CACHED\<rparr>) m3))))"

definition check_sm :: "env \<Rightarrow> nat \<Rightarrow> nat \<Rightarrow> mirror \<Rightarrow> unit result" where
  "check_sm e d s m =
     bindE (check_dev e d m) (\<lambda>_ m1.
     bindE (device_get_num_sms e d m1) (\<lambda>n. gdb_assert (s < n)))"

definition check_wp :: "env \<Rightarrow> nat \<Rightarrow> nat \<Rightarrow> nat \<Rightarrow> mirror \<Rightarrow> unit result" where
  "check_wp e d s w m =
     bindE (check_sm e d s m) (\<lambda>_ m1.
     bindE (device_get_num_warps e d m1) (\<lambda>n. gdb_assert (w < n)))"

definition check_ln :: "env \<Rightarrow> nat \<Rightarrow> nat \<Rightarrow> nat \<Rightarrow> nat \<Rightarrow> mirror \<Rightarrow> unit result" where
  "check_ln e d s w l m =
     bindE (check_wp e d s w m) (\<lambda>_ m1.
     bindE (device_get_num_lanes e d m1) (\<lambda>n. gdb_assert (l < n)))"

subsection \<open>Invalidation\<close>

definition lane_invalidate :: "env \<Rightarrow> nat \<Rightarrow> nat \<Rightarrow> nat \<Rightarrow> nat \<Rightarrow> mirror \<Rightarrow> unit result" where
  "lane_invalidate e d s w l m =
     bindE (check_ln e d s w l m) (\<lambda>_ m1.
     ret () (upd_ln d s w l (\<lambda>x. x\<lparr>ln_pc_p := False, ln_virtual_pc_p := False,
                                   ln_thread_idx_p := False, ln_exception_p := False,
                                   ln_timestamp_p := False\<rparr>) m1))"

definition warp_invalidate :: "env \<Rightarrow> nat \<Rightarrow> nat \<Rightarrow> nat \<Rightarrow> mirror \<Rightarrow> unit result" where
  "warp_invalidate e d s w m =
     bindE (check_wp e d s w m) (\<lambda>_ m1.
     bindE (device_get_num_lanes e d m1) (\<lambda>n m2.
     bindE (for_loop [0..<n] (lane_invalidate e d s w) m2) (\<lambda>_ m3.
     ret ()
       (upd_wp d s w (\<lambda>x. x\<lparr>wp_valid_p := False, wp_broken_p := False, wp_block_idx_p := False,
                              wp_kernel_p := False, wp_grid_id_p := False,
                              wp_valid_lanes_mask_p := False, wp_active_lanes_mask_p := False,
                              wp_timestamp_p := False\<rparr>)
         (upd_sm d s (\<lambda>x. x\<lparr>sm_valid_warps_mask_p := False, sm_broken_warps_mask_p := False\<rparr>) m3)))))"

definition sm_invalidate :: "env \<Rightarrow> nat \<Rightarrow> nat \<Rightarrow> recursion_t \<Rightarrow> mirror \<Rightarrow> unit result" where
  "sm_invalidate e d s recursion m =
     bindE (check_sm e d s m) (\<lambda>_ m1.
     bindE (if recursion = RECURSIVE
            then bindE (device_get_num_warps e d m1) (\<lambda>n. for_loop [0..<n] (warp_invalidate e d s))
            else ret () m1) (\<lambda>_ m2.
     ret () (upd_sm d s (\<lambda>x. x\<lparr>sm_valid_warps_mask_p := False, sm_broken_warps_mask_p := False\<rparr>) m2)))"

definition device_invalidate_kernels :: "env \<Rightarrow> nat \<Rightarrow> mirror \<Rightarrow> unit result" where
  "device_invalidate_kernels e d m =
     bindE (check_dev e d m) (\<lambda>_ m1. ret () (do_effect Kernels_invalidate m1))"

definition device_invalidate :: "env \<Rightarrow> nat \<Rightarrow> mirror \<Rightarrow> unit result" where
  "device_invalidate e d m =
     bindE (check_dev e d m) (\<lambda>_ m1.
     bindE (device_get_num_sms e d m1) (\<lambda>n m2.
     bindE (for_loop [0..<n] (\<lambda>s. sm_invalidate e d s RECURSIVE) m2) (\<lambda>_ m3.
     bindE (device_invalidate_kernels e d m3) (\<lambda>_ m4.
     ret () (upd_dev d (\<lambda>x. x\<lparr>dev_valid_p := False, dev_filter_exception_state_p := False\<rparr>) m4)))))"

definition device_resume :: "env \<Rightarrow> nat \<Rightarrow> mirror \<Rightarrow> unit result" where
  "device_resume e d m =
     bindE (check_dev e d m) (\<lambda>_ m1.
     bindE (device_invalidate e d m1) (\<lambda>_ m2.
       if \<not> dev_suspended (dev_of m2 d) then ret () m2
       else
         ret ()
           (upd_sys (\<lambda>y. y\<lparr>sys_suspended_devices_mask :=
                               sys_suspended_devices_mask y AND NOT (push_bit d 1)\<rparr>)
             (upd_dev d (\<lambda>x. x\<lparr>dev_suspended := False\<rparr>)
               (do_effect (Api_resume_device d) m2)))))"

definition device_suspend :: "env \<Rightarrow> nat \<Rightarrow> mirror \<Rightarrow> unit result" where
  "device_suspend e d m =
     bindE (check_dev e d m) (\<lambda>_ m1.
     bindE (device_is_any_context_present e d m1) (\<lambda>present m2.
       if \<not> present then ret () m2
       else
         ret ()
           (upd_sys (\<lambda>y. y\<lparr>sys_suspended_devices_mask :=
                               sys_suspended_devices_mask y OR push_bit d 1\<rparr>)
             (upd_dev d (\<lambda>x. x\<lparr>dev_suspended := True\<rparr>)
               (do_effect (Api_suspend_device d) m2)))))"

subsection \<open>SMs and warps\<close>

definition sm_get_valid_warps_mask :: "env \<Rightarrow> nat \<Rightarrow> nat \<Rightarrow> mirror \<Rightarrow> (64 word) result" where
  "sm_get_valid_warps_mask e d s m =
     bindE (check_sm e d s m) (\<lambda>_ m1.
       if sm_valid_warps_mask_p (sm_of m1 d s) then ret (sm_valid_warps_mask (sm_of m1 d s)) m1
       else
         ret (api_valid_warps e d s)
           (upd_sm d s (\<lambda>x. x\<lparr>sm_valid_warps_mask := api_valid_warps e d s,
                                  sm_valid_warps_mask_p := CACHED\<rparr>)
             (do_effect (Api_read_valid_warps d s) m1)))"

definition sm_get_broken_warps_mask :: "env \<Rightarrow> nat \<Rightarrow> nat \<Rightarrow> mirror \<Rightarrow> (64 word) result" where
  "sm_get_broken_warps_mask e d s m =
     bindE (check_sm e d s m) (\<lambda>_ m1.
       if sm_broken_warps_mask_p (sm_of m1 d s) then ret (sm_broken_warps_mask (sm_of m1 d s)) m1
       else
         ret (api_broken_warps e d s)
           (upd_sm d s (\<lambda>x. x\<lparr>sm_broken_warps_mask := api_broken_warps e d s,
                                  sm_broken_warps_mask_p := CACHED\<rparr>)
             (do_effect (Api_read_broken_warps d s) m1)))"

text \<open>\<^verbatim>\<open>(mask >> i) & 1\<close>, converted to \<^verbatim>\<open>bool\<close>.\<close>

definition shifted_bit :: "'a::len word \<Rightarrow> nat \<Rightarrow> bool" where
  "shifted_bit bits i = (drop_bit i bits AND 1 \<noteq> 0)"

definition warp_is_valid :: "env \<Rightarrow> nat \<Rightarrow> nat \<Rightarrow> nat \<Rightarrow> mirror \<Rightarrow> bool result" where
  "warp_is_valid e d s w m =
     bindE (check_wp e d s w m) (\<lambda>_ m1.
     bindE (sm_get_valid_warps_mask e d s m1) (\<lambda>valid_warps_mask.
     ret (shifted_bit valid_warps_mask w)))"

definition warp_is_broken :: "env \<Rightarrow> nat \<Rightarrow> nat \<Rightarrow> nat \<Rightarrow> mirror \<Rightarrow> bool result" where
  "warp_is_broken e d s w m =
     bindE (check_wp e d s w m) (\<lambda>_ m1.
     bindE (sm_get_broken_warps_mask e d s m1) (\<lambda>broken_warps_mask.
     ret (shifted_bit broken_warps_mask w)))"

definition warp_get_valid_lanes_mask :: "env \<Rightarrow> nat \<Rightarrow> nat \<Rightarrow> nat \<Rightarrow> mirror \<Rightarrow> (32 word) result" where
  "warp_get_valid_lanes_mask e d s w m =
     bindE (check_wp e d s w m) (\<lambda>_ m1.
       if wp_valid_lanes_mask_p (wp_of m1 d s w) then ret (wp_valid_lanes_mask (wp_of m1 d s w)) m1
       else
         bindE (warp_is_valid e d s w m1) (\<lambda>valid m2.
           (let m3 = (if valid then do_effect (Api_read_valid_lanes d s w) m2 else m2);
                valid_lanes_mask = (if valid then api_valid_lanes e d s w else 0);
                m4 = upd_wp d s w (\<lambda>x. x\<lparr>wp_valid_lanes_mask := valid_lanes_mask,
                                            wp_valid_lanes_mask_p := CACHED\<rparr>) m3;
                m5 = (if \<not> wp_timestamp_p (wp_of m4 d s w)
                      then upd_wp d s w (\<lambda>x. x\<lparr>wp_timestamp_p := True, wp_timestamp := cuda_clock e\<rparr>) m4
                      else m4)
            in ret (wp_valid_lanes_mask (wp_of m5 d s w)) m5)))"

definition warp_get_active_lanes_mask :: "env \<Rightarrow> nat \<Rightarrow> nat \<Rightarrow> nat \<Rightarrow> mirror \<Rightarrow> (32 word) result" where
  "warp_get_active_lanes_mask e d s w m =
     bindE (check_wp e d s w m) (\<lambda>_ m1.
       if wp_active_lanes_mask_p (wp_of m1 d s w) then ret (wp_active_lanes_mask (wp_of m1 d s w)) m1
       else
         (let m2 = upd_wp d s w (\<lambda>x. x\<lparr>wp_active_lanes_mask := api_active_lanes e d s w,
                                          wp_active_lanes_mask_p := CACHED\<rparr>)
                     (do_effect (Api_read_active_lanes d s w) m1)
          in ret (wp_active_lanes_mask (wp_of m2 d s w)) m2))"

definition warp_get_divergent_lanes_mask :: "env \<Rightarrow> nat \<Rightarrow> nat \<Rightarrow> nat \<Rightarrow> mirror \<Rightarrow> (32 word) result" where
  "warp_get_divergent_lanes_mask e d s w m =
     bindE (check_wp e d s w m) (\<lambda>_ m1.
     bindE (warp_get_valid_lanes_mask e d s w m1) (\<lambda>valid_lanes_mask m2.
     bindE (warp_get_active_lanes_mask e d s w m2) (\<lambda>active_lanes_mask.
     ret (valid_lanes_mask AND NOT active_lanes_mask))))"

text \<open>
  \<^verbatim>\<open>warp_single_step\<close>: the mask the debug API writes is the result. After the warning
  the code falls through to the loop over the stepped warps and to the invalidation of
  the SM.
\<close>

definition warp_single_step :: "env \<Rightarrow> nat \<Rightarrow> nat \<Rightarrow> nat \<Rightarrow> mirror \<Rightarrow> (64 word) result" where
  "warp_single_step e d s w m =
     bindE (check_wp e d s w m) (\<lambda>_ m1.
       (let single_stepped_warp_mask = api_single_step_warp e d s w;
            m2 = do_effect (Api_single_step_warp d s w) m1
        in
          bindE
            (if cuda_options_software_preemption e then device_invalidate e d m2
             else
               bindE (if single_stepped_warp_mask AND NOT (push_bit w 1) \<noteq> 0
                      then device_invalidate e d
                             (do_effect (Warning ''Warp(s) other than the current warp had to be single-stepped.'') m2)
                      else ret () m2) (\<lambda>_ m3.
               bindE (device_get_num_warps e d m3) (\<lambda>n m4.
               bindE (for_loop [0..<n]
                        (\<lambda>i m5. if push_bit i 1 AND single_stepped_warp_mask \<noteq> 0
                                  then warp_invalidate e d s i m5 else ret () m5) m4) (\<lambda>_.
               sm_invalidate e d s NON_RECURSIVE))))
            (\<lambda>_. ret single_stepped_warp_mask)))"

subsection \<open>Lanes\<close>

definition lane_is_valid :: "env \<Rightarrow> nat \<Rightarrow> nat \<Rightarrow> nat \<Rightarrow> nat \<Rightarrow> mirror \<Rightarrow> bool result" where
  "lane_is_valid e d s w l m =
     bindE (check_ln e d s w l m) (\<lambda>_ m1.
     bindE (warp_get_valid_lanes_mask e d s w m1) (\<lambda>valid_lanes_mask m2.
       ret (shifted_bit valid_lanes_mask l)
         (if \<not> ln_timestamp_p (ln_of m2 d s w l)
          then upd_ln d s w l (\<lambda>x. x\<lparr>ln_timestamp_p := True, ln_timestamp := cuda_clock e\<rparr>) m2
          else m2)))"

definition lane_is_active :: "env \<Rightarrow> nat \<Rightarrow> nat \<Rightarrow> nat \<Rightarrow> nat \<Rightarrow> mirror \<Rightarrow> bool result" where
  "lane_is_active e d s w l m =
     bindE (check_ln e d s w l m) (\<lambda>_ m1.
     bindE (lane_is_valid e d s w l m1) (\<lambda>valid m2.
     bindE (gdb_assert valid m2) (\<lambda>_ m3.
     bindE (warp_get_active_lanes_mask e d s w m3) (\<lambda>active_lanes_mask.
     ret (shifted_bit active_lanes_mask l)))))"

text \<open>
  The body of the loop that shares the PC of an active lane with the other active lanes:
  \<^verbatim>\<open>&&\<close> does not evaluate \<^verbatim>\<open>lane_is_active\<close> when \<^verbatim>\<open>lane_is_valid\<close> is false.
\<close>

definition share_pc :: "env \<Rightarrow> nat \<Rightarrow> nat \<Rightarrow> nat \<Rightarrow> 64 word \<Rightarrow> nat \<Rightarrow> mirror \<Rightarrow> unit result" where
  "share_pc e d s w pc other_ln_id m =
     bindE (lane_is_valid e d s w other_ln_id m) (\<lambda>valid m1.
       if \<not> valid then ret () m1
       else
         bindE (lane_is_active e d s w other_ln_id m1) (\<lambda>active m2.
           if active
           then ret () (upd_ln d s w other_ln_id (\<lambda>x. x\<lparr>ln_pc_p := CACHED, ln_pc := pc\<rparr>) m2)
           else ret () m2))"

definition lane_get_pc :: "env \<Rightarrow> nat \<Rightarrow> nat \<Rightarrow> nat \<Rightarrow> nat \<Rightarrow> mirror \<Rightarrow> (64 word) result" where
  "lane_get_pc e d s w l m =
     bindE (check_ln e d s w l m) (\<lambda>_ m1.
     bindE (lane_is_valid e d s w l m1) (\<lambda>valid m2.
     bindE (gdb_assert valid m2) (\<lambda>_ m3.
       if ln_pc_p (ln_of m3 d s w l) then ret (ln_pc (ln_of m3 d s w l)) m3
       else
         (let pc = api_pc e d s w l;
              m4 = upd_ln d s w l (\<lambda>x. x\<lparr>ln_pc_p := CACHED, ln_pc := pc\<rparr>)
                     (do_effect (Api_read_pc d s w l) m3)
          in
            bindE (lane_is_active e d s w l m4) (\<lambda>active m5.
            bindE (if active
                   then bindE (device_get_num_lanes e d m5) (\<lambda>n. for_loop [0..<n] (share_pc e d s w pc))
                   else ret () m5) (\<lambda>_ m6.
            ret (ln_pc (ln_of m6 d s w l)) m6))))))"

definition share_virtual_pc :: "env \<Rightarrow> nat \<Rightarrow> nat \<Rightarrow> nat \<Rightarrow> 64 word \<Rightarrow> nat \<Rightarrow> mirror \<Rightarrow> unit result" where
  "share_virtual_pc e d s w virtual_pc other_ln_id m =
     bindE (lane_is_valid e d s w other_ln_id m) (\<lambda>valid m1.
       if \<not> valid then ret () m1
       else
         bindE (lane_is_active e d s w other_ln_id m1) (\<lambda>active m2.
           if active
           then ret () (upd_ln d s w other_ln_id
                         (\<lambda>x. x\<lparr>ln_virtual_pc_p := CACHED, ln_virtual_pc := virtual_pc\<rparr>) m2)
           else ret () m2))"

definition lane_get_virtual_pc :: "env \<Rightarrow> nat \<Rightarrow> nat \<Rightarrow> nat \<Rightarrow> nat \<Rightarrow> mirror \<Rightarrow> (64 word) result" where
  "lane_get_virtual_pc e d s w l m =
     bindE (check_ln e d s w l m) (\<lambda>_ m1.
     bindE (lane_is_valid e d s w l m1) (\<lambda>valid m2.
     bindE (gdb_assert valid m2) (\<lambda>_ m3.
       if ln_virtual_pc_p (ln_of m3 d s w l) then ret (ln_virtual_pc (ln_of m3 d s w l)) m3
       else
         (let virtual_pc = api_virtual_pc e d s w l;
              m4 = upd_ln d s w l (\<lambda>x. x\<lparr>ln_virtual_pc_p := CACHED, ln_virtual_pc := virtual_pc\<rparr>)
                     (do_effect (Api_read_virtual_pc d s w l) m3)
          in
            bindE (lane_is_active e d s w l m4) (\<lambda>active m5.
            bindE (if active
                   then bindE (device_get_num_lanes e d m5)
                          (\<lambda>n. for_loop [0..<n] (share_virtual_pc e d s w virtual_pc))
                   else ret () m5) (\<lambda>_ m6.
            ret (ln_virtual_pc (ln_of m6 d s w l)) m6))))))"


subsection \<open>Notions for the statements about the mirror\<close>

text \<open>
  The coordinates are usable without any call of the debug API: the counts they are
  checked against are latched.
\<close>

definition ready_dev :: "env \<Rightarrow> mirror \<Rightarrow> nat \<Rightarrow> bool" where
  "ready_dev e m d = (cuda_initialized e \<and> sys_num_devices_p (cuda_system_info m) \<and>
     d < sys_num_devices (cuda_system_info m))"

definition ready_sm :: "env \<Rightarrow> mirror \<Rightarrow> nat \<Rightarrow> nat \<Rightarrow> bool" where
  "ready_sm e m d s = (ready_dev e m d \<and> dev_num_sms_p (dev_of m d) \<and> s < dev_num_sms (dev_of m d))"

definition ready_wp :: "env \<Rightarrow> mirror \<Rightarrow> nat \<Rightarrow> nat \<Rightarrow> nat \<Rightarrow> bool" where
  "ready_wp e m d s w = (ready_sm e m d s \<and> dev_num_warps_p (dev_of m d) \<and> w < dev_num_warps (dev_of m d))"

definition ready_ln :: "env \<Rightarrow> mirror \<Rightarrow> nat \<Rightarrow> nat \<Rightarrow> nat \<Rightarrow> nat \<Rightarrow> bool" where
  "ready_ln e m d s w l = (ready_wp e m d s w \<and> dev_num_lanes_p (dev_of m d) \<and> l < dev_num_lanes (dev_of m d))"

text \<open>The present flags of a lane, a warp, an SM and a device that invalidation clears.\<close>

definition clear_lane_flags :: "lane_state_t \<Rightarrow> lane_state_t" where
  "clear_lane_flags x = x\<lparr>ln_pc_p := False, ln_virtual_pc_p := False, ln_thread_idx_p := False,
     ln_exception_p := False, ln_timestamp_p := False\<rparr>"

definition clear_warp_flags :: "warp_state_t \<Rightarrow> warp_state_t" where
  "clear_warp_flags x = x\<lparr>wp_valid_p := False, wp_broken_p := False, wp_block_idx_p := False,
     wp_kernel_p := False, wp_grid_id_p := False, wp_valid_lanes_mask_p := False,
     wp_active_lanes_mask_p := False, wp_timestamp_p := False\<rparr>"

definition clear_sm_flags :: "sm_state_t \<Rightarrow> sm_state_t" where
  "clear_sm_flags x = x\<lparr>sm_valid_warps_mask_p := False, sm_broken_warps_mask_p := False\<rparr>"

definition clear_dev_flags :: "device_state_t \<Rightarrow> device_state_t" where
  "clear_dev_flags x = x\<lparr>dev_valid_p := False, dev_filter_exception_state_p := False\<rparr>"

text \<open>A structure without its array, and a device without its counts and its array.\<close>

definition wp_scalars :: "warp_state_t \<Rightarrow> warp_state_t" where
  "wp_scalars x = x\<lparr>wp_ln := (\<lambda>_. zero_lane)\<rparr>"

definition sm_scalars :: "sm_state_t \<Rightarrow> sm_state_t" where
  "sm_scalars x = x\<lparr>sm_wp := (\<lambda>_. zero_warp)\<rparr>"

definition dev_rest :: "device_state_t \<Rightarrow> device_state_t" where
  "dev_rest x = x\<lparr>dev_num_sms_p := False, dev_num_warps_p := False, dev_num_lanes_p := False,
     dev_num_sms := 0, dev_num_warps := 0, dev_num_lanes := 0, dev_sm := (\<lambda>_. zero_sm)\<rparr>"

text \<open>A latched count stays latched, with its value.\<close>

definition counts_kept :: "device_state_t \<Rightarrow> device_state_t \<Rightarrow> bool" where
  "counts_kept x x' =
     ((dev_num_sms_p x \<longrightarrow> dev_num_sms_p x' \<and> dev_num_sms x' = dev_num_sms x) \<and>
      (dev_num_warps_p x \<longrightarrow> dev_num_warps_p x' \<and> dev_num_warps x' = dev_num_warps x) \<and>
      (dev_num_lanes_p x \<longrightarrow> dev_num_lanes_p x' \<and> dev_num_lanes x' = dev_num_lanes x))"

fun is_count_query :: "effect \<Rightarrow> bool" where
  "is_count_query Api_get_num_devices = True"
| "is_count_query (Api_get_num_sms d) = True"
| "is_count_query (Api_get_num_warps d) = True"
| "is_count_query (Api_get_num_lanes d) = True"
| "is_count_query _ = False"

text \<open>
  What a step may touch: the effects it may add, and the devices, SMs, warps and lanes
  whose present flags it clears.
\<close>

datatype slot =
    Eff effect
  | Dev_flags nat
  | Sm_flags nat nat
  | Wp_flags nat nat nat
  | Ln_flags nat nat nat nat

text \<open>
  \<open>clears A m m'\<close>: the state \<open>m'\<close> is \<open>m\<close> with the present flags of the slots of
  \<open>A\<close> cleared, with some more counts latched, and with effects of \<open>A\<close> added; every
  other member has kept its value.
\<close>

definition clears :: "slot set \<Rightarrow> mirror \<Rightarrow> mirror \<Rightarrow> bool" where
  "clears A m m' =
     (sys_suspended_devices_mask (cuda_system_info m') = sys_suspended_devices_mask (cuda_system_info m) \<and>
      (sys_num_devices_p (cuda_system_info m) \<longrightarrow>
         sys_num_devices_p (cuda_system_info m') \<and>
         sys_num_devices (cuda_system_info m') = sys_num_devices (cuda_system_info m)) \<and>
      (\<forall>d. dev_rest (dev_of m' d) =
              dev_rest (if Dev_flags d \<in> A then clear_dev_flags (dev_of m d) else dev_of m d) \<and>
           counts_kept (dev_of m d) (dev_of m' d)) \<and>
      (\<forall>d s. sm_scalars (sm_of m' d s) =
              sm_scalars (if Sm_flags d s \<in> A then clear_sm_flags (sm_of m d s) else sm_of m d s)) \<and>
      (\<forall>d s w. wp_scalars (wp_of m' d s w) =
              wp_scalars (if Wp_flags d s w \<in> A then clear_warp_flags (wp_of m d s w) else wp_of m d s w)) \<and>
      (\<forall>d s w l. ln_of m' d s w l =
              (if Ln_flags d s w l \<in> A then clear_lane_flags (ln_of m d s w l) else ln_of m d s w l)) \<and>
      (\<exists>tr. effects m' = effects m @ tr \<and> list_all (\<lambda>a. Eff a \<in> A) tr))"

definition count_queries :: "slot set" where
  "count_queries = {Eff a |a. is_count_query a}"

definition warp_slots :: "nat \<Rightarrow> nat \<Rightarrow> nat \<Rightarrow> nat \<Rightarrow> slot set" where
  "warp_slots d s w n = {Sm_flags d s, Wp_flags d s w} \<union> {Ln_flags d s w l |l. l < n}"

definition sm_slots :: "nat \<Rightarrow> nat \<Rightarrow> nat \<Rightarrow> nat \<Rightarrow> slot set" where
  "sm_slots d s nw nl = {Sm_flags d s} \<union> {Wp_flags d s w |w. w < nw} \<union> {Ln_flags d s w l |w l. w < nw \<and> l < nl}"

definition device_slots :: "nat \<Rightarrow> nat \<Rightarrow> nat \<Rightarrow> nat \<Rightarrow> slot set" where
  "device_slots d ns nw nl = {Dev_flags d, Eff Kernels_invalidate} \<union> {Sm_flags d s |s. s < ns} \<union>
     {Wp_flags d s w |s w. s < ns \<and> w < nw} \<union> {Ln_flags d s w l |s w l. s < ns \<and> w < nw \<and> l < nl}"


subsection \<open>Notions for the statements about invalidation\<close>

definition lane_flags_clear :: "lane_state_t \<Rightarrow> bool" where
  "lane_flags_clear x = (\<not> ln_thread_idx_p x \<and> \<not> ln_pc_p x \<and> \<not> ln_exception_p x \<and>
     \<not> ln_virtual_pc_p x \<and> \<not> ln_timestamp_p x)"

definition warp_flags_clear :: "warp_state_t \<Rightarrow> bool" where
  "warp_flags_clear x = (\<not> wp_valid_p x \<and> \<not> wp_broken_p x \<and> \<not> wp_block_idx_p x \<and>
     \<not> wp_kernel_p x \<and> \<not> wp_grid_id_p x \<and> \<not> wp_valid_lanes_mask_p x \<and>
     \<not> wp_active_lanes_mask_p x \<and> \<not> wp_timestamp_p x)"

definition sm_flags_clear :: "sm_state_t \<Rightarrow> bool" where
  "sm_flags_clear x = (\<not> sm_valid_warps_mask_p x \<and> \<not> sm_broken_warps_mask_p x)"

text \<open>
  The cached state of a device is invalid: its two flags are clear, and so are the flags
  of every SM, warp and lane below the device's counts.
\<close>

definition device_invalidated :: "mirror \<Rightarrow> nat \<Rightarrow> bool" where
  "device_invalidated m d =
     (\<not> dev_valid_p (dev_of m d) \<and> \<not> dev_filter_exception_state_p (dev_of m d) \<and>
      (\<forall>s<dev_num_sms (dev_of m d).
         sm_flags_clear (sm_of m d s) \<and>
         (\<forall>w<dev_num_warps (dev_of m d).
            warp_flags_clear (wp_of m d s w) \<and>
            (\<forall>l<dev_num_lanes (dev_of m d). lane_flags_clear (ln_of m d s w l)))))"

text \<open>What a run leaves, seen through an observation of the final state.\<close>

definition outcome :: "(mirror \<Rightarrow> 'b) \<Rightarrow> 'a result \<Rightarrow> error + 'b" where
  "outcome f r = (case r of Inl err \<Rightarrow> Inl err | Inr (a, m) \<Rightarrow> Inr (f m))"

text \<open>
  A small machine for the scenarios: one device with one SM, two warps of four lanes
  each, both warps valid, all lanes valid and lanes 0 and 1 active.
\<close>

definition env_demo :: env where
  "env_demo = \<lparr>cuda_initialized = True, cuda_options_software_preemption = False,
     cuda_clock = 1, CUDBG_MAX_DEVICES = 32, CUDBG_MAX_SMS = 64, CUDBG_MAX_WARPS = 64,
     CUDBG_MAX_LANES = 32, any_context_present = (\<lambda>_. True), api_num_devices = 1,
     api_num_sms = (\<lambda>_. 1), api_num_warps = (\<lambda>_. 2), api_num_lanes = (\<lambda>_. 4),
     api_valid_warps = (\<lambda>_ _. 3), api_broken_warps = (\<lambda>_ _. 0),
     api_valid_lanes = (\<lambda>_ _ _. 15), api_active_lanes = (\<lambda>_ _ _. 3),
     api_pc = (\<lambda>_ _ _ _. 57005), api_virtual_pc = (\<lambda>_ _ _ _. 48879),
     api_single_step_warp = (\<lambda>_ _ w. push_bit w 1)\<rparr>"


text \<open>The effects a run has added.\<close>

definition new_effects :: "mirror \<Rightarrow> mirror \<Rightarrow> effect list" where
  "new_effects m m' = drop (length (effects m)) (effects m')"

text \<open>
  The slots of the warps of an SM that a mask of single-stepped warps names, with the two
  masks of the SM.
\<close>

definition stepped_slots :: "nat \<Rightarrow> nat \<Rightarrow> 64 word \<Rightarrow> nat \<Rightarrow> slot set" where
  "stepped_slots d s stepped nl = {Sm_flags d s} \<union> {Wp_flags d s i |i. bit stepped i} \<union>
     {Ln_flags d s i l |i l. bit stepped i \<and> l < nl}"

definition single_step_warning :: effect where
  "single_step_warning = Warning ''Warp(s) other than the current warp had to be single-stepped.''"

text \<open>
  The coordinates are within the ranges, and a count that is not latched yet is within
  the size of its array: what the assertions of the mirror ask for.
\<close>

definition device_in_range :: "env \<Rightarrow> mirror \<Rightarrow> nat \<Rightarrow> bool" where
  "device_in_range e m d =
     (cuda_initialized e \<and>
      (if sys_num_devices_p (cuda_system_info m) then d < sys_num_devices (cuda_system_info m)
       else api_num_devices e \<le> CUDBG_MAX_DEVICES e \<and> d < api_num_devices e))"

definition counts_in_range :: "env \<Rightarrow> mirror \<Rightarrow> nat \<Rightarrow> bool" where
  "counts_in_range e m d =
     ((dev_num_sms_p (dev_of m d) \<or> api_num_sms e d \<le> CUDBG_MAX_SMS e) \<and>
      (dev_num_warps_p (dev_of m d) \<or> api_num_warps e d \<le> CUDBG_MAX_WARPS e) \<and>
      (dev_num_lanes_p (dev_of m d) \<or> api_num_lanes e d \<le> CUDBG_MAX_LANES e))"

definition warp_in_range :: "env \<Rightarrow> mirror \<Rightarrow> nat \<Rightarrow> nat \<Rightarrow> nat \<Rightarrow> bool" where
  "warp_in_range e m d s w =
     (device_in_range e m d \<and> counts_in_range e m d \<and>
      s < (if dev_num_sms_p (dev_of m d) then dev_num_sms (dev_of m d) else api_num_sms e d) \<and>
      w < (if dev_num_warps_p (dev_of m d) then dev_num_warps (dev_of m d) else api_num_warps e d))"

text \<open>
  Two runs in a row, seen through an observation of the state between them, of the result
  of the second and of the final state.
\<close>

definition observing :: "'a result \<Rightarrow> (mirror \<Rightarrow> 'b result) \<Rightarrow> (mirror \<Rightarrow> 'b \<Rightarrow> mirror \<Rightarrow> 'c) \<Rightarrow> error + 'c" where
  "observing r g obs =
     (case r of
        Inl err \<Rightarrow> Inl err
      | Inr (a, m) \<Rightarrow> (case g m of Inl err \<Rightarrow> Inl err | Inr (b, m') \<Rightarrow> Inr (obs m b m')))"

text \<open>
  The mirror of the small machine after \<^verbatim>\<open>cuda_system_initialize ()\<close> on the static
  storage, \<^verbatim>\<open>device_suspend (0)\<close>, and the reads of the PC of lane 0 of warp 0 and of
  lane 0 of warp 1: the counts, the masks of the SM and of both warps and the PCs of the
  active lanes of both warps are cached.
\<close>

definition demo_populated :: "unit result" where
  "demo_populated =
     bindE (cuda_system_initialize env_demo zero_mirror) (\<lambda>_ m0.
     bindE (device_suspend env_demo 0 m0) (\<lambda>_ m1.
     bindE (lane_get_pc env_demo 0 0 0 0 m1) (\<lambda>_ m2.
     bindE (lane_get_pc env_demo 0 0 1 0 m2) (\<lambda>_. ret ()))))"

text \<open>The same machine with software preemption, and one whose single step reports both warps.\<close>

definition env_preemption :: env where
  "env_preemption = env_demo\<lparr>cuda_options_software_preemption := True\<rparr>"

definition env_both_warps :: env where
  "env_both_warps = env_demo\<lparr>api_single_step_warp := (\<lambda>_ _ _. 3)\<rparr>"

text \<open>A machine whose debug API reports an active lane that it does not report valid.\<close>

definition env_stray_lane :: env where
  "env_stray_lane = env_demo\<lparr>api_valid_lanes := (\<lambda>_ _ _. 1), api_active_lanes := (\<lambda>_ _ _. 2)\<rparr>"

section \<open>Events (cuda-events.c)\<close>

text \<open>
  The handlers of cuda-events.c call into cuda-context.c, cuda-kernel.c, the breakpoint
  code and the options, none of which is part of the sources at hand; cuda-context.h
  declares the functions and the structures of the first. The handlers themselves, their
  tests and the order of their calls are the code's.

  The enumerations are those of headers that are not at hand; the members the code names
  keep their names, and one more constructor stands for the others.
\<close>

datatype cuda_attach_state_t =
    CUDA_ATTACH_STATE_NOT_STARTED
  | CUDA_ATTACH_STATE_APP_READY
  | CUDA_ATTACH_STATE_DETACH_COMPLETE
  | CUDA_ATTACH_STATE_other nat

datatype CUDBGKernelType =
    CUDBG_KNL_TYPE_APPLICATION
  | CUDBG_KNL_TYPE_SYSTEM
  | CUDBG_KNL_TYPE_other nat

text \<open>
  \<^verbatim>\<open>struct context_st\<close> of cuda-context.h; a \<^verbatim>\<open>context_t\<close> is a pointer to one, here
  the address of the structure, or \<open>None\<close> for \<^verbatim>\<open>NULL\<close>.
\<close>

record context_st =
  cx_context_id :: "64 word"
  cx_dev_id :: nat
  cx_modules :: "64 word list"

text \<open>
  \<^verbatim>\<open>struct contexts_st\<close> of cuda-context.h: the list of all contexts of a device and the
  stack of contexts of each host thread.
\<close>

record contexts_st =
  cs_list :: "nat list"
  cs_stacks :: "32 word \<Rightarrow> nat list"

text \<open>
  The calls of a handler that change something outside it, in program order, with their
  arguments: the functions of cuda-context.c that change a registry, the current context
  or the store of contexts, and the calls of the kernel registry, of the breakpoint code
  and of the output.
\<close>

datatype host_call =
    Context_new nat "64 word" nat
  | Context_delete "nat option"
  | Contexts_add_context nat "nat option"
  | Contexts_remove_context nat "nat option"
  | Contexts_stack_context nat "nat option" "32 word"
  | Contexts_unstack_context nat "32 word"
  | Set_current_context "nat option"
  | Cuda_cleanup_auto_breakpoints "64 word"
  | Cuda_unresolve_breakpoints "64 word"
  | Cuda_resolve_breakpoints "64 word"
  | Cuda_create_auto_breakpoint "64 word" "64 word"
  | Module_new "nat option" "64 word"
  | Modules_add "nat option" "64 word"
  | Kernels_start_kernel nat "64 word" "64 word" "64 word" "64 word"
  | Kernels_terminate_kernel nat "64 word"
  | Clear_current_source_symtab_and_line
  | Clear_displays
  | Cuda_remove_breakpoints
  | Cuda_insert_breakpoints
  | Printf_unfiltered string "64 word" nat

text \<open>
  The state the handlers work on: the mirror (for \<^verbatim>\<open>device_get_contexts\<close>), the attach
  state that \<^verbatim>\<open>cuda_api_get_attach_state\<close> returns, the registries by the name the mirror
  has for them, the contexts that are allocated by their address, the number of
  allocations so far, the current context, and the calls made.
\<close>

record host =
  h_mirror :: mirror
  h_attach_state :: cuda_attach_state_t
  h_registries :: "nat \<Rightarrow> contexts_st"
  h_store :: "nat \<Rightarrow> context_st option"
  h_allocated :: nat
  h_current_context :: "nat option"
  h_calls :: "host_call list"

record options =
  cuda_options_show_context_events :: bool
  cuda_options_break_on_launch_application :: bool
  cuda_options_break_on_launch_system :: bool

type_synonym 'a hresult = "error + 'a \<times> host"

definition bindH :: "'a hresult \<Rightarrow> ('a \<Rightarrow> host \<Rightarrow> 'b hresult) \<Rightarrow> 'b hresult" where
  "bindH r f = (case r of Inl err \<Rightarrow> Inl err | Inr (a, h) \<Rightarrow> f a h)"

definition call :: "host_call \<Rightarrow> host \<Rightarrow> host" where
  "call c h = h\<lparr>h_calls := h_calls h @ [c]\<rparr>"

text \<open>A function of the mirror, run on the mirror of the state.\<close>

definition in_mirror :: "(mirror \<Rightarrow> 'a result) \<Rightarrow> host \<Rightarrow> 'a hresult" where
  "in_mirror f h =
     (case f (h_mirror h) of
        Inl err \<Rightarrow> Inl err
      | Inr (a, m) \<Rightarrow> Inr (a, h\<lparr>h_mirror := m\<rparr>))"

subsection \<open>The registry of contexts (cuda-context.c)\<close>

text \<open>
  Modelled from the spec: cuda-context.c is not part of the sources at hand. Section 4.3
  of the specification gives a device an unordered list of contexts and a stack of contexts
  for each host thread: \<open>add_context\<close> and \<open>remove_context\<close> add to and remove from
  the list, the latter returning what it removed; \<open>stack_context\<close> and
  \<open>unstack_context\<close> push on and pop from the stack of the thread; \<open>active_context\<close> is
  the top of that stack; \<open>find_by_id\<close> finds the context of the list with the given id. A
  pop from an empty stack and the top of an empty stack are \<^verbatim>\<open>NULL\<close>. \<^verbatim>\<open>context_new\<close>
  allocates a structure at an address never used before, \<^verbatim>\<open>context_delete\<close> frees it,
  and \<^verbatim>\<open>set_current_context\<close> and \<^verbatim>\<open>get_current_context\<close> write and read one pointer.
\<close>

definition context_new :: "64 word \<Rightarrow> nat \<Rightarrow> host \<Rightarrow> nat option \<times> host" where
  "context_new cid d h =
     (let a = Suc (h_allocated h) in
      (Some a,
       call (Context_new a cid d)
         (h\<lparr>h_allocated := a,
            h_store := (h_store h)(a := Some \<lparr>cx_context_id = cid, cx_dev_id = d, cx_modules = []\<rparr>)\<rparr>)))"

definition context_delete :: "nat option \<Rightarrow> host \<Rightarrow> host" where
  "context_delete ctx h =
     call (Context_delete ctx)
       (case ctx of None \<Rightarrow> h | Some a \<Rightarrow> h\<lparr>h_store := (h_store h)(a := None)\<rparr>)"

definition context_get_id :: "nat option \<Rightarrow> host \<Rightarrow> 64 word option" where
  "context_get_id ctx h =
     (case ctx of None \<Rightarrow> None | Some a \<Rightarrow> map_option cx_context_id (h_store h a))"

definition contexts_add_context :: "nat \<Rightarrow> nat option \<Rightarrow> host \<Rightarrow> host" where
  "contexts_add_context r ctx h =
     call (Contexts_add_context r ctx)
       (case ctx of
          None \<Rightarrow> h
        | Some a \<Rightarrow> h\<lparr>h_registries := (h_registries h)
                        (r := (h_registries h r)\<lparr>cs_list := a # cs_list (h_registries h r)\<rparr>)\<rparr>)"

definition contexts_remove_context :: "nat \<Rightarrow> nat option \<Rightarrow> host \<Rightarrow> host" where
  "contexts_remove_context r ctx h =
     call (Contexts_remove_context r ctx)
       (case ctx of
          None \<Rightarrow> h
        | Some a \<Rightarrow> h\<lparr>h_registries := (h_registries h)
                        (r := (h_registries h r)\<lparr>cs_list := remove1 a (cs_list (h_registries h r))\<rparr>)\<rparr>)"

definition contexts_stack_context :: "nat \<Rightarrow> nat option \<Rightarrow> 32 word \<Rightarrow> host \<Rightarrow> host" where
  "contexts_stack_context r ctx tid h =
     call (Contexts_stack_context r ctx tid)
       (case ctx of
          None \<Rightarrow> h
        | Some a \<Rightarrow> h\<lparr>h_registries := (h_registries h)
                        (r := (h_registries h r)\<lparr>cs_stacks := (cs_stacks (h_registries h r))
                                 (tid := a # cs_stacks (h_registries h r) tid)\<rparr>)\<rparr>)"

definition contexts_get_active_context :: "nat \<Rightarrow> 32 word \<Rightarrow> host \<Rightarrow> nat option" where
  "contexts_get_active_context r tid h =
     (case cs_stacks (h_registries h r) tid of [] \<Rightarrow> None | a # rest \<Rightarrow> Some a)"

definition contexts_unstack_context :: "nat \<Rightarrow> 32 word \<Rightarrow> host \<Rightarrow> nat option \<times> host" where
  "contexts_unstack_context r tid h =
     (contexts_get_active_context r tid h,
      call (Contexts_unstack_context r tid)
        (h\<lparr>h_registries := (h_registries h)
             (r := (h_registries h r)\<lparr>cs_stacks := (cs_stacks (h_registries h r))
                      (tid := tl (cs_stacks (h_registries h r) tid))\<rparr>)\<rparr>))"

definition contexts_find_context_by_id :: "nat \<Rightarrow> 64 word \<Rightarrow> host \<Rightarrow> nat option" where
  "contexts_find_context_by_id r cid h =
     find (\<lambda>a. map_option cx_context_id (h_store h a) = Some cid) (cs_list (h_registries h r))"

definition get_current_context :: "host \<Rightarrow> nat option" where
  "get_current_context h = h_current_context h"

definition set_current_context :: "nat option \<Rightarrow> host \<Rightarrow> host" where
  "set_current_context ctx h = call (Set_current_context ctx) (h\<lparr>h_current_context := ctx\<rparr>)"

subsection \<open>The handlers\<close>

text \<open>
  \<^verbatim>\<open>cuda_trace\<close> prints when tracing is on and is left out. The part of
  \<^verbatim>\<open>cuda_event_create_context\<close> that is compiled on \<^verbatim>\<open>__APPLE__\<close> only, and the part of
  \<^verbatim>\<open>cuda_event_kernel_ready\<close> that sets \<^verbatim>\<open>inferior_ptid\<close> around its two calls and
  restores it on Linux, are left out as well.
\<close>

definition invalid_thread_id :: error where
  "invalid_thread_id = Error ''A CUDA event reported an invalid thread id.''"

definition cuda_event_create_context :: "env \<Rightarrow> options \<Rightarrow> nat \<Rightarrow> 64 word \<Rightarrow> 32 word \<Rightarrow> host \<Rightarrow> unit hresult" where
  "cuda_event_create_context e opts d cid tid h =
     (if tid = NOT 0 then Inl invalid_thread_id
      else
        bindH (in_mirror (device_get_contexts e d) h) (\<lambda>contexts h1.
          (let (ctx, h2) = context_new cid d h1;
               h3 = contexts_add_context contexts ctx h2;
               h4 = contexts_stack_context contexts ctx tid h3
           in Inr ((), if cuda_options_show_context_events opts
                       then call (Printf_unfiltered ''[Context Create of context 0x%llx on Device %u]'' cid d) h4
                       else h4))))"

definition cuda_event_destroy_context :: "env \<Rightarrow> options \<Rightarrow> nat \<Rightarrow> 64 word \<Rightarrow> 32 word \<Rightarrow> host \<Rightarrow> unit hresult" where
  "cuda_event_destroy_context e opts d cid tid h =
     (if tid = NOT 0 then Inl invalid_thread_id
      else
        bindH (in_mirror (device_get_contexts e d) h) (\<lambda>contexts h1.
          (let ctx0 = contexts_find_context_by_id contexts cid h1;
               (ctx, h2) = (if contexts_get_active_context contexts tid h1 = ctx0
                            then contexts_unstack_context contexts tid h1
                            else (ctx0, h1));
               h3 = (if ctx = get_current_context h2 then set_current_context None h2 else h2);
               h4 = call (Cuda_cleanup_auto_breakpoints cid) h3;
               h5 = call (Cuda_unresolve_breakpoints cid) h4;
               h6 = contexts_remove_context contexts ctx h5;
               h7 = context_delete ctx h6
           in Inr ((), if cuda_options_show_context_events opts
                       then call (Printf_unfiltered ''[Context Destroy of context 0x%llx on Device %u]'' cid d) h7
                       else h7))))"

definition cuda_event_push_context :: "env \<Rightarrow> options \<Rightarrow> nat \<Rightarrow> 64 word \<Rightarrow> 32 word \<Rightarrow> host \<Rightarrow> unit hresult" where
  "cuda_event_push_context e opts d cid tid h =
     (if h_attach_state h \<noteq> CUDA_ATTACH_STATE_NOT_STARTED then Inr ((), h)
      else if tid = NOT 0 then Inl invalid_thread_id
      else
        bindH (in_mirror (device_get_contexts e d) h) (\<lambda>contexts h1.
          (let ctx = contexts_find_context_by_id contexts cid h1;
               h2 = contexts_stack_context contexts ctx tid h1
           in Inr ((), if cuda_options_show_context_events opts
                       then call (Printf_unfiltered ''[Context Push of context 0x%llx on Device %u]'' cid d) h2
                       else h2))))"

text \<open>
  \<^verbatim>\<open>gdb_assert (context_get_id (context) == context_id)\<close>: for a pointer that is
  \<^verbatim>\<open>NULL\<close> or freed there is no id to compare, and the assertion is taken to fail.
\<close>

definition cuda_event_pop_context :: "env \<Rightarrow> options \<Rightarrow> nat \<Rightarrow> 64 word \<Rightarrow> 32 word \<Rightarrow> host \<Rightarrow> unit hresult" where
  "cuda_event_pop_context e opts d cid tid h =
     (if h_attach_state h \<noteq> CUDA_ATTACH_STATE_NOT_STARTED then Inr ((), h)
      else if tid = NOT 0 then Inl invalid_thread_id
      else
        bindH (in_mirror (device_get_contexts e d) h) (\<lambda>contexts h1.
          (let (ctx, h2) = contexts_unstack_context contexts tid h1 in
           if context_get_id ctx h2 \<noteq> Some cid then Inl Assertion_failure
           else Inr ((), if cuda_options_show_context_events opts
                         then call (Printf_unfiltered ''[Context Pop of context 0x%llx on Device %u]'' cid d) h2
                         else h2))))"

definition cuda_event_load_elf_image :: "env \<Rightarrow> nat \<Rightarrow> 64 word \<Rightarrow> 64 word \<Rightarrow> host \<Rightarrow> unit hresult" where
  "cuda_event_load_elf_image e d cid module_id h =
     bindH (in_mirror (check_dev e d) h) (\<lambda>_ h0.
     bindH (in_mirror (device_get_contexts e d) h0) (\<lambda>contexts h1.
       (let ctx = contexts_find_context_by_id contexts cid h1;
            h2 = call (Modules_add ctx module_id) (call (Module_new ctx module_id) h1);
            h3 = set_current_context ctx h2
        in Inr ((), call (Cuda_resolve_breakpoints module_id) h3))))"

definition cuda_event_kernel_ready :: "options \<Rightarrow> nat \<Rightarrow> 64 word \<Rightarrow> 64 word \<Rightarrow> 64 word \<Rightarrow> 32 word \<Rightarrow> 64 word \<Rightarrow> CUDBGKernelType \<Rightarrow> host \<Rightarrow> unit hresult" where
  "cuda_event_kernel_ready opts d cid module_id grid_id tid virt_code_base knl_type h =
     (if tid = NOT 0 then Inl invalid_thread_id
      else
        (let h1 = call (Kernels_start_kernel d grid_id virt_code_base cid module_id) h in
         Inr ((), if (knl_type = CUDBG_KNL_TYPE_APPLICATION \<and> cuda_options_break_on_launch_application opts) \<or>
                     (knl_type = CUDBG_KNL_TYPE_SYSTEM \<and> cuda_options_break_on_launch_system opts)
                  then call (Cuda_create_auto_breakpoint virt_code_base cid) h1
                  else h1)))"

definition cuda_event_kernel_finished :: "nat \<Rightarrow> 64 word \<Rightarrow> host \<Rightarrow> unit hresult" where
  "cuda_event_kernel_finished d grid_id h =
     Inr ((), call Clear_displays (call Clear_current_source_symtab_and_line
                (call (Kernels_terminate_kernel d grid_id) h)))"

definition cuda_event_internal_error :: "nat \<Rightarrow> host \<Rightarrow> unit hresult" where
  "cuda_event_internal_error error_type h =
     Inl (Error ''Error: Internal error reported by CUDA debugger API (error=%u). The application cannot be further debugged.'')"

text \<open>
  \<^verbatim>\<open>CUDBGEvent\<close>: the kind with the members of the case the handlers read. The grid and
  block dimensions, the parent grid and the origin of a kernel are passed on to
  \<^verbatim>\<open>kernels_start_kernel\<close> only and are left out; so is the ELF image. The last
  constructor stands for the kinds the \<^verbatim>\<open>switch\<close> has no case for.
\<close>

datatype CUDBGEvent =
    CUDBG_EVENT_ELF_IMAGE_LOADED nat "64 word" "64 word"
  | CUDBG_EVENT_KERNEL_READY nat "64 word" "64 word" "64 word" "32 word" "64 word" CUDBGKernelType
  | CUDBG_EVENT_KERNEL_FINISHED nat "64 word"
  | CUDBG_EVENT_CTX_PUSH nat "64 word" "32 word"
  | CUDBG_EVENT_CTX_POP nat "64 word" "32 word"
  | CUDBG_EVENT_CTX_CREATE nat "64 word" "32 word"
  | CUDBG_EVENT_CTX_DESTROY nat "64 word" "32 word"
  | CUDBG_EVENT_INTERNAL_ERROR nat
  | CUDBG_EVENT_TIMEOUT
  | CUDBG_EVENT_ATTACH_COMPLETE
  | CUDBG_EVENT_DETACH_COMPLETE
  | CUDBG_EVENT_INVALID
  | CUDBG_EVENT_other nat

fun cuda_process_event :: "env \<Rightarrow> options \<Rightarrow> CUDBGEvent \<Rightarrow> host \<Rightarrow> unit hresult" where
  "cuda_process_event e opts (CUDBG_EVENT_ELF_IMAGE_LOADED d cid module_id) h =
     cuda_event_load_elf_image e d cid module_id h"
| "cuda_process_event e opts (CUDBG_EVENT_KERNEL_READY d cid module_id grid_id tid virt_code_base knl_type) h =
     cuda_event_kernel_ready opts d cid module_id grid_id tid virt_code_base knl_type h"
| "cuda_process_event e opts (CUDBG_EVENT_KERNEL_FINISHED d grid_id) h = cuda_event_kernel_finished d grid_id h"
| "cuda_process_event e opts (CUDBG_EVENT_CTX_PUSH d cid tid) h = cuda_event_push_context e opts d cid tid h"
| "cuda_process_event e opts (CUDBG_EVENT_CTX_POP d cid tid) h = cuda_event_pop_context e opts d cid tid h"
| "cuda_process_event e opts (CUDBG_EVENT_CTX_CREATE d cid tid) h = cuda_event_create_context e opts d cid tid h"
| "cuda_process_event e opts (CUDBG_EVENT_CTX_DESTROY d cid tid) h = cuda_event_destroy_context e opts d cid tid h"
| "cuda_process_event e opts (CUDBG_EVENT_INTERNAL_ERROR error_type) h = cuda_event_internal_error error_type h"
| "cuda_process_event e opts CUDBG_EVENT_TIMEOUT h = Inr ((), h)"
| "cuda_process_event e opts CUDBG_EVENT_ATTACH_COMPLETE h =
     Inr ((), h\<lparr>h_attach_state := CUDA_ATTACH_STATE_APP_READY\<rparr>)"
| "cuda_process_event e opts CUDBG_EVENT_DETACH_COMPLETE h =
     Inr ((), h\<lparr>h_attach_state := CUDA_ATTACH_STATE_DETACH_COMPLETE\<rparr>)"
| "cuda_process_event e opts CUDBG_EVENT_INVALID h = Inl Assertion_failure"
| "cuda_process_event e opts (CUDBG_EVENT_other k) h = Inl Assertion_failure"

text \<open>
  \<^verbatim>\<open>cuda_process_events\<close>: the queue is the list of the events the debug API hands out,
  one after the other; the event of kind \<^verbatim>\<open>CUDBG_EVENT_INVALID\<close> ends it, and so does the
  end of the list.
\<close>

fun drain :: "env \<Rightarrow> options \<Rightarrow> CUDBGEvent list \<Rightarrow> host \<Rightarrow> unit hresult" where
  "drain e opts [] h = Inr ((), h)"
| "drain e opts (ev # evs) h =
     (if ev = CUDBG_EVENT_INVALID then Inr ((), h)
      else bindH (cuda_process_event e opts ev h) (\<lambda>_. drain e opts evs))"

definition cuda_event_post_process :: "host \<Rightarrow> host" where
  "cuda_event_post_process h = call Cuda_insert_breakpoints (call Cuda_remove_breakpoints h)"

definition cuda_process_events :: "env \<Rightarrow> options \<Rightarrow> CUDBGEvent list \<Rightarrow> host \<Rightarrow> unit hresult" where
  "cuda_process_events e opts evs h =
     bindH (drain e opts evs h) (\<lambda>_ h1. Inr ((), cuda_event_post_process h1))"

subsection \<open>Notions for the statements about events\<close>

text \<open>The event carries the thread id \<^verbatim>\<open>~0U\<close>.\<close>

fun carries_invalid_tid :: "CUDBGEvent \<Rightarrow> bool" where
  "carries_invalid_tid (CUDBG_EVENT_KERNEL_READY d cid module_id grid_id tid virt_code_base knl_type) = (tid = NOT 0)"
| "carries_invalid_tid (CUDBG_EVENT_CTX_PUSH d cid tid) = (tid = NOT 0)"
| "carries_invalid_tid (CUDBG_EVENT_CTX_POP d cid tid) = (tid = NOT 0)"
| "carries_invalid_tid (CUDBG_EVENT_CTX_CREATE d cid tid) = (tid = NOT 0)"
| "carries_invalid_tid (CUDBG_EVENT_CTX_DESTROY d cid tid) = (tid = NOT 0)"
| "carries_invalid_tid _ = False"

fun is_push_or_pop :: "CUDBGEvent \<Rightarrow> bool" where
  "is_push_or_pop (CUDBG_EVENT_CTX_PUSH d cid tid) = True"
| "is_push_or_pop (CUDBG_EVENT_CTX_POP d cid tid) = True"
| "is_push_or_pop _ = False"

text \<open>
  The state at the start of a session: the mirror after \<^verbatim>\<open>cuda_system_initialize\<close> on
  the small machine, no attach under way, empty registries, nothing allocated.
\<close>

definition empty_registry :: contexts_st where
  "empty_registry = \<lparr>cs_list = [], cs_stacks = (\<lambda>_. [])\<rparr>"

definition host_of :: "mirror \<Rightarrow> host" where
  "host_of m = \<lparr>h_mirror = m, h_attach_state = CUDA_ATTACH_STATE_NOT_STARTED,
     h_registries = (\<lambda>_. empty_registry), h_store = (\<lambda>_. None), h_allocated = 0,
     h_current_context = None, h_calls = []\<rparr>"

definition host_demo :: "unit hresult" where
  "host_demo = map_sum id (\<lambda>(u, m). ((), host_of m)) (cuda_system_initialize env_demo zero_mirror)"

definition options_demo :: options where
  "options_demo = \<lparr>cuda_options_show_context_events = False,
     cuda_options_break_on_launch_application = False, cuda_options_break_on_launch_system = False\<rparr>"

text \<open>
  Two runs in a row on the state of the handlers, seen through an observation of the state
  between them and of the final state.
\<close>

definition observingH :: "'a hresult \<Rightarrow> (host \<Rightarrow> 'b hresult) \<Rightarrow> (host \<Rightarrow> host \<Rightarrow> 'c) \<Rightarrow> error + 'c" where
  "observingH r g obs =
     (case r of
        Inl err \<Rightarrow> Inl err
      | Inr (a, h) \<Rightarrow> (case g h of Inl err \<Rightarrow> Inl err | Inr (b, h') \<Rightarrow> Inr (obs h h')))"

text \<open>
  A context 10 of device 0 is created by thread 100 and an ELF image is loaded into it,
  which makes it the current context.
\<close>

definition host_with_context :: "unit hresult" where
  "host_with_context =
     bindH host_demo (\<lambda>_.
       drain env_demo options_demo [CUDBG_EVENT_CTX_CREATE 0 10 100, CUDBG_EVENT_ELF_IMAGE_LOADED 0 10 77])"


text \<open>Auxiliary notions for the proofs: the legal states, a trace without mutex
  operations, and a body that appends such a trace with a given number of delivered SIGTRAPs.\<close>

definition legal :: "notification_info \<Rightarrow> bool" where
  "legal i = (\<not> (sent i \<and> pending_send i) \<and> \<not> (\<not> sent i \<and> received i))"

definition quiet :: "action list \<Rightarrow> bool" where
  "quiet tr = (\<forall>a\<in>set tr. a \<noteq> Acquire \<and> a \<noteq> Release)"

definition appends :: "notification_world \<Rightarrow> notification_world \<Rightarrow> nat \<Rightarrow> bool" where
  "appends w w' n = (mutex_locked w' = mutex_locked w \<and> (\<exists>tr. acts w' = acts w @ tr \<and> quiet tr \<and> delivered tr = n))"

section \<open>Properties of the notification channel\<close>

lemma info_act [simp]: "info (act a w) = info w"
  by (simp add: act_def)

lemma info_touch [simp]: "info (touch f w) = f (info w)"
  by (simp add: touch_def)

lemma mutex_locked_act [simp]: "mutex_locked (act a w) = mutex_locked w"
  by (simp add: act_def)

lemma mutex_locked_touch [simp]: "mutex_locked (touch f w) = mutex_locked w"
  by (simp add: touch_def)

lemma acts_touch [simp]: "acts (touch f w) = acts w @ [Access]"
  by (simp add: touch_def act_def)

lemma acts_act [simp]: "acts (act a w) = acts w @ [a]"
  by (simp add: act_def)

lemma info_iterate: "iterate_over_threads pf ts w = (r, w') \<Longrightarrow> info w' = info w"
  by (induction ts arbitrary: w) (auto simp: cuda_notification_notify_thread_def split: if_splits)

lemma iterate_Some: "iterate_over_threads pf ts w = (r, w') \<Longrightarrow> (r \<noteq> None) = list_ex (tkill_ok pf) ts"
  by (induction ts arbitrary: w) (auto simp: cuda_notification_notify_thread_def split: if_splits)

lemma info_send_first_valid:
  "\<exists>t. info (send_first_valid pf w) = info w \<or> info (send_first_valid pf w) = (info w)\<lparr>info_tid := t, sent := True\<rparr>"
proof (cases "iterate_over_threads pf (host_threads pf) w")
  case (Pair r w1)
  then have "info w1 = info w" by (rule info_iterate)
  with Pair show ?thesis by (cases r) (auto simp: send_first_valid_def)
qed

lemma info_send:
  "\<exists>t. info (cuda_notification_send pf d w) = info w \<or> info (cuda_notification_send pf d w) = (info w)\<lparr>info_tid := t, sent := True\<rparr>"
  using info_send_first_valid[of pf w] info_send_first_valid[of pf "act (Kill (cb_tid d) False) w"]
  by (auto simp: cuda_notification_send_def cuda_notification_notify_thread_def)

lemma lockedD:
  "locked body w = Inr w' \<Longrightarrow> initialized (info w) \<and>
     info w' = info (body (act Acquire ((act Access w)\<lparr>mutex_locked := True\<rparr>)))"
  by (auto simp: locked_def cuda_notification_acquire_lock_def cuda_notification_release_lock_def
      Let_def split: if_splits sum.splits)

lemma legal_send: "legal (info w) \<Longrightarrow> \<not> pending_send (info w) \<Longrightarrow> legal (info (cuda_notification_send pf d w))"
  using info_send[of pf d w] by (auto simp: legal_def)

lemma legal_notify_body: "legal (info v) \<Longrightarrow> legal (info (notify_body pf d v))"
  using legal_send[of "act Access v" pf d] legal_send[of "act Access (act Access (act Access v))" pf d]
  by (auto simp: notify_body_def Let_def legal_def)

lemma legal_accept_body: "legal (info v) \<Longrightarrow> legal (info (accept_body pf v))"
  using info_send[of pf "pending_send_data (info v)" "act Access (touch (\<lambda>i. i\<lparr>blocked := False\<rparr>) v)"]
  by (auto simp: accept_body_def Let_def legal_def)

lemma legal_run: "legal (info w) \<Longrightarrow> run c w = Inr w' \<Longrightarrow> legal (info w')"
proof (cases c)
  case (Notify pf d)
  assume "legal (info w)" "run c w = Inr w'"
  then show ?thesis
    using Notify legal_notify_body[of "act Acquire ((act Access w)\<lparr>mutex_locked := True\<rparr>)" pf d]
    by (auto simp: cuda_notification_notify_def dest!: lockedD)
next
  case (Accept pf)
  assume "legal (info w)" "run c w = Inr w'"
  then show ?thesis
    using Accept legal_accept_body[of "act Acquire ((act Access w)\<lparr>mutex_locked := True\<rparr>)" pf]
    by (auto simp: cuda_notification_accept_def dest!: lockedD)
qed (auto simp: legal_def cuda_notification_initialize_def zero_info_def cuda_notification_reset_def
    cuda_notification_block_def cuda_notification_analyze_def analyze_body_def Let_def
    cuda_notification_mark_consumed_def mark_consumed_body_def cuda_notification_consume_pending_def
    cuda_notification_reset_aliased_event_def cuda_notification_aliased_event_def
    cuda_notification_pending_def cuda_notification_received_def locked_read_def drop_result_def
    dest!: lockedD split: if_splits sum.splits)

text \<open>
  Claim C1. In every state reachable through the operations of the channel the flags never
  satisfy \<open>sent \<and> pending_send\<close> and never satisfy \<open>\<not> sent \<and> received\<close>.
\<close>

theorem notification_legal_state:
  "notification_reachable w \<Longrightarrow>
     \<not> (sent (info w) \<and> pending_send (info w)) \<and> \<not> (\<not> sent (info w) \<and> received (info w))"
proof (induction rule: notification_reachable.induct)
  case nr_static
  show ?case by (simp add: zero_world_def zero_info_def)
next
  case (nr_call w c w')
  then show ?case using legal_run[of w c w'] by (simp add: legal_def)
qed

lemma quiet_simps [simp]: "quiet []" "quiet (a # tr) = (a \<noteq> Acquire \<and> a \<noteq> Release \<and> quiet tr)"
  "quiet (tr @ tr') = (quiet tr \<and> quiet tr')"
  by (auto simp: quiet_def)

lemma kills_append [simp]: "kills (xs @ ys) = kills xs @ kills ys"
  by (induction xs rule: kills.induct) auto

lemma delivered_simps [simp]: "delivered [] = 0" "delivered (tr @ tr') = delivered tr + delivered tr'"
  "delivered [Access] = 0" "delivered [Acquire] = 0" "delivered [Release] = 0"
  "delivered [Kill t ok] = (if ok then 1 else 0)"
  by (auto simp: delivered_def)

lemma guarded_quiet: "quiet tr \<Longrightarrow> guarded True (tr @ [Access, Release])"
proof (induction tr)
  case Nil
  show ?case by simp
next
  case (Cons a tr)
  then show ?case by (cases a) simp_all
qed

lemma appends_refl: "appends w w 0"
  by (simp add: appends_def)

lemma appends_trans: "appends w w1 m \<Longrightarrow> appends w1 w2 n \<Longrightarrow> appends w w2 (m + n)"
  by (auto simp: appends_def)

lemma appends_act: "a \<noteq> Acquire \<Longrightarrow> a \<noteq> Release \<Longrightarrow> appends w (act a w) (delivered [a])"
  by (simp add: appends_def act_def)

lemma appends_touch: "appends w (touch f w) 0"
  by (simp add: appends_def act_def touch_def)

lemma appends_iterate:
  "iterate_over_threads pf ts w = (r, w') \<Longrightarrow> appends w w' (if list_ex (tkill_ok pf) ts then 1 else 0)"
proof (induction ts arbitrary: w)
  case Nil
  then show ?case by (simp add: appends_refl)
next
  case (Cons t ts)
  show ?case
  proof (cases "tkill_ok pf t")
    case True
    with Cons.prems show ?thesis
      using appends_act[of "Kill t True" w] by (auto simp: cuda_notification_notify_thread_def)
  next
    case False
    with Cons.prems have "iterate_over_threads pf ts (act (Kill t False) w) = (r, w')"
      by (simp add: cuda_notification_notify_thread_def)
    from Cons.IH[OF this] appends_act[of "Kill t False" w] False show ?thesis
      using appends_trans by fastforce
  qed
qed

lemma appends_send_first_valid:
  "appends w (send_first_valid pf w) (if list_ex (tkill_ok pf) (host_threads pf) then 1 else 0)"
proof (cases "iterate_over_threads pf (host_threads pf) w")
  case (Pair r w1)
  from appends_iterate[OF Pair] show ?thesis
    using Pair appends_trans[OF _ appends_trans[OF appends_touch appends_touch], of w w1]
    by (cases r) (auto simp: send_first_valid_def)
qed

lemma appends_send: "appends w (cuda_notification_send pf d w) (if deliverable pf d then 1 else 0)"
proof (cases "supports_tid pf \<and> cb_tid d \<noteq> 0")
  case False
  then show ?thesis using appends_send_first_valid[of w pf]
    by (auto simp: cuda_notification_send_def deliverable_def)
next
  case True
  show ?thesis
  proof (cases "tkill_ok pf (cb_tid d)")
    case ok: True
    have "appends w (touch (\<lambda>i. i\<lparr>sent := True\<rparr>) (touch (\<lambda>i. i\<lparr>info_tid := cb_tid d\<rparr>)
        (act (Kill (cb_tid d) True) w))) (1 + (0 + 0))"
      using appends_trans[OF appends_act appends_trans[OF appends_touch appends_touch], of "Kill (cb_tid d) True" w] by simp
    with True ok show ?thesis
      by (simp add: cuda_notification_send_def deliverable_def cuda_notification_notify_thread_def)
  next
    case no: False
    have "appends w (send_first_valid pf (act (Kill (cb_tid d) False) w)) (0 + (if list_ex (tkill_ok pf) (host_threads pf) then 1 else 0))"
      using appends_trans[OF appends_act appends_send_first_valid, of "Kill (cb_tid d) False" w] by simp
    with True no show ?thesis
      by (simp add: cuda_notification_send_def deliverable_def cuda_notification_notify_thread_def)
  qed
qed

lemma info_send_first_valid_eq:
  "\<exists>t. info (send_first_valid pf w) =
     (if list_ex (tkill_ok pf) (host_threads pf)
      then (info w)\<lparr>info_tid := t, sent := True\<rparr> else info w)"
proof (cases "iterate_over_threads pf (host_threads pf) w")
  case (Pair r w1)
  from info_iterate[OF Pair] iterate_Some[OF Pair] Pair show ?thesis
    by (cases r) (auto simp: send_first_valid_def)
qed

lemma info_send_eq:
  "\<exists>t. info (cuda_notification_send pf d w) =
     (if deliverable pf d then (info w)\<lparr>info_tid := t, sent := True\<rparr> else info w)"
proof (cases "supports_tid pf \<and> cb_tid d \<noteq> 0 \<and> tkill_ok pf (cb_tid d)")
  case True
  then show ?thesis
    by (auto simp: cuda_notification_send_def deliverable_def cuda_notification_notify_thread_def)
next
  case False
  show ?thesis
  proof (cases "supports_tid pf \<and> cb_tid d \<noteq> 0")
    case True
    with False info_send_first_valid_eq[of pf "act (Kill (cb_tid d) False) w"] show ?thesis
      by (auto simp: cuda_notification_send_def deliverable_def cuda_notification_notify_thread_def)
  next
    case no: False
    with info_send_first_valid_eq[of pf w] show ?thesis
      by (auto simp: cuda_notification_send_def deliverable_def)
  qed
qed

lemma locked_Inr:
  "initialized (info w) \<Longrightarrow> \<not> mutex_locked w \<Longrightarrow>
   initialized (info (body (act Acquire ((act Access w)\<lparr>mutex_locked := True\<rparr>)))) \<Longrightarrow>
   locked body w = Inr (act Release ((act Access (body (act Acquire
     ((act Access w)\<lparr>mutex_locked := True\<rparr>))))\<lparr>mutex_locked := False\<rparr>))"
  by (simp add: locked_def cuda_notification_acquire_lock_def cuda_notification_release_lock_def Let_def)

lemma locked_result:
  assumes "initialized (info w)" and "\<not> mutex_locked w"
    and "\<And>v. info v = info w \<Longrightarrow> initialized (info (body v))"
  shows "\<exists>v w'. locked body w = Inr w' \<and> info v = info w \<and> acts v = acts w @ [Access, Acquire] \<and>
           info w' = info (body v) \<and> acts w' = acts (body v) @ [Access, Release] \<and> \<not> mutex_locked w'"
proof -
  let ?v = "act Acquire ((act Access w)\<lparr>mutex_locked := True\<rparr>)"
  let ?w' = "act Release ((act Access (body ?v))\<lparr>mutex_locked := False\<rparr>)"
  have iv: "info ?v = info w" by simp
  have "locked body w = Inr ?w'"
    using assms(1,2) assms(3)[OF iv] by (rule locked_Inr)
  moreover have "acts ?v = acts w @ [Access, Acquire]" by (simp add: act_def)
  moreover have "info ?w' = info (body ?v)" by simp
  moreover have "acts ?w' = acts (body ?v) @ [Access, Release]"
    by (simp add: act_def)
  moreover have "\<not> mutex_locked ?w'" by simp
  ultimately show ?thesis using iv by blast
qed

lemma locked_trace:
  assumes "initialized (info w)" and "\<not> mutex_locked w"
    and "\<And>v. info v = info w \<Longrightarrow> initialized (info (body v))"
    and "\<And>v. appends v (body v) (n v)"
  shows "\<exists>w' tr. locked body w = Inr w' \<and> acts w' = acts w @ Access # Acquire # tr @ [Access, Release] \<and>
           quiet tr"
proof -
  from locked_result[of w body, OF assms(1,2,3)] obtain v w' where
    r: "locked body w = Inr w'" "acts v = acts w @ [Access, Acquire]"
       "acts w' = acts (body v) @ [Access, Release]" by blast
  from assms(4)[of v] obtain tr where "acts (body v) = acts v @ tr" "quiet tr"
    by (auto simp: appends_def)
  with r show ?thesis by auto
qed

lemma initialized_send [simp]:
  "initialized (info (cuda_notification_send pf d w)) = initialized (info w)"
  using info_send[of pf d w] by auto

lemma appends_accept_body: "appends v (accept_body pf v) (if pending_send (info v) then if deliverable pf (pending_send_data (info v)) then 1 else 0 else 0)"
proof (cases "pending_send (info v)")
  case False
  have "appends v (act Access (touch (\<lambda>i. i\<lparr>blocked := False\<rparr>) v)) (0 + delivered [Access])"
    by (rule appends_trans[OF appends_touch appends_act]) simp_all
  with False show ?thesis by (simp add: accept_body_def Let_def)
next
  case True
  let ?v1 = "act Access (touch (\<lambda>i. i\<lparr>blocked := False\<rparr>) v)"
  let ?d = "pending_send_data (info v)"
  let ?n = "if deliverable pf ?d then 1 else 0 :: nat"
  have 1: "appends v ?v1 (0 + delivered [Access])"
    by (rule appends_trans[OF appends_touch appends_act]) simp_all
  have "appends v (touch (\<lambda>i. i\<lparr>pending_send_data := zero_data\<rparr>)
          (touch (\<lambda>i. i\<lparr>pending_send := False\<rparr>) (cuda_notification_send pf ?d ?v1)))
          ((0 + delivered [Access]) + (?n + (0 + 0)))"
    by (rule appends_trans[OF 1 appends_trans[OF appends_send appends_trans[OF appends_touch appends_touch]]])
  with True show ?thesis by (simp add: accept_body_def Let_def)
qed

lemma appends_access: "appends v (act Access v) 0"
  using appends_act[of Access v] by simp

lemma appends_notify_body: "\<exists>n. appends v (notify_body pf d v) n"
proof -
  note a1 = appends_access[of v]
  note a2 = appends_trans[OF a1 appends_access]
  note a3 = appends_trans[OF a2 appends_access]
  have e: "\<exists>n. appends v (cuda_notification_send pf d (act Access v)) n"
    "\<exists>n. appends v (act Access v) n"
    "\<exists>n. appends v (touch (\<lambda>i. i\<lparr>aliased_event := True\<rparr>) (act Access v)) n"
    "\<exists>n. appends v (act Access (act Access v)) n"
    "\<exists>n. appends v (touch (\<lambda>i. i\<lparr>pending_send_data := d\<rparr>)
       (touch (\<lambda>i. i\<lparr>pending_send := True\<rparr>) (act Access (act Access (act Access v))))) n"
    "\<exists>n. appends v (cuda_notification_send pf d (act Access (act Access (act Access v)))) n"
    using appends_trans[OF a1 appends_send, of pf d] a1
      appends_trans[OF a1 appends_touch] a2
      appends_trans[OF a3 appends_trans[OF appends_touch appends_touch]]
      appends_trans[OF a3 appends_send, of pf d]
    by blast+
  show ?thesis
    unfolding notify_body_def Let_def by (simp add: e)
qed

lemma appends_analyze_body: "appends v (analyze_body t ws te v) 0"
  using appends_trans[OF appends_access appends_touch, of v] appends_access[of v]
  by (auto simp: analyze_body_def Let_def)

lemma appends_mark_consumed_body: "appends v (mark_consumed_body v) 0"
  using appends_trans[OF appends_access appends_trans[OF appends_touch appends_trans[OF appends_touch appends_touch]], of v]
    appends_access[of v]
  by (auto simp: mark_consumed_body_def Let_def)

lemma initialized_bodies [simp]:
  "initialized (info (accept_body pf v)) = initialized (info v)"
  "initialized (info (notify_body pf d v)) = initialized (info v)"
  "initialized (info (analyze_body t ws te v)) = initialized (info v)"
  "initialized (info (mark_consumed_body v)) = initialized (info v)"
  by (simp_all add: accept_body_def notify_body_def analyze_body_def mark_consumed_body_def Let_def)

lemma trace_of_Inr: "run c w = Inr w' \<Longrightarrow> acts w' = acts w @ tr \<Longrightarrow> trace_of c w = Inr tr"
  by (simp add: trace_of_def)

lemma locked_read_trace:
  assumes "initialized (info w)" and "\<not> mutex_locked w"
  shows "\<exists>w' tr. drop_result (locked_read f w) = Inr w' \<and>
           acts w' = acts w @ Access # Acquire # tr @ [Access, Release] \<and> quiet tr"
proof -
  have "initialized (info (act Access v))" if "info v = info w" for v
    using that assms(1) by simp
  from locked_trace[of w "act Access" "\<lambda>_. 0", OF assms this appends_access]
  show ?thesis by (auto simp: locked_read_def drop_result_def)
qed

lemma run_trace:
  assumes "takes_mutex c" and "initialized (info w)" and "\<not> mutex_locked w"
  shows "\<exists>w' tr. run c w = Inr w' \<and> acts w' = acts w @ Access # Acquire # tr @ [Access, Release] \<and> quiet tr"
proof (cases c)
  case (Notify pf d)
  obtain n where "\<And>v. appends v (notify_body pf d v) (n v)"
    using appends_notify_body[of _ pf d] by metis
  from locked_trace[of w "notify_body pf d" n, OF assms(2,3) _ this] assms(2) Notify show ?thesis
    by (simp add: cuda_notification_notify_def)
next
  case Block
  from locked_trace[of w "touch (\<lambda>i. i\<lparr>blocked := True\<rparr>)" "\<lambda>_. 0", OF assms(2,3)] assms(2) Block
  show ?thesis by (simp add: cuda_notification_block_def appends_touch)
next
  case (Accept pf)
  from locked_trace[of w "accept_body pf", OF assms(2,3) _ appends_accept_body] assms(2) Accept
  show ?thesis by (simp add: cuda_notification_accept_def)
next
  case (Analyze t ws te)
  from locked_trace[of w "analyze_body t ws te", OF assms(2,3) _ appends_analyze_body] assms(2) Analyze
  show ?thesis by (simp add: cuda_notification_analyze_def)
next
  case Mark_consumed
  from locked_trace[of w mark_consumed_body, OF assms(2,3) _ appends_mark_consumed_body] assms(2) Mark_consumed
  show ?thesis by (simp add: cuda_notification_mark_consumed_def)
next
  case Reset_aliased_event
  from locked_trace[of w "touch (\<lambda>i. i\<lparr>aliased_event := False\<rparr>)" "\<lambda>_. 0", OF assms(2,3)] assms(2)
    Reset_aliased_event
  show ?thesis by (simp add: cuda_notification_reset_aliased_event_def appends_touch)
next
  case Aliased_event
  with locked_read_trace[OF assms(2,3), of aliased_event] show ?thesis
    by (simp add: cuda_notification_aliased_event_def)
next
  case Pending
  with locked_read_trace[OF assms(2,3), of "\<lambda>i. sent i \<and> \<not> received i"] show ?thesis
    by (simp add: cuda_notification_pending_def)
next
  case Received
  with locked_read_trace[OF assms(2,3), of received] show ?thesis
    by (simp add: cuda_notification_received_def)
qed (use assms in auto)

text \<open>
  Claim C9. The code does not do what the claim says. On an initialized channel whose
  mutex is free:
  \<^item> \<^verbatim>\<open>cuda_notification_consume_pending\<close> returns after one store to the record and
    no call of the mutex;
  \<^item> \<^verbatim>\<open>cuda_notification_reset\<close> returns after the read of its assertion and five
    stores, and no call of the mutex;
  \<^item> every other operation except \<^verbatim>\<open>cuda_notification_initialize\<close> (which creates the
    mutex) returns, and what it appends to the trace is the read of
    \<^verbatim>\<open>initialized\<close> by the assertion of \<^verbatim>\<open>cuda_notification_acquire_lock\<close>, then
    \<open>Acquire\<close>, a body without a call of the mutex, the read of the assertion of
    \<^verbatim>\<open>cuda_notification_release_lock\<close>, and \<open>Release\<close>: every access but the first is
    made with the mutex held, and the first is not.
\<close>

theorem notification_accesses_outside_mutex:
  assumes "initialized (info w)" and "\<not> mutex_locked w"
  shows "trace_of Consume_pending w = Inr [Access] \<and> \<not> guarded False [Access] \<and>
         trace_of Reset w = Inr [Access, Access, Access, Access, Access, Access] \<and>
         \<not> guarded False [Access, Access, Access, Access, Access, Access] \<and>
         (takes_mutex c \<longrightarrow>
            (\<exists>body. trace_of c w = Inr (Access # Acquire # body @ [Access, Release]) \<and>
               quiet body \<and> guarded False (Acquire # body @ [Access, Release]) \<and>
               \<not> guarded False (Access # Acquire # body @ [Access, Release])))"
proof -
  have 1: "trace_of Consume_pending w = Inr [Access]"
    by (simp add: trace_of_def cuda_notification_consume_pending_def)
  have 2: "trace_of Reset w = Inr [Access, Access, Access, Access, Access, Access]"
    using assms(1) by (simp add: trace_of_def cuda_notification_reset_def Let_def)
  have 3: "\<exists>body. trace_of c w = Inr (Access # Acquire # body @ [Access, Release]) \<and>
               quiet body \<and> guarded False (Acquire # body @ [Access, Release]) \<and>
               \<not> guarded False (Access # Acquire # body @ [Access, Release])" if "takes_mutex c"
  proof -
    from run_trace[OF that assms] obtain w' tr where
      r: "run c w = Inr w'" "acts w' = acts w @ Access # Acquire # tr @ [Access, Release]" "quiet tr"
      by blast
    from trace_of_Inr[OF r(1,2)] r(3) guarded_quiet[OF r(3)] show ?thesis by auto
  qed
  from 1 2 3 show ?thesis by simp
qed

theorem notification_accesses_outside_mutex_witness:
  "initialized (info started_world) \<and> \<not> mutex_locked started_world \<and>
   trace_of Consume_pending started_world = Inr [Access] \<and>
   trace_of Reset started_world = Inr [Access, Access, Access, Access, Access, Access] \<and>
   takes_mutex Block \<and>
   trace_of Block started_world = Inr [Access, Acquire, Access, Access, Release] \<and>
   guarded False [Acquire, Access, Access, Release] \<and>
   \<not> guarded False [Access, Acquire, Access, Access, Release]"
proof -
  have h: "initialized (info started_world)" "\<not> mutex_locked started_world"
    by (simp_all add: started_world_def cuda_notification_initialize_def zero_world_def zero_info_def)
  have t: "trace_of Block started_world = Inr [Access, Acquire, Access, Access, Release]"
    by (simp add: trace_of_def started_world_def cuda_notification_initialize_def zero_world_def
        zero_info_def cuda_notification_block_def locked_def cuda_notification_acquire_lock_def
        cuda_notification_release_lock_def touch_def act_def Let_def)
  from notification_accesses_outside_mutex[OF h, of Block] h t show ?thesis by simp
qed

lemma reachable_run_all:
  "notification_reachable w \<Longrightarrow> run_all cs w = Inr w' \<Longrightarrow> notification_reachable w'"
proof (induction cs arbitrary: w)
  case Nil
  then show ?case by simp
next
  case (Cons c cs)
  then show ?case
    by (cases "run c w") (auto intro: nr_call)
qed

lemmas notification_defs = cuda_notification_initialize_def zero_world_def
        zero_info_def cuda_notification_block_def locked_def cuda_notification_acquire_lock_def
        cuda_notification_release_lock_def touch_def act_def cuda_notification_notify_def
        notify_body_def cuda_notification_accept_def accept_body_def cuda_notification_send_def
        send_first_valid_def cuda_notification_notify_thread_def Let_def

lemma scenario_eval:
  "map_sum id info (run_all [Initialize, Block, Notify platform_7 payload_7, Accept platform_7] zero_world) =
     Inr \<lparr>initialized = True, blocked = False, pending_send = False,
             aliased_event = False, sent = True, received = False, info_tid = 7,
             pending_send_data = zero_data\<rparr>"
  by (simp add: notification_defs platform_7_def payload_7_def)

theorem notification_legal_state_witness:
  "\<exists>w. run_all [Initialize, Block, Notify platform_7 payload_7, Accept platform_7] zero_world = Inr w \<and>
       notification_reachable w \<and> sent (info w) \<and> \<not> received (info w) \<and>
       \<not> (sent (info w) \<and> pending_send (info w)) \<and> \<not> (\<not> sent (info w) \<and> received (info w))"
proof -
  obtain w where w: "run_all [Initialize, Block, Notify platform_7 payload_7, Accept platform_7] zero_world = Inr w"
    and s: "sent (info w)" "\<not> received (info w)"
    using scenario_eval
    by (cases "run_all [Initialize, Block, Notify platform_7 payload_7, Accept platform_7] zero_world") auto
  have r: "notification_reachable w"
    using reachable_run_all[OF nr_static w] .
  from notification_legal_state[OF r] w r s show ?thesis by blast
qed

text \<open>The trace of a send does not depend on the world it starts from.\<close>

lemma iterate_trace:
  "acts (snd (iterate_over_threads pf ts w)) = acts w @ acts (snd (iterate_over_threads pf ts zero_world)) \<and>
   fst (iterate_over_threads pf ts w) = fst (iterate_over_threads pf ts zero_world)"
proof (induction ts arbitrary: w)
  case Nil
  show ?case by (simp add: zero_world_def)
next
  case (Cons t ts)
  show ?case
    using Cons.IH[of "act (Kill t False) w"] Cons.IH[of "act (Kill t False) zero_world"]
    by (simp add: cuda_notification_notify_thread_def act_def zero_world_def)
qed

lemma send_first_valid_trace:
  "acts (send_first_valid pf w) = acts w @ acts (send_first_valid pf zero_world)"
  using iterate_trace[of pf "host_threads pf" w]
  by (cases "iterate_over_threads pf (host_threads pf) w"; cases "iterate_over_threads pf (host_threads pf) zero_world")
     (auto simp: send_first_valid_def touch_def act_def split: option.splits)

lemma send_trace:
  "acts (cuda_notification_send pf d w) = acts w @ acts (cuda_notification_send pf d zero_world)"
  using send_first_valid_trace[of pf w] send_first_valid_trace[of pf "act (Kill (cb_tid d) False) w"]
    send_first_valid_trace[of pf "act (Kill (cb_tid d) False) zero_world"]
  by (auto simp: cuda_notification_send_def cuda_notification_notify_thread_def touch_def act_def zero_world_def)

lemma delivered_send: "delivered (acts (cuda_notification_send pf d zero_world)) = (if deliverable pf d then 1 else 0)"
  using appends_send[of zero_world pf d] by (auto simp: appends_def zero_world_def)

lemma block_result:
  assumes "initialized (info w)" and "\<not> mutex_locked w"
  shows "\<exists>w1. cuda_notification_block w = Inr w1 \<and> info w1 = (info w)\<lparr>blocked := True\<rparr> \<and>
           acts w1 = acts w @ [Access, Acquire, Access, Access, Release] \<and> \<not> mutex_locked w1"
  using locked_result[of w "touch (\<lambda>i. i\<lparr>blocked := True\<rparr>)", OF assms] assms(1)
  by (auto simp: cuda_notification_block_def)

lemma notify_blocked_result:
  assumes "initialized (info w)" and "\<not> mutex_locked w"
    and "\<not> sent (info w)" and "\<not> pending_send (info w)" and "blocked (info w)" and "cb_timeout d = 0"
  shows "\<exists>w2. cuda_notification_notify pf d w = Inr w2 \<and>
           info w2 = (info w)\<lparr>pending_send := True, pending_send_data := d\<rparr> \<and>
           acts w2 = acts w @ [Access, Acquire, Access, Access, Access, Access, Access, Access, Release] \<and>
           \<not> mutex_locked w2"
proof -
  have nb: "notify_body pf d v = touch (\<lambda>i. i\<lparr>pending_send_data := d\<rparr>)
      (touch (\<lambda>i. i\<lparr>pending_send := True\<rparr>) (act Access (act Access (act Access v))))"
    if "info v = info w" for v
    using that assms by (simp add: notify_body_def Let_def)
  have "initialized (info (notify_body pf d v))" if "info v = info w" for v
    using that assms(1) by (simp add: nb)
  from locked_result[of w "notify_body pf d", OF assms(1,2) this]
  show ?thesis unfolding cuda_notification_notify_def by (auto simp: nb)
qed

lemma accept_pending_result:
  assumes "initialized (info w)" and "\<not> mutex_locked w"
    and "\<not> sent (info w)" and "pending_send (info w)"
  shows "\<exists>w3. cuda_notification_accept pf w = Inr w3 \<and>
           \<not> blocked (info w3) \<and> \<not> pending_send (info w3) \<and>
           sent (info w3) = deliverable pf (pending_send_data (info w)) \<and>
           acts w3 = acts w @ [Access, Acquire, Access, Access] @
                     acts (cuda_notification_send pf (pending_send_data (info w)) zero_world) @
                     [Access, Access, Access, Release]"
proof -
  let ?d = "pending_send_data (info w)"
  have ab: "accept_body pf v = touch (\<lambda>i. i\<lparr>pending_send_data := zero_data\<rparr>)
       (touch (\<lambda>i. i\<lparr>pending_send := False\<rparr>)
         (cuda_notification_send pf ?d (act Access (touch (\<lambda>i. i\<lparr>blocked := False\<rparr>) v))))"
    if "info v = info w" for v
    using that assms(4) by (simp add: accept_body_def Let_def)
  have init: "initialized (info (accept_body pf v))" if "info v = info w" for v
    using that assms(1) by simp
  from locked_result[of w "accept_body pf", OF assms(1,2) init]
  obtain v w3 where r: "cuda_notification_accept pf w = Inr w3" "info v = info w"
      "acts v = acts w @ [Access, Acquire]" "info w3 = info (accept_body pf v)"
      "acts w3 = acts (accept_body pf v) @ [Access, Release]"
    unfolding cuda_notification_accept_def by blast
  let ?u = "act Access (touch (\<lambda>i. i\<lparr>blocked := False\<rparr>) v)"
  have iu: "info ?u = (info w)\<lparr>blocked := False\<rparr>" using r(2) by simp
  have i3: "info w3 = (info (cuda_notification_send pf ?d ?u))\<lparr>pending_send := False, pending_send_data := zero_data\<rparr>"
    using r(4) ab[OF r(2)] by simp
  obtain t where si: "info (cuda_notification_send pf ?d ?u) =
      (if deliverable pf ?d then (info ?u)\<lparr>info_tid := t, sent := True\<rparr> else info ?u)"
    using info_send_eq[of pf ?d ?u] by blast
  have "\<not> blocked (info w3)" "\<not> pending_send (info w3)" "sent (info w3) = deliverable pf ?d"
    unfolding i3 si using iu assms(3) by (cases "deliverable pf ?d"; simp)+
  moreover have "acts w3 = acts w @ [Access, Acquire, Access, Access] @
      acts (cuda_notification_send pf ?d zero_world) @ [Access, Access, Access, Release]"
    using r(5) r(3) ab[OF r(2)] send_trace[of pf ?d ?u] by simp
  ultimately show ?thesis using r(1) by blast
qed

text \<open>
  Claim C7, as amended. After \<^verbatim>\<open>block ()\<close>, a \<^verbatim>\<open>notify\<close> whose payload is not a
  timeout and that finds nothing sent and nothing pending issues no signal: the payload is
  buffered and \<^verbatim>\<open>pending_send\<close> is set. The next \<^verbatim>\<open>accept ()\<close> clears
  \<^verbatim>\<open>blocked\<close>, runs \<^verbatim>\<open>cuda_notification_send\<close> once on the buffered payload (its
  signals are those of one send, of which one is delivered when a thread can be reached
  and none otherwise), sets \<^verbatim>\<open>sent\<close> exactly when a signal was delivered, and clears
  \<^verbatim>\<open>pending_send\<close>.
\<close>

theorem blocked_notify_then_accept:
  assumes "initialized (info w)" and "\<not> mutex_locked w"
    and "\<not> sent (info w)" and "\<not> pending_send (info w)" and "cb_timeout d = 0"
  shows "\<exists>w1 w2 w3.
     cuda_notification_block w = Inr w1 \<and> blocked (info w1) \<and>
     cuda_notification_notify pf d w1 = Inr w2 \<and>
     kills (acts w2) = kills (acts w) \<and>
     pending_send (info w2) \<and> pending_send_data (info w2) = d \<and> \<not> sent (info w2) \<and>
     cuda_notification_accept pf' w2 = Inr w3 \<and>
     \<not> blocked (info w3) \<and> \<not> pending_send (info w3) \<and>
     kills (acts w3) = kills (acts w2) @ kills (acts (cuda_notification_send pf' d zero_world)) \<and>
     delivered (acts w3) = delivered (acts w2) + (if deliverable pf' d then 1 else 0) \<and>
     sent (info w3) = deliverable pf' d"
proof -
  from block_result[OF assms(1,2)] obtain w1 where
    w1: "cuda_notification_block w = Inr w1" "info w1 = (info w)\<lparr>blocked := True\<rparr>"
      "acts w1 = acts w @ [Access, Acquire, Access, Access, Release]" "\<not> mutex_locked w1"
    by blast
  have p1: "initialized (info w1)" "\<not> sent (info w1)" "\<not> pending_send (info w1)" "blocked (info w1)"
    using w1(2) assms by simp_all
  from notify_blocked_result[OF p1(1) w1(4) p1(2,3,4) assms(5), of pf] obtain w2 where
    w2: "cuda_notification_notify pf d w1 = Inr w2"
      "info w2 = (info w1)\<lparr>pending_send := True, pending_send_data := d\<rparr>"
      "acts w2 = acts w1 @ [Access, Acquire, Access, Access, Access, Access, Access, Access, Release]"
      "\<not> mutex_locked w2"
    by blast
  have p2: "initialized (info w2)" "\<not> sent (info w2)" "pending_send (info w2)" "pending_send_data (info w2) = d"
    using w2(2) p1 by simp_all
  from accept_pending_result[OF p2(1) w2(4) p2(2,3), of pf'] obtain w3 where
    w3: "cuda_notification_accept pf' w2 = Inr w3" "\<not> blocked (info w3)" "\<not> pending_send (info w3)"
      "sent (info w3) = deliverable pf' d"
      "acts w3 = acts w2 @ [Access, Acquire, Access, Access] @ acts (cuda_notification_send pf' d zero_world) @
         [Access, Access, Access, Release]"
    unfolding p2(4) by blast
  have k2: "kills (acts w2) = kills (acts w)"
    by (simp add: w2(3) w1(3))
  have k3: "kills (acts w3) = kills (acts w2) @ kills (acts (cuda_notification_send pf' d zero_world))"
    by (simp add: w3(5))
  have d3: "delivered (acts w3) = delivered (acts w2) + (if deliverable pf' d then 1 else 0)"
    unfolding k3 delivered_def using delivered_send[of pf' d] by (simp add: delivered_def)
  from w1(1) p1(4) w2(1) k2 p2(3,4,2) w3(1,2,3) k3 d3 w3(4) show ?thesis by blast
qed

theorem blocked_notify_then_accept_witness:
  "initialized (info started_world) \<and> \<not> mutex_locked started_world \<and>
   \<not> sent (info started_world) \<and> \<not> pending_send (info started_world) \<and>
   cb_timeout payload_7 = 0 \<and>
   (\<exists>w1 w2 w3.
      cuda_notification_block started_world = Inr w1 \<and>
      cuda_notification_notify platform_7 payload_7 w1 = Inr w2 \<and>
      kills (acts w2) = [] \<and> pending_send (info w2) \<and> pending_send_data (info w2) = payload_7 \<and>
      cuda_notification_accept platform_7 w2 = Inr w3 \<and>
      \<not> blocked (info w3) \<and> \<not> pending_send (info w3) \<and>
      kills (acts w3) = [(7, True)] \<and> sent (info w3))"
proof -
  have h: "initialized (info started_world)" "\<not> mutex_locked started_world"
    "\<not> sent (info started_world)" "\<not> pending_send (info started_world)" "cb_timeout payload_7 = 0"
    by (simp_all add: started_world_def notification_defs payload_7_def)
  have k: "kills (acts started_world) = []"
    by (simp add: started_world_def notification_defs)
  have s: "kills (acts (cuda_notification_send platform_7 payload_7 zero_world)) = [(7, True)]"
    by (simp add: notification_defs platform_7_def payload_7_def)
  have d: "deliverable platform_7 payload_7"
    by (simp add: deliverable_def platform_7_def payload_7_def)
  from blocked_notify_then_accept[OF h, of platform_7 platform_7] h k s d show ?thesis
    by (auto simp del: kills.simps)
qed

text \<open>
  Claim C7 as stated fails twice: a payload flagged as a timeout is not buffered when
  nothing has been sent, and \<^verbatim>\<open>accept ()\<close> leaves \<^verbatim>\<open>sent\<close> clear when no host
  thread can be signalled.
\<close>

theorem blocked_notify_then_accept_counterexample:
  "map_sum id (pending_send \<circ> info)
     (run_all [Initialize, Block, Notify platform_7 payload_7_timeout] zero_world) = Inr False \<and>
   map_sum id (sent \<circ> info)
     (run_all [Initialize, Block, Notify platform_deaf payload_7, Accept platform_deaf] zero_world) = Inr False"
  by (simp add: notification_defs platform_7_def platform_deaf_def payload_7_def payload_7_timeout_def)

section \<open>Properties of the state mirror\<close>

subsection \<open>Reading after writing\<close>

lemma fold_of [simp]:
  "sys_dev (cuda_system_info m) d = dev_of m d"
  "dev_sm (dev_of m d) s = sm_of m d s"
  "sm_wp (sm_of m d s) w = wp_of m d s w"
  "wp_ln (wp_of m d s w) l = ln_of m d s w l"
  by (simp_all add: dev_of_def sm_of_def wp_of_def ln_of_def)

lemmas of_defs = dev_of_def sm_of_def wp_of_def ln_of_def
lemmas upd_defs = upd_sys_def upd_dev_def upd_sm_def upd_wp_def upd_ln_def do_effect_def

lemma effects_upd [simp]:
  "effects (upd_sys g m) = effects m"
  "effects (upd_dev d fd m) = effects m"
  "effects (upd_sm d s fs m) = effects m"
  "effects (upd_wp d s w fw m) = effects m"
  "effects (upd_ln d s w l fl m) = effects m"
  "effects (do_effect a m) = effects m @ [a]"
  by (simp_all add: upd_defs)

lemma of_do_effect [simp]:
  "cuda_system_info (do_effect a m) = cuda_system_info m"
  "dev_of (do_effect a m) d = dev_of m d"
  "sm_of (do_effect a m) d s = sm_of m d s"
  "wp_of (do_effect a m) d s w = wp_of m d s w"
  "ln_of (do_effect a m) d s w l = ln_of m d s w l"
  by (simp_all add: of_defs do_effect_def del: fold_of)

lemma of_upd_sys [simp]:
  "cuda_system_info (upd_sys g m) = g (cuda_system_info m)"
  "dev_of (upd_sys g m) d = sys_dev (g (cuda_system_info m)) d"
  "sm_of (upd_sys g m) d s = dev_sm (sys_dev (g (cuda_system_info m)) d) s"
  "wp_of (upd_sys g m) d s w = sm_wp (dev_sm (sys_dev (g (cuda_system_info m)) d) s) w"
  "ln_of (upd_sys g m) d s w l = wp_ln (sm_wp (dev_sm (sys_dev (g (cuda_system_info m)) d) s) w) l"
  by (simp_all add: of_defs upd_sys_def del: fold_of)

lemma of_upd_dev [simp]:
  "dev_of (upd_dev d' fd m) d = (if d = d' then fd (dev_of m d) else dev_of m d)"
  "sm_of (upd_dev d' fd m) d s = (if d = d' then dev_sm (fd (dev_of m d)) s else sm_of m d s)"
  "wp_of (upd_dev d' fd m) d s w = (if d = d' then sm_wp (dev_sm (fd (dev_of m d)) s) w else wp_of m d s w)"
  "ln_of (upd_dev d' fd m) d s w l = (if d = d' then wp_ln (sm_wp (dev_sm (fd (dev_of m d)) s) w) l else ln_of m d s w l)"
  by (simp_all add: of_defs upd_defs del: fold_of)

lemma of_upd_sm [simp]:
  "sm_of (upd_sm d' s' fs m) d s = (if d = d' \<and> s = s' then fs (sm_of m d s) else sm_of m d s)"
  "wp_of (upd_sm d' s' fs m) d s w = (if d = d' \<and> s = s' then sm_wp (fs (sm_of m d s)) w else wp_of m d s w)"
  "ln_of (upd_sm d' s' fs m) d s w l = (if d = d' \<and> s = s' then wp_ln (sm_wp (fs (sm_of m d s)) w) l else ln_of m d s w l)"
  by (simp_all add: of_defs upd_defs del: fold_of)

lemma of_upd_wp [simp]:
  "wp_of (upd_wp d' s' w' fw m) d s w = (if d = d' \<and> s = s' \<and> w = w' then fw (wp_of m d s w) else wp_of m d s w)"
  "ln_of (upd_wp d' s' w' fw m) d s w l = (if d = d' \<and> s = s' \<and> w = w' then wp_ln (fw (wp_of m d s w)) l else ln_of m d s w l)"
  by (simp_all add: of_defs upd_defs del: fold_of)

lemma of_upd_ln [simp]:
  "ln_of (upd_ln d' s' w' l' fl m) d s w l = (if d = d' \<and> s = s' \<and> w = w' \<and> l = l' then fl (ln_of m d s w l) else ln_of m d s w l)"
  by (simp_all add: of_defs upd_defs del: fold_of)

lemma sys_scalars_upd [simp]:
  "sys_num_devices_p (cuda_system_info (upd_dev d' fd m)) = sys_num_devices_p (cuda_system_info m)"
  "sys_num_devices (cuda_system_info (upd_dev d' fd m)) = sys_num_devices (cuda_system_info m)"
  "sys_suspended_devices_mask (cuda_system_info (upd_dev d' fd m)) = sys_suspended_devices_mask (cuda_system_info m)"
  "sys_num_devices_p (cuda_system_info (upd_sm d' s' fs m)) = sys_num_devices_p (cuda_system_info m)"
  "sys_num_devices (cuda_system_info (upd_sm d' s' fs m)) = sys_num_devices (cuda_system_info m)"
  "sys_suspended_devices_mask (cuda_system_info (upd_sm d' s' fs m)) = sys_suspended_devices_mask (cuda_system_info m)"
  "sys_num_devices_p (cuda_system_info (upd_wp d' s' w' fw m)) = sys_num_devices_p (cuda_system_info m)"
  "sys_num_devices (cuda_system_info (upd_wp d' s' w' fw m)) = sys_num_devices (cuda_system_info m)"
  "sys_suspended_devices_mask (cuda_system_info (upd_wp d' s' w' fw m)) = sys_suspended_devices_mask (cuda_system_info m)"
  "sys_num_devices_p (cuda_system_info (upd_ln d' s' w' l' fl m)) = sys_num_devices_p (cuda_system_info m)"
  "sys_num_devices (cuda_system_info (upd_ln d' s' w' l' fl m)) = sys_num_devices (cuda_system_info m)"
  "sys_suspended_devices_mask (cuda_system_info (upd_ln d' s' w' l' fl m)) = sys_suspended_devices_mask (cuda_system_info m)"
  by (simp_all add: of_defs upd_defs del: fold_of)

lemma dev_scalars_upd [simp]:
  "dev_valid_p (dev_of (upd_sm d' s' fs m) d) = dev_valid_p (dev_of m d)"
  "dev_num_sms_p (dev_of (upd_sm d' s' fs m) d) = dev_num_sms_p (dev_of m d)"
  "dev_num_warps_p (dev_of (upd_sm d' s' fs m) d) = dev_num_warps_p (dev_of m d)"
  "dev_num_lanes_p (dev_of (upd_sm d' s' fs m) d) = dev_num_lanes_p (dev_of m d)"
  "dev_num_registers_p (dev_of (upd_sm d' s' fs m) d) = dev_num_registers_p (dev_of m d)"
  "dev_dev_type_p (dev_of (upd_sm d' s' fs m) d) = dev_dev_type_p (dev_of m d)"
  "dev_sm_type_p (dev_of (upd_sm d' s' fs m) d) = dev_sm_type_p (dev_of m d)"
  "dev_filter_exception_state_p (dev_of (upd_sm d' s' fs m) d) = dev_filter_exception_state_p (dev_of m d)"
  "dev_valid (dev_of (upd_sm d' s' fs m) d) = dev_valid (dev_of m d)"
  "dev_suspended (dev_of (upd_sm d' s' fs m) d) = dev_suspended (dev_of m d)"
  "dev_dev_type (dev_of (upd_sm d' s' fs m) d) = dev_dev_type (dev_of m d)"
  "dev_sm_type (dev_of (upd_sm d' s' fs m) d) = dev_sm_type (dev_of m d)"
  "dev_num_sms (dev_of (upd_sm d' s' fs m) d) = dev_num_sms (dev_of m d)"
  "dev_num_warps (dev_of (upd_sm d' s' fs m) d) = dev_num_warps (dev_of m d)"
  "dev_num_lanes (dev_of (upd_sm d' s' fs m) d) = dev_num_lanes (dev_of m d)"
  "dev_num_registers (dev_of (upd_sm d' s' fs m) d) = dev_num_registers (dev_of m d)"
  "dev_contexts (dev_of (upd_sm d' s' fs m) d) = dev_contexts (dev_of m d)"
  "dev_valid_p (dev_of (upd_wp d' s' w' fw m) d) = dev_valid_p (dev_of m d)"
  "dev_num_sms_p (dev_of (upd_wp d' s' w' fw m) d) = dev_num_sms_p (dev_of m d)"
  "dev_num_warps_p (dev_of (upd_wp d' s' w' fw m) d) = dev_num_warps_p (dev_of m d)"
  "dev_num_lanes_p (dev_of (upd_wp d' s' w' fw m) d) = dev_num_lanes_p (dev_of m d)"
  "dev_num_registers_p (dev_of (upd_wp d' s' w' fw m) d) = dev_num_registers_p (dev_of m d)"
  "dev_dev_type_p (dev_of (upd_wp d' s' w' fw m) d) = dev_dev_type_p (dev_of m d)"
  "dev_sm_type_p (dev_of (upd_wp d' s' w' fw m) d) = dev_sm_type_p (dev_of m d)"
  "dev_filter_exception_state_p (dev_of (upd_wp d' s' w' fw m) d) = dev_filter_exception_state_p (dev_of m d)"
  "dev_valid (dev_of (upd_wp d' s' w' fw m) d) = dev_valid (dev_of m d)"
  "dev_suspended (dev_of (upd_wp d' s' w' fw m) d) = dev_suspended (dev_of m d)"
  "dev_dev_type (dev_of (upd_wp d' s' w' fw m) d) = dev_dev_type (dev_of m d)"
  "dev_sm_type (dev_of (upd_wp d' s' w' fw m) d) = dev_sm_type (dev_of m d)"
  "dev_num_sms (dev_of (upd_wp d' s' w' fw m) d) = dev_num_sms (dev_of m d)"
  "dev_num_warps (dev_of (upd_wp d' s' w' fw m) d) = dev_num_warps (dev_of m d)"
  "dev_num_lanes (dev_of (upd_wp d' s' w' fw m) d) = dev_num_lanes (dev_of m d)"
  "dev_num_registers (dev_of (upd_wp d' s' w' fw m) d) = dev_num_registers (dev_of m d)"
  "dev_contexts (dev_of (upd_wp d' s' w' fw m) d) = dev_contexts (dev_of m d)"
  "dev_valid_p (dev_of (upd_ln d' s' w' l' fl m) d) = dev_valid_p (dev_of m d)"
  "dev_num_sms_p (dev_of (upd_ln d' s' w' l' fl m) d) = dev_num_sms_p (dev_of m d)"
  "dev_num_warps_p (dev_of (upd_ln d' s' w' l' fl m) d) = dev_num_warps_p (dev_of m d)"
  "dev_num_lanes_p (dev_of (upd_ln d' s' w' l' fl m) d) = dev_num_lanes_p (dev_of m d)"
  "dev_num_registers_p (dev_of (upd_ln d' s' w' l' fl m) d) = dev_num_registers_p (dev_of m d)"
  "dev_dev_type_p (dev_of (upd_ln d' s' w' l' fl m) d) = dev_dev_type_p (dev_of m d)"
  "dev_sm_type_p (dev_of (upd_ln d' s' w' l' fl m) d) = dev_sm_type_p (dev_of m d)"
  "dev_filter_exception_state_p (dev_of (upd_ln d' s' w' l' fl m) d) = dev_filter_exception_state_p (dev_of m d)"
  "dev_valid (dev_of (upd_ln d' s' w' l' fl m) d) = dev_valid (dev_of m d)"
  "dev_suspended (dev_of (upd_ln d' s' w' l' fl m) d) = dev_suspended (dev_of m d)"
  "dev_dev_type (dev_of (upd_ln d' s' w' l' fl m) d) = dev_dev_type (dev_of m d)"
  "dev_sm_type (dev_of (upd_ln d' s' w' l' fl m) d) = dev_sm_type (dev_of m d)"
  "dev_num_sms (dev_of (upd_ln d' s' w' l' fl m) d) = dev_num_sms (dev_of m d)"
  "dev_num_warps (dev_of (upd_ln d' s' w' l' fl m) d) = dev_num_warps (dev_of m d)"
  "dev_num_lanes (dev_of (upd_ln d' s' w' l' fl m) d) = dev_num_lanes (dev_of m d)"
  "dev_num_registers (dev_of (upd_ln d' s' w' l' fl m) d) = dev_num_registers (dev_of m d)"
  "dev_contexts (dev_of (upd_ln d' s' w' l' fl m) d) = dev_contexts (dev_of m d)"
  by (simp_all add: of_defs upd_defs del: fold_of)

lemma sm_scalars_upd [simp]:
  "sm_valid_warps_mask_p (sm_of (upd_wp d' s' w' fw m) d s) = sm_valid_warps_mask_p (sm_of m d s)"
  "sm_broken_warps_mask_p (sm_of (upd_wp d' s' w' fw m) d s) = sm_broken_warps_mask_p (sm_of m d s)"
  "sm_valid_warps_mask (sm_of (upd_wp d' s' w' fw m) d s) = sm_valid_warps_mask (sm_of m d s)"
  "sm_broken_warps_mask (sm_of (upd_wp d' s' w' fw m) d s) = sm_broken_warps_mask (sm_of m d s)"
  "sm_valid_warps_mask_p (sm_of (upd_ln d' s' w' l' fl m) d s) = sm_valid_warps_mask_p (sm_of m d s)"
  "sm_broken_warps_mask_p (sm_of (upd_ln d' s' w' l' fl m) d s) = sm_broken_warps_mask_p (sm_of m d s)"
  "sm_valid_warps_mask (sm_of (upd_ln d' s' w' l' fl m) d s) = sm_valid_warps_mask (sm_of m d s)"
  "sm_broken_warps_mask (sm_of (upd_ln d' s' w' l' fl m) d s) = sm_broken_warps_mask (sm_of m d s)"
  by (simp_all add: of_defs upd_defs del: fold_of)

lemma wp_scalars_upd [simp]:
  "wp_valid_p (wp_of (upd_ln d' s' w' l' fl m) d s w) = wp_valid_p (wp_of m d s w)"
  "wp_broken_p (wp_of (upd_ln d' s' w' l' fl m) d s w) = wp_broken_p (wp_of m d s w)"
  "wp_block_idx_p (wp_of (upd_ln d' s' w' l' fl m) d s w) = wp_block_idx_p (wp_of m d s w)"
  "wp_kernel_p (wp_of (upd_ln d' s' w' l' fl m) d s w) = wp_kernel_p (wp_of m d s w)"
  "wp_grid_id_p (wp_of (upd_ln d' s' w' l' fl m) d s w) = wp_grid_id_p (wp_of m d s w)"
  "wp_valid_lanes_mask_p (wp_of (upd_ln d' s' w' l' fl m) d s w) = wp_valid_lanes_mask_p (wp_of m d s w)"
  "wp_active_lanes_mask_p (wp_of (upd_ln d' s' w' l' fl m) d s w) = wp_active_lanes_mask_p (wp_of m d s w)"
  "wp_timestamp_p (wp_of (upd_ln d' s' w' l' fl m) d s w) = wp_timestamp_p (wp_of m d s w)"
  "wp_valid (wp_of (upd_ln d' s' w' l' fl m) d s w) = wp_valid (wp_of m d s w)"
  "wp_broken (wp_of (upd_ln d' s' w' l' fl m) d s w) = wp_broken (wp_of m d s w)"
  "wp_block_idx (wp_of (upd_ln d' s' w' l' fl m) d s w) = wp_block_idx (wp_of m d s w)"
  "wp_kernel (wp_of (upd_ln d' s' w' l' fl m) d s w) = wp_kernel (wp_of m d s w)"
  "wp_grid_id (wp_of (upd_ln d' s' w' l' fl m) d s w) = wp_grid_id (wp_of m d s w)"
  "wp_valid_lanes_mask (wp_of (upd_ln d' s' w' l' fl m) d s w) = wp_valid_lanes_mask (wp_of m d s w)"
  "wp_active_lanes_mask (wp_of (upd_ln d' s' w' l' fl m) d s w) = wp_active_lanes_mask (wp_of m d s w)"
  "wp_timestamp (wp_of (upd_ln d' s' w' l' fl m) d s w) = wp_timestamp (wp_of m d s w)"
  by (simp_all add: of_defs upd_defs del: fold_of)

subsection \<open>Sequencing\<close>

lemma bindE_simps [simp]:
  "bindE (Inl err) f = Inl err"
  "bindE (Inr (a, m)) f = f a m"
  "bindE (ret a m) f = f a m"
  by (simp_all add: bindE_def ret_def)

lemma ret_eq [simp]: "(ret a m = Inr (b, m')) = (a = b \<and> m = m')"
  by (auto simp: ret_def)

lemma gdb_assert_eq [simp]: "(gdb_assert b m = Inr (u, m')) = (b \<and> m = m')"
  by (auto simp: gdb_assert_def)

lemma gdb_assert_True [simp]: "b \<Longrightarrow> gdb_assert b m = Inr ((), m)"
  by (simp add: gdb_assert_def)

lemma bindE_E:
  assumes "bindE r f = Inr y"
  obtains a m1 where "r = Inr (a, m1)" and "f a m1 = Inr y"
  using assms by (cases r) (auto simp: bindE_def)

lemma CACHED [simp]: "CACHED"
  by (simp add: CACHED_def)

subsection \<open>The relation \<open>clears\<close>\<close>

lemma dev_restD:
  assumes "dev_rest x' = dev_rest y"
  shows "dev_valid_p x' = dev_valid_p y" "dev_num_registers_p x' = dev_num_registers_p y"
    "dev_dev_type_p x' = dev_dev_type_p y" "dev_sm_type_p x' = dev_sm_type_p y"
    "dev_filter_exception_state_p x' = dev_filter_exception_state_p y"
    "dev_valid x' = dev_valid y" "dev_suspended x' = dev_suspended y"
    "dev_dev_type x' = dev_dev_type y" "dev_sm_type x' = dev_sm_type y"
    "dev_num_registers x' = dev_num_registers y" "dev_contexts x' = dev_contexts y"
  using arg_cong[OF assms, of dev_valid_p] arg_cong[OF assms, of dev_num_registers_p]
    arg_cong[OF assms, of dev_dev_type_p] arg_cong[OF assms, of dev_sm_type_p]
    arg_cong[OF assms, of dev_filter_exception_state_p] arg_cong[OF assms, of dev_valid]
    arg_cong[OF assms, of dev_suspended] arg_cong[OF assms, of dev_dev_type]
    arg_cong[OF assms, of dev_sm_type] arg_cong[OF assms, of dev_num_registers]
    arg_cong[OF assms, of dev_contexts]
  by (simp_all add: dev_rest_def)

lemma sm_scalarsD:
  assumes "sm_scalars x' = sm_scalars y"
  shows "sm_valid_warps_mask_p x' = sm_valid_warps_mask_p y"
    "sm_broken_warps_mask_p x' = sm_broken_warps_mask_p y"
    "sm_valid_warps_mask x' = sm_valid_warps_mask y"
    "sm_broken_warps_mask x' = sm_broken_warps_mask y"
  using arg_cong[OF assms, of sm_valid_warps_mask_p] arg_cong[OF assms, of sm_broken_warps_mask_p]
    arg_cong[OF assms, of sm_valid_warps_mask] arg_cong[OF assms, of sm_broken_warps_mask]
  by (simp_all add: sm_scalars_def)

lemma wp_scalarsD:
  assumes "wp_scalars x' = wp_scalars y"
  shows "wp_valid_p x' = wp_valid_p y" "wp_broken_p x' = wp_broken_p y"
    "wp_block_idx_p x' = wp_block_idx_p y" "wp_kernel_p x' = wp_kernel_p y"
    "wp_grid_id_p x' = wp_grid_id_p y" "wp_valid_lanes_mask_p x' = wp_valid_lanes_mask_p y"
    "wp_active_lanes_mask_p x' = wp_active_lanes_mask_p y" "wp_timestamp_p x' = wp_timestamp_p y"
    "wp_valid x' = wp_valid y" "wp_broken x' = wp_broken y" "wp_block_idx x' = wp_block_idx y"
    "wp_kernel x' = wp_kernel y" "wp_grid_id x' = wp_grid_id y"
    "wp_valid_lanes_mask x' = wp_valid_lanes_mask y"
    "wp_active_lanes_mask x' = wp_active_lanes_mask y" "wp_timestamp x' = wp_timestamp y"
  using arg_cong[OF assms, of wp_valid_p] arg_cong[OF assms, of wp_broken_p]
    arg_cong[OF assms, of wp_block_idx_p] arg_cong[OF assms, of wp_kernel_p]
    arg_cong[OF assms, of wp_grid_id_p] arg_cong[OF assms, of wp_valid_lanes_mask_p]
    arg_cong[OF assms, of wp_active_lanes_mask_p] arg_cong[OF assms, of wp_timestamp_p]
    arg_cong[OF assms, of wp_valid] arg_cong[OF assms, of wp_broken]
    arg_cong[OF assms, of wp_block_idx] arg_cong[OF assms, of wp_kernel]
    arg_cong[OF assms, of wp_grid_id] arg_cong[OF assms, of wp_valid_lanes_mask]
    arg_cong[OF assms, of wp_active_lanes_mask] arg_cong[OF assms, of wp_timestamp]
  by (simp_all add: wp_scalars_def)

lemma clear_idem [simp]:
  "clear_lane_flags (clear_lane_flags x) = clear_lane_flags x"
  "wp_scalars (clear_warp_flags (clear_warp_flags y)) = wp_scalars (clear_warp_flags y)"
  "sm_scalars (clear_sm_flags (clear_sm_flags z)) = sm_scalars (clear_sm_flags z)"
  "dev_rest (clear_dev_flags (clear_dev_flags v)) = dev_rest (clear_dev_flags v)"
  by (simp_all add: clear_lane_flags_def clear_warp_flags_def clear_sm_flags_def clear_dev_flags_def)

lemma scalars_clear_cong:
  "wp_scalars y' = wp_scalars y \<Longrightarrow> wp_scalars (clear_warp_flags y') = wp_scalars (clear_warp_flags y)"
  "sm_scalars z' = sm_scalars z \<Longrightarrow> sm_scalars (clear_sm_flags z') = sm_scalars (clear_sm_flags z)"
  "dev_rest v' = dev_rest v \<Longrightarrow> dev_rest (clear_dev_flags v') = dev_rest (clear_dev_flags v)"
proof -
  have w: "wp_scalars (clear_warp_flags y) = clear_warp_flags (wp_scalars y)" for y
    by (simp add: wp_scalars_def clear_warp_flags_def)
  have s: "sm_scalars (clear_sm_flags z) = clear_sm_flags (sm_scalars z)" for z
    by (simp add: sm_scalars_def clear_sm_flags_def)
  have d: "dev_rest (clear_dev_flags v) = clear_dev_flags (dev_rest v)" for v
    by (simp add: dev_rest_def clear_dev_flags_def)
  show "wp_scalars y' = wp_scalars y \<Longrightarrow> wp_scalars (clear_warp_flags y') = wp_scalars (clear_warp_flags y)"
    by (simp add: w)
  show "sm_scalars z' = sm_scalars z \<Longrightarrow> sm_scalars (clear_sm_flags z') = sm_scalars (clear_sm_flags z)"
    by (simp add: s)
  show "dev_rest v' = dev_rest v \<Longrightarrow> dev_rest (clear_dev_flags v') = dev_rest (clear_dev_flags v)"
    by (simp add: d)
qed

lemma counts_kept_refl [simp]: "counts_kept x x"
  by (simp add: counts_kept_def)

lemma counts_kept_trans: "counts_kept x y \<Longrightarrow> counts_kept y z \<Longrightarrow> counts_kept x z"
  by (auto simp: counts_kept_def)

lemma clears_refl: "\<forall>x\<in>A. \<exists>a. x = Eff a \<Longrightarrow> clears A m m"
  by (fastforce simp: clears_def)

lemma clears_count_queries_refl [simp]: "clears count_queries m m"
  by (rule clears_refl) (auto simp: count_queries_def)

lemma clearsD:
  assumes "clears A m m'"
  shows "sys_suspended_devices_mask (cuda_system_info m') = sys_suspended_devices_mask (cuda_system_info m)"
    and "sys_num_devices_p (cuda_system_info m) \<Longrightarrow> sys_num_devices_p (cuda_system_info m') \<and>
           sys_num_devices (cuda_system_info m') = sys_num_devices (cuda_system_info m)"
    and "dev_rest (dev_of m' d) = dev_rest (if Dev_flags d \<in> A then clear_dev_flags (dev_of m d) else dev_of m d)"
    and "counts_kept (dev_of m d) (dev_of m' d)"
    and "sm_scalars (sm_of m' d s) = sm_scalars (if Sm_flags d s \<in> A then clear_sm_flags (sm_of m d s) else sm_of m d s)"
    and "wp_scalars (wp_of m' d s w) = wp_scalars (if Wp_flags d s w \<in> A then clear_warp_flags (wp_of m d s w) else wp_of m d s w)"
    and "ln_of m' d s w l = (if Ln_flags d s w l \<in> A then clear_lane_flags (ln_of m d s w l) else ln_of m d s w l)"
    and "\<exists>tr. effects m' = effects m @ tr \<and> list_all (\<lambda>a. Eff a \<in> A) tr"
  using assms unfolding clears_def by simp_all

lemma compose_clear:
  assumes 1: "R x1 = R (if a then c x else x)"
    and 2: "R x2 = R (if b then c x1 else x1)"
    and cong: "\<And>u v. R u = R v \<Longrightarrow> R (c u) = R (c v)"
    and idem: "\<And>u. R (c (c u)) = R (c u)"
  shows "R x2 = R (if a \<or> b then c x else x)"
proof (cases b)
  case False
  with 1 2 show ?thesis by simp
next
  case True
  with 2 have "R x2 = R (c x1)" by simp
  also have "\<dots> = R (c (if a then c x else x))" using 1 by (rule cong)
  also have "\<dots> = R (c x)" by (simp add: idem)
  finally show ?thesis using True by simp
qed

lemma clears_trans:
  assumes "clears A m m1" and "clears B m1 m2"
  shows "clears (A \<union> B) m m2"
  unfolding clears_def
proof (intro conjI allI)
  show "sys_suspended_devices_mask (cuda_system_info m2) = sys_suspended_devices_mask (cuda_system_info m)"
    using assms by (simp add: clears_def)
  show "sys_num_devices_p (cuda_system_info m) \<longrightarrow>
         sys_num_devices_p (cuda_system_info m2) \<and>
         sys_num_devices (cuda_system_info m2) = sys_num_devices (cuda_system_info m)"
    using assms by (simp add: clears_def)
  show "counts_kept (dev_of m d) (dev_of m2 d)" for d
    using clearsD(4)[OF assms(1)] clearsD(4)[OF assms(2)] by (rule counts_kept_trans)
  show "dev_rest (dev_of m2 d) =
          dev_rest (if Dev_flags d \<in> A \<union> B then clear_dev_flags (dev_of m d) else dev_of m d)" for d
  proof -
    have 1: "dev_rest (dev_of m1 d) = dev_rest (if Dev_flags d \<in> A then clear_dev_flags (dev_of m d) else dev_of m d)"
      and 2: "dev_rest (dev_of m2 d) = dev_rest (if Dev_flags d \<in> B then clear_dev_flags (dev_of m1 d) else dev_of m1 d)"
      using assms by (simp_all add: clears_def)
    show ?thesis using compose_clear[of dev_rest _ _ clear_dev_flags _ _ _, OF 1 2 scalars_clear_cong(3) clear_idem(4)] by simp
  qed
  show "sm_scalars (sm_of m2 d s) =
          sm_scalars (if Sm_flags d s \<in> A \<union> B then clear_sm_flags (sm_of m d s) else sm_of m d s)" for d s
  proof -
    have 1: "sm_scalars (sm_of m1 d s) = sm_scalars (if Sm_flags d s \<in> A then clear_sm_flags (sm_of m d s) else sm_of m d s)"
      and 2: "sm_scalars (sm_of m2 d s) = sm_scalars (if Sm_flags d s \<in> B then clear_sm_flags (sm_of m1 d s) else sm_of m1 d s)"
      using assms by (simp_all add: clears_def)
    show ?thesis using compose_clear[of sm_scalars _ _ clear_sm_flags _ _ _, OF 1 2 scalars_clear_cong(2) clear_idem(3)] by simp
  qed
  show "wp_scalars (wp_of m2 d s w) =
          wp_scalars (if Wp_flags d s w \<in> A \<union> B then clear_warp_flags (wp_of m d s w) else wp_of m d s w)" for d s w
  proof -
    have 1: "wp_scalars (wp_of m1 d s w) = wp_scalars (if Wp_flags d s w \<in> A then clear_warp_flags (wp_of m d s w) else wp_of m d s w)"
      and 2: "wp_scalars (wp_of m2 d s w) = wp_scalars (if Wp_flags d s w \<in> B then clear_warp_flags (wp_of m1 d s w) else wp_of m1 d s w)"
      using assms by (simp_all add: clears_def)
    show ?thesis using compose_clear[of wp_scalars _ _ clear_warp_flags _ _ _, OF 1 2 scalars_clear_cong(1) clear_idem(2)] by simp
  qed
  show "ln_of m2 d s w l =
          (if Ln_flags d s w l \<in> A \<union> B then clear_lane_flags (ln_of m d s w l) else ln_of m d s w l)" for d s w l
    using assms by (simp add: clears_def)
  show "\<exists>tr. effects m2 = effects m @ tr \<and> list_all (\<lambda>a. Eff a \<in> A \<union> B) tr"
  proof -
    from clearsD(8)[OF assms(1)] obtain t1 where "effects m1 = effects m @ t1" "list_all (\<lambda>a. Eff a \<in> A) t1"
      by blast
    moreover from clearsD(8)[OF assms(2)] obtain t2 where "effects m2 = effects m1 @ t2" "list_all (\<lambda>a. Eff a \<in> B) t2"
      by blast
    ultimately have "effects m2 = effects m @ (t1 @ t2) \<and> list_all (\<lambda>a. Eff a \<in> A \<union> B) (t1 @ t2)"
      by (auto simp: list_all_iff)
    then show ?thesis by blast
  qed
qed

lemma clears_cong:
  assumes "clears A m m'"
    and "\<And>x. (\<And>a. x \<noteq> Eff a) \<Longrightarrow> (x \<in> A) = (x \<in> B)"
    and "\<And>a. Eff a \<in> A \<Longrightarrow> Eff a \<in> B"
  shows "clears B m m'"
proof -
  have f: "(Dev_flags d \<in> A) = (Dev_flags d \<in> B)" "(Sm_flags d s \<in> A) = (Sm_flags d s \<in> B)"
    "(Wp_flags d s w \<in> A) = (Wp_flags d s w \<in> B)" "(Ln_flags d s w l \<in> A) = (Ln_flags d s w l \<in> B)"
    for d s w l
    by (rule assms(2), simp)+
  from clearsD(8)[OF assms(1)] obtain tr where tr: "effects m' = effects m @ tr" "list_all (\<lambda>a. Eff a \<in> A) tr"
    by blast
  then have "list_all (\<lambda>a. Eff a \<in> B) tr"
    using assms(3) by (auto simp: list_all_iff)
  with tr(1) have "\<exists>tr. effects m' = effects m @ tr \<and> list_all (\<lambda>a. Eff a \<in> B) tr" by blast
  with clearsD(1-7)[OF assms(1)] show ?thesis
    unfolding clears_def f[symmetric] by simp
qed

subsection \<open>Counts and checks\<close>

lemma clears_leaf:
  assumes "sys_suspended_devices_mask (cuda_system_info m') = sys_suspended_devices_mask (cuda_system_info m)"
    and "sys_num_devices_p (cuda_system_info m) \<Longrightarrow> sys_num_devices_p (cuda_system_info m') \<and>
           sys_num_devices (cuda_system_info m') = sys_num_devices (cuda_system_info m)"
    and "\<And>d. dev_rest (dev_of m' d) = dev_rest (if Dev_flags d \<in> A then clear_dev_flags (dev_of m d) else dev_of m d)"
    and "\<And>d. counts_kept (dev_of m d) (dev_of m' d)"
    and "\<And>d s. sm_scalars (sm_of m' d s) = sm_scalars (if Sm_flags d s \<in> A then clear_sm_flags (sm_of m d s) else sm_of m d s)"
    and "\<And>d s w. wp_scalars (wp_of m' d s w) = wp_scalars (if Wp_flags d s w \<in> A then clear_warp_flags (wp_of m d s w) else wp_of m d s w)"
    and "\<And>d s w l. ln_of m' d s w l = (if Ln_flags d s w l \<in> A then clear_lane_flags (ln_of m d s w l) else ln_of m d s w l)"
    and "\<exists>tr. effects m' = effects m @ tr \<and> list_all (\<lambda>a. Eff a \<in> A) tr"
  shows "clears A m m'"
  using assms unfolding clears_def by simp

lemma count_queries_simps [simp]:
  "Dev_flags d \<notin> count_queries" "Sm_flags d s \<notin> count_queries"
  "Wp_flags d s w \<notin> count_queries" "Ln_flags d s w l \<notin> count_queries"
  "(Eff a \<in> count_queries) = is_count_query a"
  by (auto simp: count_queries_def)

lemma cuda_system_get_num_devices_spec:
  assumes "cuda_system_get_num_devices e m = Inr (n, m')"
  shows "clears count_queries m m'"
    and "cuda_initialized e \<Longrightarrow> sys_num_devices_p (cuda_system_info m') \<and> n = sys_num_devices (cuda_system_info m')"
    and "\<not> cuda_initialized e \<Longrightarrow> n = 0"
proof -
  show "\<not> cuda_initialized e \<Longrightarrow> n = 0"
    using assms by (simp add: cuda_system_get_num_devices_def)
  show "cuda_initialized e \<Longrightarrow> sys_num_devices_p (cuda_system_info m') \<and> n = sys_num_devices (cuda_system_info m')"
    using assms by (auto simp: cuda_system_get_num_devices_def Let_def split: if_splits elim!: bindE_E)
  show "clears count_queries m m'"
  proof (cases "cuda_initialized e \<and> \<not> sys_num_devices_p (cuda_system_info m)")
    case False
    with assms have "m' = m" by (auto simp: cuda_system_get_num_devices_def split: if_splits)
    then show ?thesis by simp
  next
    case True
    with assms have m': "m' = upd_sys (\<lambda>y. y\<lparr>sys_num_devices_p := CACHED\<rparr>)
        (upd_sys (\<lambda>y. y\<lparr>sys_num_devices := api_num_devices e\<rparr>) (do_effect Api_get_num_devices m))"
      by (auto simp: cuda_system_get_num_devices_def Let_def split: if_splits elim!: bindE_E)
    show ?thesis unfolding m' using True by (intro clears_leaf) simp_all
  qed
qed

lemma cuda_system_get_num_devices_ready:
  "ready_dev e m d \<Longrightarrow> cuda_system_get_num_devices e m = Inr (sys_num_devices (cuda_system_info m), m)"
  by (simp add: ready_dev_def cuda_system_get_num_devices_def)

lemma check_dev_ready [simp]: "ready_dev e m d \<Longrightarrow> check_dev e d m = Inr ((), m)"
  by (simp add: check_dev_def cuda_system_get_num_devices_ready) (simp add: ready_dev_def)

lemma check_dev_spec:
  assumes "check_dev e d m = Inr (u, m')"
  shows "clears count_queries m m'" and "ready_dev e m' d"
proof -
  from assms obtain n where g: "cuda_system_get_num_devices e m = Inr (n, m')" and n: "d < n"
    unfolding check_dev_def by (auto elim!: bindE_E)
  show "clears count_queries m m'" using g by (rule cuda_system_get_num_devices_spec)
  show "ready_dev e m' d"
    using cuda_system_get_num_devices_spec(2,3)[OF g] n by (cases "cuda_initialized e") (auto simp: ready_dev_def)
qed

lemma ready_clears:
  assumes "clears A m m'"
  shows "ready_dev e m d \<Longrightarrow> ready_dev e m' d"
    and "ready_sm e m d s \<Longrightarrow> ready_sm e m' d s"
    and "ready_wp e m d s w \<Longrightarrow> ready_wp e m' d s w"
    and "ready_ln e m d s w l \<Longrightarrow> ready_ln e m' d s w l"
proof -
  show 1: "ready_dev e m d \<Longrightarrow> ready_dev e m' d"
    using clearsD(2)[OF assms] by (simp add: ready_dev_def)
  show 2: "ready_sm e m d s \<Longrightarrow> ready_sm e m' d s"
    using 1 clearsD(4)[OF assms, of d] by (simp add: ready_sm_def counts_kept_def)
  show 3: "ready_wp e m d s w \<Longrightarrow> ready_wp e m' d s w"
    using 2 clearsD(4)[OF assms, of d] by (simp add: ready_wp_def counts_kept_def)
  show "ready_ln e m d s w l \<Longrightarrow> ready_ln e m' d s w l"
    using 3 clearsD(4)[OF assms, of d] by (simp add: ready_ln_def counts_kept_def)
qed

lemma ready_upd [simp]:
  "ready_dev e (upd_sm d' s' fs m) d = ready_dev e m d"
  "ready_dev e (upd_wp d' s' w' fw m) d = ready_dev e m d"
  "ready_dev e (upd_ln d' s' w' l' fl m) d = ready_dev e m d"
  "ready_dev e (do_effect a m) d = ready_dev e m d"
  "ready_sm e (upd_sm d' s' fs m) d s = ready_sm e m d s"
  "ready_sm e (upd_wp d' s' w' fw m) d s = ready_sm e m d s"
  "ready_sm e (upd_ln d' s' w' l' fl m) d s = ready_sm e m d s"
  "ready_sm e (do_effect a m) d s = ready_sm e m d s"
  "ready_wp e (upd_sm d' s' fs m) d s w = ready_wp e m d s w"
  "ready_wp e (upd_wp d' s' w' fw m) d s w = ready_wp e m d s w"
  "ready_wp e (upd_ln d' s' w' l' fl m) d s w = ready_wp e m d s w"
  "ready_wp e (do_effect a m) d s w = ready_wp e m d s w"
  "ready_ln e (upd_sm d' s' fs m) d s w l = ready_ln e m d s w l"
  "ready_ln e (upd_wp d' s' w' fw m) d s w l = ready_ln e m d s w l"
  "ready_ln e (upd_ln d' s' w' l' fl m) d s w l = ready_ln e m d s w l"
  "ready_ln e (do_effect a m) d s w l = ready_ln e m d s w l"
  by (simp_all add: ready_dev_def ready_sm_def ready_wp_def ready_ln_def)

lemma readyD:
  "ready_sm e m d s \<Longrightarrow> ready_dev e m d"
  "ready_wp e m d s w \<Longrightarrow> ready_sm e m d s"
  "ready_wp e m d s w \<Longrightarrow> ready_dev e m d"
  "ready_ln e m d s w l \<Longrightarrow> ready_wp e m d s w"
  "ready_ln e m d s w l \<Longrightarrow> ready_sm e m d s"
  "ready_ln e m d s w l \<Longrightarrow> ready_dev e m d"
  by (simp_all add: ready_sm_def ready_wp_def ready_ln_def)

lemma device_get_num_sms_ready:
  "ready_dev e m d \<Longrightarrow> dev_num_sms_p (dev_of m d) \<Longrightarrow>
     device_get_num_sms e d m = Inr (dev_num_sms (dev_of m d), m)"
  by (simp add: device_get_num_sms_def)

lemma device_get_num_warps_ready:
  "ready_dev e m d \<Longrightarrow> dev_num_warps_p (dev_of m d) \<Longrightarrow>
     device_get_num_warps e d m = Inr (dev_num_warps (dev_of m d), m)"
  by (simp add: device_get_num_warps_def)

lemma device_get_num_lanes_ready:
  "ready_dev e m d \<Longrightarrow> dev_num_lanes_p (dev_of m d) \<Longrightarrow>
     device_get_num_lanes e d m = Inr (dev_num_lanes (dev_of m d), m)"
  by (simp add: device_get_num_lanes_def)

lemma device_get_num_sms_spec:
  assumes "device_get_num_sms e d m = Inr (n, m')"
  shows "clears count_queries m m'" and "ready_dev e m' d"
    and "dev_num_sms_p (dev_of m' d)" and "n = dev_num_sms (dev_of m' d)"
proof -
  from assms obtain m1 where c: "check_dev e d m = Inr ((), m1)"
    and r: "(if dev_num_sms_p (dev_of m1 d) then ret (dev_num_sms (dev_of m1 d)) m1
       else
         (let m2 = upd_dev d (\<lambda>x. x\<lparr>dev_num_sms := api_num_sms e d\<rparr>) (do_effect (Api_get_num_sms d) m1) in
          bindE (gdb_assert (dev_num_sms (dev_of m2 d) \<le> CUDBG_MAX_SMS e) m2) (\<lambda>_ m3.
          ret (dev_num_sms (dev_of m3 d)) (upd_dev d (\<lambda>x. x\<lparr>dev_num_sms_p := CACHED\<rparr>) m3)))) = Inr (n, m')"
    unfolding device_get_num_sms_def by (auto elim!: bindE_E)
  note c1 = check_dev_spec[OF c]
  have "clears count_queries m1 m' \<and> ready_dev e m' d \<and> dev_num_sms_p (dev_of m' d) \<and> n = dev_num_sms (dev_of m' d)"
  proof (cases "dev_num_sms_p (dev_of m1 d)")
    case True
    with r c1(2) show ?thesis by auto
  next
    case False
    with r have m': "m' = upd_dev d (\<lambda>x. x\<lparr>dev_num_sms_p := CACHED\<rparr>)
        (upd_dev d (\<lambda>x. x\<lparr>dev_num_sms := api_num_sms e d\<rparr>) (do_effect (Api_get_num_sms d) m1))"
      and n: "n = api_num_sms e d"
      by (auto simp: Let_def elim!: bindE_E)
    have "clears count_queries m1 m'"
      unfolding m' using False
      by (intro clears_leaf) (simp_all add: dev_rest_def counts_kept_def)
    moreover have "ready_dev e m' d" using c1(2) by (simp add: m' ready_dev_def)
    ultimately show ?thesis by (simp add: m' n)
  qed
  then show "ready_dev e m' d" "dev_num_sms_p (dev_of m' d)" "n = dev_num_sms (dev_of m' d)"
    by simp_all
  from clears_trans[OF c1(1)] \<open>clears count_queries m1 m' \<and> _\<close> show "clears count_queries m m'"
    by fastforce
qed

lemma device_get_num_warps_spec:
  assumes "device_get_num_warps e d m = Inr (n, m')"
  shows "clears count_queries m m'" and "ready_dev e m' d"
    and "dev_num_warps_p (dev_of m' d)" and "n = dev_num_warps (dev_of m' d)"
proof -
  from assms obtain m1 where c: "check_dev e d m = Inr ((), m1)"
    and r: "(if dev_num_warps_p (dev_of m1 d) then ret (dev_num_warps (dev_of m1 d)) m1
       else
         (let m2 = upd_dev d (\<lambda>x. x\<lparr>dev_num_warps := api_num_warps e d\<rparr>) (do_effect (Api_get_num_warps d) m1) in
          bindE (gdb_assert (dev_num_warps (dev_of m2 d) \<le> CUDBG_MAX_WARPS e) m2) (\<lambda>_ m3.
          ret (dev_num_warps (dev_of m3 d)) (upd_dev d (\<lambda>x. x\<lparr>dev_num_warps_p := CACHED\<rparr>) m3)))) = Inr (n, m')"
    unfolding device_get_num_warps_def by (auto elim!: bindE_E)
  note c1 = check_dev_spec[OF c]
  have "clears count_queries m1 m' \<and> ready_dev e m' d \<and> dev_num_warps_p (dev_of m' d) \<and> n = dev_num_warps (dev_of m' d)"
  proof (cases "dev_num_warps_p (dev_of m1 d)")
    case True
    with r c1(2) show ?thesis by auto
  next
    case False
    with r have m': "m' = upd_dev d (\<lambda>x. x\<lparr>dev_num_warps_p := CACHED\<rparr>)
        (upd_dev d (\<lambda>x. x\<lparr>dev_num_warps := api_num_warps e d\<rparr>) (do_effect (Api_get_num_warps d) m1))"
      and n: "n = api_num_warps e d"
      by (auto simp: Let_def elim!: bindE_E)
    have "clears count_queries m1 m'"
      unfolding m' using False
      by (intro clears_leaf) (simp_all add: dev_rest_def counts_kept_def)
    moreover have "ready_dev e m' d" using c1(2) by (simp add: m' ready_dev_def)
    ultimately show ?thesis by (simp add: m' n)
  qed
  then show "ready_dev e m' d" "dev_num_warps_p (dev_of m' d)" "n = dev_num_warps (dev_of m' d)"
    by simp_all
  from clears_trans[OF c1(1)] \<open>clears count_queries m1 m' \<and> _\<close> show "clears count_queries m m'"
    by fastforce
qed

lemma device_get_num_lanes_spec:
  assumes "device_get_num_lanes e d m = Inr (n, m')"
  shows "clears count_queries m m'" and "ready_dev e m' d"
    and "dev_num_lanes_p (dev_of m' d)" and "n = dev_num_lanes (dev_of m' d)"
proof -
  from assms obtain m1 where c: "check_dev e d m = Inr ((), m1)"
    and r: "(if dev_num_lanes_p (dev_of m1 d) then ret (dev_num_lanes (dev_of m1 d)) m1
       else
         (let m2 = upd_dev d (\<lambda>x. x\<lparr>dev_num_lanes := api_num_lanes e d\<rparr>) (do_effect (Api_get_num_lanes d) m1) in
          bindE (gdb_assert (dev_num_lanes (dev_of m2 d) \<le> CUDBG_MAX_LANES e) m2) (\<lambda>_ m3.
          ret (dev_num_lanes (dev_of m3 d)) (upd_dev d (\<lambda>x. x\<lparr>dev_num_lanes_p := CACHED\<rparr>) m3)))) = Inr (n, m')"
    unfolding device_get_num_lanes_def by (auto elim!: bindE_E)
  note c1 = check_dev_spec[OF c]
  have "clears count_queries m1 m' \<and> ready_dev e m' d \<and> dev_num_lanes_p (dev_of m' d) \<and> n = dev_num_lanes (dev_of m' d)"
  proof (cases "dev_num_lanes_p (dev_of m1 d)")
    case True
    with r c1(2) show ?thesis by auto
  next
    case False
    with r have m': "m' = upd_dev d (\<lambda>x. x\<lparr>dev_num_lanes_p := CACHED\<rparr>)
        (upd_dev d (\<lambda>x. x\<lparr>dev_num_lanes := api_num_lanes e d\<rparr>) (do_effect (Api_get_num_lanes d) m1))"
      and n: "n = api_num_lanes e d"
      by (auto simp: Let_def elim!: bindE_E)
    have "clears count_queries m1 m'"
      unfolding m' using False
      by (intro clears_leaf) (simp_all add: dev_rest_def counts_kept_def)
    moreover have "ready_dev e m' d" using c1(2) by (simp add: m' ready_dev_def)
    ultimately show ?thesis by (simp add: m' n)
  qed
  then show "ready_dev e m' d" "dev_num_lanes_p (dev_of m' d)" "n = dev_num_lanes (dev_of m' d)"
    by simp_all
  from clears_trans[OF c1(1)] \<open>clears count_queries m1 m' \<and> _\<close> show "clears count_queries m m'"
    by fastforce
qed


lemma check_sm_ready [simp]: "ready_sm e m d s \<Longrightarrow> check_sm e d s m = Inr ((), m)"
  by (simp add: check_sm_def ready_sm_def device_get_num_sms_ready)

lemma check_wp_ready [simp]:
  assumes "ready_wp e m d s w"
  shows "check_wp e d s w m = Inr ((), m)"
proof -
  from assms have r: "ready_sm e m d s" "ready_dev e m d" "dev_num_warps_p (dev_of m d)"
    "w < dev_num_warps (dev_of m d)"
    by (simp_all add: ready_wp_def ready_sm_def)
  then show ?thesis by (simp add: check_wp_def device_get_num_warps_ready)
qed

lemma check_ln_ready [simp]:
  assumes "ready_ln e m d s w l"
  shows "check_ln e d s w l m = Inr ((), m)"
proof -
  from assms have r: "ready_wp e m d s w" "ready_dev e m d" "dev_num_lanes_p (dev_of m d)"
    "l < dev_num_lanes (dev_of m d)"
    by (simp_all add: ready_ln_def ready_wp_def ready_sm_def)
  then show ?thesis by (simp add: check_ln_def device_get_num_lanes_ready)
qed

lemma check_sm_spec:
  assumes "check_sm e d s m = Inr (u, m')"
  shows "clears count_queries m m'" and "ready_sm e m' d s"
proof -
  from assms obtain m1 n where c: "check_dev e d m = Inr ((), m1)"
    and g: "device_get_num_sms e d m1 = Inr (n, m')" and n: "s < n"
    unfolding check_sm_def by (auto elim!: bindE_E)
  from clears_trans[OF check_dev_spec(1)[OF c] device_get_num_sms_spec(1)[OF g]]
  show "clears count_queries m m'" by simp
  from device_get_num_sms_spec(2-4)[OF g] n show "ready_sm e m' d s"
    by (simp add: ready_sm_def)
qed

lemma check_wp_spec:
  assumes "check_wp e d s w m = Inr (u, m')"
  shows "clears count_queries m m'" and "ready_wp e m' d s w"
proof -
  from assms obtain m1 n where c: "check_sm e d s m = Inr ((), m1)"
    and g: "device_get_num_warps e d m1 = Inr (n, m')" and n: "w < n"
    unfolding check_wp_def by (auto elim!: bindE_E)
  from clears_trans[OF check_sm_spec(1)[OF c] device_get_num_warps_spec(1)[OF g]]
  show "clears count_queries m m'" by simp
  from device_get_num_warps_spec(2-4)[OF g] n
    ready_clears(2)[OF device_get_num_warps_spec(1)[OF g] check_sm_spec(2)[OF c]]
  show "ready_wp e m' d s w"
    by (simp add: ready_wp_def)
qed

lemma check_ln_spec:
  assumes "check_ln e d s w l m = Inr (u, m')"
  shows "clears count_queries m m'" and "ready_ln e m' d s w l"
proof -
  from assms obtain m1 n where c: "check_wp e d s w m = Inr ((), m1)"
    and g: "device_get_num_lanes e d m1 = Inr (n, m')" and n: "l < n"
    unfolding check_ln_def by (auto elim!: bindE_E)
  from clears_trans[OF check_wp_spec(1)[OF c] device_get_num_lanes_spec(1)[OF g]]
  show "clears count_queries m m'" by simp
  from device_get_num_lanes_spec(2-4)[OF g] n
    ready_clears(3)[OF device_get_num_lanes_spec(1)[OF g] check_wp_spec(2)[OF c]]
  show "ready_ln e m' d s w l"
    by (simp add: ready_ln_def)
qed

text \<open>The loop.\<close>

lemma for_loop_rule:
  assumes "for_loop is body m = Inr (u, m')"
    and "P m"
    and "\<And>i m1 m2. i \<in> set is \<Longrightarrow> P m1 \<Longrightarrow> body i m1 = Inr ((), m2) \<Longrightarrow> P m2"
  shows "P m'"
  using assms
proof (induction "is" arbitrary: m)
  case Nil
  then show ?case by simp
next
  case (Cons i "is")
  from Cons.prems(1) obtain m1 where b: "body i m = Inr ((), m1)"
    and r: "for_loop is body m1 = Inr (u, m')"
    by (auto elim!: bindE_E)
  have 1: "P m1" using Cons.prems(3)[OF _ Cons.prems(2) b] by simp
  have 2: "P m2" if "j \<in> set is" "P m1" "body j m1 = Inr ((), m2)" for j m1 m2
    using Cons.prems(3)[of j m1 m2] that by simp
  from Cons.IH[OF r 1 2] show ?case .
qed

subsection \<open>Invalidation\<close>

lemma slot_in_simps [simp]:
  "Dev_flags d \<notin> warp_slots d' s' w' n" "(Sm_flags d s \<in> warp_slots d' s' w' n) = (d = d' \<and> s = s')"
  "(Wp_flags d s w \<in> warp_slots d' s' w' n) = (d = d' \<and> s = s' \<and> w = w')"
  "(Ln_flags d s w l \<in> warp_slots d' s' w' n) = (d = d' \<and> s = s' \<and> w = w' \<and> l < n)"
  "Eff a \<notin> warp_slots d' s' w' n"
  "Dev_flags d \<notin> sm_slots d' s' nw nl" "(Sm_flags d s \<in> sm_slots d' s' nw nl) = (d = d' \<and> s = s')"
  "(Wp_flags d s w \<in> sm_slots d' s' nw nl) = (d = d' \<and> s = s' \<and> w < nw)"
  "(Ln_flags d s w l \<in> sm_slots d' s' nw nl) = (d = d' \<and> s = s' \<and> w < nw \<and> l < nl)"
  "Eff a \<notin> sm_slots d' s' nw nl"
  "(Dev_flags d \<in> device_slots d' ns nw nl) = (d = d')"
  "(Sm_flags d s \<in> device_slots d' ns nw nl) = (d = d' \<and> s < ns)"
  "(Wp_flags d s w \<in> device_slots d' ns nw nl) = (d = d' \<and> s < ns \<and> w < nw)"
  "(Ln_flags d s w l \<in> device_slots d' ns nw nl) = (d = d' \<and> s < ns \<and> w < nw \<and> l < nl)"
  "(Eff a \<in> device_slots d' ns nw nl) = (a = Kernels_invalidate)"
  by (auto simp: warp_slots_def sm_slots_def device_slots_def)

lemma rest_upd [simp]:
  "dev_rest (dev_of (upd_sm d' s' fs m) d) = dev_rest (dev_of m d)"
  "dev_rest (dev_of (upd_wp d' s' w' fw m) d) = dev_rest (dev_of m d)"
  "dev_rest (dev_of (upd_ln d' s' w' l' fl m) d) = dev_rest (dev_of m d)"
  "sm_scalars (sm_of (upd_wp d' s' w' fw m) d s) = sm_scalars (sm_of m d s)"
  "sm_scalars (sm_of (upd_ln d' s' w' l' fl m) d s) = sm_scalars (sm_of m d s)"
  "wp_scalars (wp_of (upd_ln d' s' w' l' fl m) d s w) = wp_scalars (wp_of m d s w)"
  by (simp_all add: of_defs upd_defs dev_rest_def sm_scalars_def wp_scalars_def del: fold_of)

lemma counts_kept_upd [simp]:
  "counts_kept (dev_of m d) (dev_of (upd_sm d' s' fs m) d)"
  "counts_kept (dev_of m d) (dev_of (upd_wp d' s' w' fw m) d)"
  "counts_kept (dev_of m d) (dev_of (upd_ln d' s' w' l' fl m) d)"
  by (simp_all add: counts_kept_def)

lemma clears_do_effect: "clears {Eff a} m (do_effect a m)"
  by (intro clears_leaf) simp_all

lemma clears_upd_ln: "clears {Ln_flags d s w l} m (upd_ln d s w l clear_lane_flags m)"
  by (intro clears_leaf) auto

lemma clears_upd_wp: "clears {Wp_flags d s w} m (upd_wp d s w clear_warp_flags m)"
  by (intro clears_leaf) (auto simp: clear_warp_flags_def wp_scalars_def)

lemma clears_upd_sm: "clears {Sm_flags d s} m (upd_sm d s clear_sm_flags m)"
  by (intro clears_leaf) (auto simp: clear_sm_flags_def sm_scalars_def)

lemma clears_upd_dev: "clears {Dev_flags d} m (upd_dev d clear_dev_flags m)"
  by (intro clears_leaf) (auto simp: clear_dev_flags_def dev_rest_def counts_kept_def)

lemma clears_eq: "clears A m m' \<Longrightarrow> A = B \<Longrightarrow> clears B m m'"
  by simp

lemma for_loop_clears:
  assumes "for_loop is body m = Inr (u, m')"
    and "\<forall>x\<in>B. \<exists>a. x = Eff a"
    and "I m"
    and body: "\<And>i m1 m2. I m1 \<Longrightarrow> body i m1 = Inr ((), m2) \<Longrightarrow> clears (B \<union> F m2 i) m1 m2"
    and inv: "\<And>i m1 m2. I m1 \<Longrightarrow> body i m1 = Inr ((), m2) \<Longrightarrow> I m2"
    and stab: "\<And>i m1 m2 A m3. I m1 \<Longrightarrow> body i m1 = Inr ((), m2) \<Longrightarrow> clears A m2 m3 \<Longrightarrow> F m3 i = F m2 i"
  shows "clears (B \<union> (\<Union>i\<in>set is. F m' i)) m m' \<and> I m'"
  using assms(1,3)
proof (induction "is" arbitrary: m)
  case Nil
  then show ?case using clears_refl[OF assms(2)] by simp
next
  case (Cons i "is")
  from Cons.prems(1) obtain m1 where b: "body i m = Inr ((), m1)"
    and r: "for_loop is body m1 = Inr (u, m')"
    by (auto elim!: bindE_E)
  note 1 = body[OF Cons.prems(2) b] inv[OF Cons.prems(2) b]
  from Cons.IH[OF r 1(2)] have 5: "clears (B \<union> (\<Union>i\<in>set is. F m' i)) m1 m'" "I m'"
    by blast+
  have 6: "F m' i = F m1 i" by (rule stab[OF Cons.prems(2) b 5(1)])
  have "clears ((B \<union> F m1 i) \<union> (B \<union> (\<Union>i\<in>set is. F m' i))) m m'"
    by (rule clears_trans[OF 1(1) 5(1)])
  then have "clears (B \<union> (\<Union>i\<in>set (i # is). F m' i)) m m'"
    unfolding 6[symmetric] by (rule clears_eq) auto
  with 5(2) show ?case by blast
qed

lemma count_queries_eff: "\<forall>x\<in>count_queries. \<exists>a. x = Eff a"
  by (auto simp: count_queries_def)

lemma lane_invalidate_spec:
  assumes "lane_invalidate e d s w l m = Inr (u, m')"
  shows "clears (count_queries \<union> {Ln_flags d s w l}) m m'" and "ready_ln e m' d s w l"
proof -
  from assms obtain m1 where c: "check_ln e d s w l m = Inr ((), m1)"
    and m': "m' = upd_ln d s w l clear_lane_flags m1"
    unfolding lane_invalidate_def clear_lane_flags_def by (auto elim!: bindE_E)
  from clears_trans[OF check_ln_spec(1)[OF c] clears_upd_ln[of d s w l m1]]
  show "clears (count_queries \<union> {Ln_flags d s w l}) m m'" by (simp add: m')
  from check_ln_spec(2)[OF c] show "ready_ln e m' d s w l" by (simp add: m')
qed

lemma warp_invalidate_spec:
  assumes "warp_invalidate e d s w m = Inr (u, m')"
  shows "clears (count_queries \<union> warp_slots d s w (dev_num_lanes (dev_of m' d))) m m'"
    and "ready_wp e m' d s w" and "dev_num_lanes_p (dev_of m' d)"
proof -
  from assms obtain m1 n m2 m3 where c: "check_wp e d s w m = Inr ((), m1)"
    and g: "device_get_num_lanes e d m1 = Inr (n, m2)"
    and lp: "for_loop [0..<n] (lane_invalidate e d s w) m2 = Inr ((), m3)"
    and m': "m' = upd_wp d s w clear_warp_flags (upd_sm d s clear_sm_flags m3)"
    unfolding warp_invalidate_def clear_warp_flags_def clear_sm_flags_def by (auto elim!: bindE_E)
  note c1 = check_wp_spec[OF c]
  note g1 = device_get_num_lanes_spec[OF g]
  have r2: "ready_wp e m2 d s w" using ready_clears(3)[OF g1(1) c1(2)] .
  have "clears (count_queries \<union> (\<Union>i\<in>set [0..<n]. {Ln_flags d s w i})) m2 m3 \<and> True"
  proof (rule for_loop_clears[OF lp count_queries_eff, where I = "\<lambda>_. True" and F = "\<lambda>_ i. {Ln_flags d s w i}"])
    show "clears (count_queries \<union> {Ln_flags d s w i}) m1 m2" if "lane_invalidate e d s w i m1 = Inr ((), m2)" for i m1 m2
      using that by (rule lane_invalidate_spec(1))
  qed simp_all
  then have l3: "clears (count_queries \<union> {Ln_flags d s w l |l. l < n}) m2 m3"
    by (auto elim!: clears_eq)
  have n3: "dev_num_lanes_p (dev_of m3 d)" "dev_num_lanes (dev_of m3 d) = n"
    using clearsD(4)[OF l3, of d] g1(3,4) by (simp_all add: counts_kept_def)
  have n': "dev_num_lanes (dev_of m' d) = n" "dev_num_lanes_p (dev_of m' d)"
    using n3 by (simp_all add: m')
  show "dev_num_lanes_p (dev_of m' d)" by fact
  show "ready_wp e m' d s w"
    using ready_clears(3)[OF l3 r2] by (simp add: m')
  have "clears ((count_queries \<union> count_queries) \<union> ((count_queries \<union> {Ln_flags d s w l |l. l < n}) \<union> ({Sm_flags d s} \<union> {Wp_flags d s w}))) m m'"
    unfolding m'
    by (rule clears_trans[OF clears_trans[OF c1(1) g1(1)] clears_trans[OF l3 clears_trans[OF clears_upd_sm clears_upd_wp]]])
  then show "clears (count_queries \<union> warp_slots d s w (dev_num_lanes (dev_of m' d))) m m'"
    unfolding n' by (rule clears_eq) (auto simp: warp_slots_def)
qed

lemma for_loop_establish:
  assumes "for_loop is body m = Inr (u, m')" and "is \<noteq> []"
    and "\<And>i m1 m2. body i m1 = Inr ((), m2) \<Longrightarrow> Q m2"
  shows "Q m'"
  using assms(1,2)
proof (induction "is" arbitrary: m)
  case Nil
  then show ?case by simp
next
  case (Cons i "is")
  from Cons.prems(1) obtain m1 where b: "body i m = Inr ((), m1)"
    and r: "for_loop is body m1 = Inr (u, m')"
    by (auto elim!: bindE_E)
  show ?case
  proof (cases "is = []")
    case True
    with r have "m' = m1" by simp
    with assms(3)[OF b] show ?thesis by simp
  next
    case False
    from Cons.IH[OF r False] show ?thesis .
  qed
qed

lemma counts_keptD:
  assumes "clears A m m'"
  shows "dev_num_sms_p (dev_of m d) \<Longrightarrow> dev_num_sms_p (dev_of m' d) \<and> dev_num_sms (dev_of m' d) = dev_num_sms (dev_of m d)"
    and "dev_num_warps_p (dev_of m d) \<Longrightarrow> dev_num_warps_p (dev_of m' d) \<and> dev_num_warps (dev_of m' d) = dev_num_warps (dev_of m d)"
    and "dev_num_lanes_p (dev_of m d) \<Longrightarrow> dev_num_lanes_p (dev_of m' d) \<and> dev_num_lanes (dev_of m' d) = dev_num_lanes (dev_of m d)"
  using clearsD(4)[OF assms, of d] by (simp_all add: counts_kept_def)

lemma sm_invalidate_non_recursive_spec:
  assumes "sm_invalidate e d s NON_RECURSIVE m = Inr (u, m')"
  shows "clears (count_queries \<union> {Sm_flags d s}) m m'" and "ready_sm e m' d s"
proof -
  from assms obtain m1 where c: "check_sm e d s m = Inr ((), m1)"
    and m': "m' = upd_sm d s clear_sm_flags m1"
    unfolding sm_invalidate_def clear_sm_flags_def by (auto elim!: bindE_E)
  show "clears (count_queries \<union> {Sm_flags d s}) m m'"
    unfolding m' by (rule clears_trans[OF check_sm_spec(1)[OF c] clears_upd_sm])
  show "ready_sm e m' d s" using check_sm_spec(2)[OF c] by (simp add: m')
qed

lemma sm_invalidate_recursive_spec:
  assumes "sm_invalidate e d s RECURSIVE m = Inr (u, m')"
  shows "clears (count_queries \<union> sm_slots d s (dev_num_warps (dev_of m' d)) (dev_num_lanes (dev_of m' d))) m m'"
    and "ready_sm e m' d s" and "dev_num_warps_p (dev_of m' d)"
    and "0 < dev_num_warps (dev_of m' d) \<Longrightarrow> dev_num_lanes_p (dev_of m' d)"
proof -
  from assms obtain m1 n m2 m3 where c: "check_sm e d s m = Inr ((), m1)"
    and g: "device_get_num_warps e d m1 = Inr (n, m2)"
    and lp: "for_loop [0..<n] (warp_invalidate e d s) m2 = Inr ((), m3)"
    and m': "m' = upd_sm d s clear_sm_flags m3"
    unfolding sm_invalidate_def clear_sm_flags_def by (auto elim!: bindE_E)
  note c1 = check_sm_spec[OF c]
  note g1 = device_get_num_warps_spec[OF g]
  have r2: "ready_sm e m2 d s" using ready_clears(2)[OF g1(1) c1(2)] .
  let ?F = "\<lambda>m w. warp_slots d s w (dev_num_lanes (dev_of m d))"
  have "clears (count_queries \<union> (\<Union>i\<in>set [0..<n]. ?F m3 i)) m2 m3 \<and> True"
  proof (rule for_loop_clears[OF lp count_queries_eff, where I = "\<lambda>_. True" and F = ?F])
    show "clears (count_queries \<union> ?F m2 i) m1 m2" if "warp_invalidate e d s i m1 = Inr ((), m2)" for i m1 m2
      using that by (rule warp_invalidate_spec(1))
    show "?F m3 i = ?F m2 i" if "warp_invalidate e d s i m1 = Inr ((), m2)" "clears A m2 m3" for i m1 m2 A m3
      using counts_keptD(3)[OF that(2) warp_invalidate_spec(3)[OF that(1)]] by simp
  qed simp_all
  then have l3: "clears (count_queries \<union> (\<Union>i\<in>set [0..<n]. ?F m3 i)) m2 m3" by simp
  have n3: "dev_num_warps_p (dev_of m3 d)" "dev_num_warps (dev_of m3 d) = n"
    using counts_keptD(2)[OF l3 g1(3)] g1(4) by simp_all
  have n': "dev_num_warps (dev_of m' d) = n" "dev_num_warps_p (dev_of m' d)"
    "dev_num_lanes (dev_of m' d) = dev_num_lanes (dev_of m3 d)"
    using n3 by (simp_all add: m')
  show "dev_num_warps_p (dev_of m' d)" by fact
  show "ready_sm e m' d s"
    using ready_clears(2)[OF l3 r2] by (simp add: m')
  show "dev_num_lanes_p (dev_of m' d)" if "0 < dev_num_warps (dev_of m' d)"
  proof -
    have "[0..<n] \<noteq> []" using that n'(1) by simp
    from for_loop_establish[OF lp this, where Q = "\<lambda>m. dev_num_lanes_p (dev_of m d)"]
    have "dev_num_lanes_p (dev_of m3 d)" using warp_invalidate_spec(3) by blast
    then show ?thesis by (simp add: m')
  qed
  have "clears ((count_queries \<union> count_queries) \<union> ((count_queries \<union> (\<Union>i\<in>set [0..<n]. ?F m3 i)) \<union> {Sm_flags d s})) m m'"
    unfolding m'
    by (rule clears_trans[OF clears_trans[OF c1(1) g1(1)] clears_trans[OF l3 clears_upd_sm]])
  then show "clears (count_queries \<union> sm_slots d s (dev_num_warps (dev_of m' d)) (dev_num_lanes (dev_of m' d))) m m'"
    unfolding n' by (rule clears_eq) (auto simp: warp_slots_def sm_slots_def)
qed

lemma device_invalidate_kernels_spec:
  assumes "device_invalidate_kernels e d m = Inr (u, m')"
  shows "clears (count_queries \<union> {Eff Kernels_invalidate}) m m'" and "ready_dev e m' d"
proof -
  from assms obtain m1 where c: "check_dev e d m = Inr ((), m1)"
    and m': "m' = do_effect Kernels_invalidate m1"
    unfolding device_invalidate_kernels_def by (auto elim!: bindE_E)
  show "clears (count_queries \<union> {Eff Kernels_invalidate}) m m'"
    unfolding m' by (rule clears_trans[OF check_dev_spec(1)[OF c] clears_do_effect])
  show "ready_dev e m' d" using check_dev_spec(2)[OF c] by (simp add: m')
qed

lemma device_invalidate_spec:
  assumes "device_invalidate e d m = Inr (u, m')"
  shows "clears (count_queries \<union> device_slots d (dev_num_sms (dev_of m' d))
           (dev_num_warps (dev_of m' d)) (dev_num_lanes (dev_of m' d))) m m'"
    and "ready_dev e m' d" and "dev_num_sms_p (dev_of m' d)"
    and "0 < dev_num_sms (dev_of m' d) \<Longrightarrow> dev_num_warps_p (dev_of m' d)"
    and "0 < dev_num_sms (dev_of m' d) \<Longrightarrow> 0 < dev_num_warps (dev_of m' d) \<Longrightarrow> dev_num_lanes_p (dev_of m' d)"
proof -
  from assms obtain m1 n m2 m3 m4 where c: "check_dev e d m = Inr ((), m1)"
    and g: "device_get_num_sms e d m1 = Inr (n, m2)"
    and lp: "for_loop [0..<n] (\<lambda>s. sm_invalidate e d s RECURSIVE) m2 = Inr ((), m3)"
    and k: "device_invalidate_kernels e d m3 = Inr ((), m4)"
    and m': "m' = upd_dev d clear_dev_flags m4"
    unfolding device_invalidate_def clear_dev_flags_def by (auto elim!: bindE_E)
  note c1 = check_dev_spec[OF c]
  note g1 = device_get_num_sms_spec[OF g]
  note k1 = device_invalidate_kernels_spec[OF k]
  let ?F = "\<lambda>m s. sm_slots d s (dev_num_warps (dev_of m d)) (dev_num_lanes (dev_of m d))"
  have "clears (count_queries \<union> (\<Union>i\<in>set [0..<n]. ?F m3 i)) m2 m3 \<and> True"
  proof (rule for_loop_clears[OF lp count_queries_eff, where I = "\<lambda>_. True" and F = ?F])
    show "clears (count_queries \<union> ?F m2 i) m1 m2" if "sm_invalidate e d i RECURSIVE m1 = Inr ((), m2)" for i m1 m2
      using that by (rule sm_invalidate_recursive_spec(1))
    show "?F m3 i = ?F m2 i" if "sm_invalidate e d i RECURSIVE m1 = Inr ((), m2)" "clears A m2 m3" for i m1 m2 A m3
    proof (cases "0 < dev_num_warps (dev_of m2 d)")
      case True
      from counts_keptD(2)[OF that(2) sm_invalidate_recursive_spec(3)[OF that(1)]]
        counts_keptD(3)[OF that(2) sm_invalidate_recursive_spec(4)[OF that(1) True]]
      show ?thesis by simp
    next
      case False
      from counts_keptD(2)[OF that(2) sm_invalidate_recursive_spec(3)[OF that(1)]] False
      show ?thesis by (auto simp: sm_slots_def)
    qed
  qed simp_all
  then have l3: "clears (count_queries \<union> (\<Union>i\<in>set [0..<n]. ?F m3 i)) m2 m3" by simp
  have n3: "dev_num_sms_p (dev_of m3 d)" "dev_num_sms (dev_of m3 d) = n"
    using counts_keptD(1)[OF l3 g1(3)] g1(4) by simp_all
  have n4: "dev_num_sms_p (dev_of m4 d)" "dev_num_sms (dev_of m4 d) = n"
    using counts_keptD(1)[OF k1(1) n3(1)] n3(2) by simp_all
  have n': "dev_num_sms (dev_of m' d) = n" "dev_num_sms_p (dev_of m' d)"
    using n4 by (simp_all add: m' clear_dev_flags_def)
  show "dev_num_sms_p (dev_of m' d)" by fact
  show "ready_dev e m' d"
    using k1(2) by (simp add: m' ready_dev_def)
  have w3: "dev_num_warps_p (dev_of m3 d) \<and> (0 < dev_num_warps (dev_of m3 d) \<longrightarrow> dev_num_lanes_p (dev_of m3 d))"
    if "0 < n"
  proof -
    have "[0..<n] \<noteq> []" using that by simp
    from for_loop_establish[OF lp this, where Q = "\<lambda>m. dev_num_warps_p (dev_of m d) \<and> (0 < dev_num_warps (dev_of m d) \<longrightarrow> dev_num_lanes_p (dev_of m d))"]
    show ?thesis using sm_invalidate_recursive_spec(3,4) by blast
  qed
  have keep: "dev_num_warps_p (dev_of m3 d) \<Longrightarrow> dev_num_warps_p (dev_of m' d) \<and> dev_num_warps (dev_of m' d) = dev_num_warps (dev_of m3 d)"
    "dev_num_lanes_p (dev_of m3 d) \<Longrightarrow> dev_num_lanes_p (dev_of m' d) \<and> dev_num_lanes (dev_of m' d) = dev_num_lanes (dev_of m3 d)"
    using counts_keptD(2,3)[OF k1(1), of d] by (simp_all add: m' clear_dev_flags_def)
  show "dev_num_warps_p (dev_of m' d)" if "0 < dev_num_sms (dev_of m' d)"
    using w3 keep(1) that n'(1) by simp
  show "dev_num_lanes_p (dev_of m' d)" if "0 < dev_num_sms (dev_of m' d)" "0 < dev_num_warps (dev_of m' d)"
    using w3 keep that n'(1) by simp
  have F': "(\<Union>i\<in>set [0..<n]. ?F m3 i) = (\<Union>i\<in>set [0..<n]. ?F m' i)"
  proof (cases "0 < n")
    case False
    then show ?thesis by simp
  next
    case True
    show ?thesis
    proof (cases "0 < dev_num_warps (dev_of m3 d)")
      case w: True
      with w3[OF True] keep show ?thesis by simp
    next
      case False
      with w3[OF True] keep(1) show ?thesis by (auto simp: sm_slots_def)
    qed
  qed
  have "clears ((count_queries \<union> count_queries) \<union> ((count_queries \<union> (\<Union>i\<in>set [0..<n]. ?F m3 i)) \<union>
          ((count_queries \<union> {Eff Kernels_invalidate}) \<union> {Dev_flags d}))) m m'"
    unfolding m'
    by (rule clears_trans[OF clears_trans[OF c1(1) g1(1)] clears_trans[OF l3 clears_trans[OF k1(1) clears_upd_dev]]])
  then show "clears (count_queries \<union> device_slots d (dev_num_sms (dev_of m' d))
           (dev_num_warps (dev_of m' d)) (dev_num_lanes (dev_of m' d))) m m'"
    unfolding n' F' by (rule clears_eq) (auto simp: sm_slots_def device_slots_def)
qed

lemma clears_dev:
  assumes "clears A m m'"
  shows "dev_num_registers_p (dev_of m' d) = dev_num_registers_p (dev_of m d)"
    and "dev_dev_type_p (dev_of m' d) = dev_dev_type_p (dev_of m d)"
    and "dev_sm_type_p (dev_of m' d) = dev_sm_type_p (dev_of m d)"
    and "dev_valid (dev_of m' d) = dev_valid (dev_of m d)"
    and "dev_suspended (dev_of m' d) = dev_suspended (dev_of m d)"
    and "dev_dev_type (dev_of m' d) = dev_dev_type (dev_of m d)"
    and "dev_sm_type (dev_of m' d) = dev_sm_type (dev_of m d)"
    and "dev_num_registers (dev_of m' d) = dev_num_registers (dev_of m d)"
    and "dev_valid_p (dev_of m' d) = (Dev_flags d \<notin> A \<and> dev_valid_p (dev_of m d))"
    and "dev_filter_exception_state_p (dev_of m' d) = (Dev_flags d \<notin> A \<and> dev_filter_exception_state_p (dev_of m d))"
    and "dev_contexts (dev_of m' d) = dev_contexts (dev_of m d)"
  using dev_restD[OF clearsD(3)[OF assms, of d]]
  by (auto simp: clear_dev_flags_def)

lemma clears_sm:
  assumes "clears A m m'"
  shows "sm_valid_warps_mask (sm_of m' d s) = sm_valid_warps_mask (sm_of m d s)"
    and "sm_broken_warps_mask (sm_of m' d s) = sm_broken_warps_mask (sm_of m d s)"
    and "sm_valid_warps_mask_p (sm_of m' d s) = (Sm_flags d s \<notin> A \<and> sm_valid_warps_mask_p (sm_of m d s))"
    and "sm_broken_warps_mask_p (sm_of m' d s) = (Sm_flags d s \<notin> A \<and> sm_broken_warps_mask_p (sm_of m d s))"
  using sm_scalarsD[OF clearsD(5)[OF assms, of d s]]
  by (auto simp: clear_sm_flags_def)

lemma clears_wp:
  assumes "clears A m m'"
  shows "wp_valid (wp_of m' d s w) = wp_valid (wp_of m d s w)"
    and "wp_broken (wp_of m' d s w) = wp_broken (wp_of m d s w)"
    and "wp_block_idx (wp_of m' d s w) = wp_block_idx (wp_of m d s w)"
    and "wp_kernel (wp_of m' d s w) = wp_kernel (wp_of m d s w)"
    and "wp_grid_id (wp_of m' d s w) = wp_grid_id (wp_of m d s w)"
    and "wp_valid_lanes_mask (wp_of m' d s w) = wp_valid_lanes_mask (wp_of m d s w)"
    and "wp_active_lanes_mask (wp_of m' d s w) = wp_active_lanes_mask (wp_of m d s w)"
    and "wp_timestamp (wp_of m' d s w) = wp_timestamp (wp_of m d s w)"
    and "wp_valid_p (wp_of m' d s w) = (Wp_flags d s w \<notin> A \<and> wp_valid_p (wp_of m d s w))"
    and "wp_broken_p (wp_of m' d s w) = (Wp_flags d s w \<notin> A \<and> wp_broken_p (wp_of m d s w))"
    and "wp_block_idx_p (wp_of m' d s w) = (Wp_flags d s w \<notin> A \<and> wp_block_idx_p (wp_of m d s w))"
    and "wp_kernel_p (wp_of m' d s w) = (Wp_flags d s w \<notin> A \<and> wp_kernel_p (wp_of m d s w))"
    and "wp_grid_id_p (wp_of m' d s w) = (Wp_flags d s w \<notin> A \<and> wp_grid_id_p (wp_of m d s w))"
    and "wp_valid_lanes_mask_p (wp_of m' d s w) = (Wp_flags d s w \<notin> A \<and> wp_valid_lanes_mask_p (wp_of m d s w))"
    and "wp_active_lanes_mask_p (wp_of m' d s w) = (Wp_flags d s w \<notin> A \<and> wp_active_lanes_mask_p (wp_of m d s w))"
    and "wp_timestamp_p (wp_of m' d s w) = (Wp_flags d s w \<notin> A \<and> wp_timestamp_p (wp_of m d s w))"
  using wp_scalarsD[OF clearsD(6)[OF assms, of d s w]]
  by (auto simp: clear_warp_flags_def)

lemma clears_ln:
  assumes "clears A m m'"
  shows "ln_thread_idx (ln_of m' d s w l) = ln_thread_idx (ln_of m d s w l)"
    and "ln_pc (ln_of m' d s w l) = ln_pc (ln_of m d s w l)"
    and "ln_exception (ln_of m' d s w l) = ln_exception (ln_of m d s w l)"
    and "ln_virtual_pc (ln_of m' d s w l) = ln_virtual_pc (ln_of m d s w l)"
    and "ln_timestamp (ln_of m' d s w l) = ln_timestamp (ln_of m d s w l)"
    and "ln_thread_idx_p (ln_of m' d s w l) = (Ln_flags d s w l \<notin> A \<and> ln_thread_idx_p (ln_of m d s w l))"
    and "ln_pc_p (ln_of m' d s w l) = (Ln_flags d s w l \<notin> A \<and> ln_pc_p (ln_of m d s w l))"
    and "ln_exception_p (ln_of m' d s w l) = (Ln_flags d s w l \<notin> A \<and> ln_exception_p (ln_of m d s w l))"
    and "ln_virtual_pc_p (ln_of m' d s w l) = (Ln_flags d s w l \<notin> A \<and> ln_virtual_pc_p (ln_of m d s w l))"
    and "ln_timestamp_p (ln_of m' d s w l) = (Ln_flags d s w l \<notin> A \<and> ln_timestamp_p (ln_of m d s w l))"
  using clearsD(7)[OF assms, of d s w l]
  by (auto simp: clear_lane_flags_def)

lemma zero_of [simp]:
  "cuda_system_info zero_mirror = zero_system" "effects zero_mirror = []"
  "dev_of zero_mirror d = zero_device" "sm_of zero_mirror d s = zero_sm"
  "wp_of zero_mirror d s w = zero_warp" "ln_of zero_mirror d s w l = zero_lane"
  by (simp_all add: zero_mirror_def zero_system_def zero_device_def zero_sm_def zero_warp_def of_defs del: fold_of)

lemma upt_unfold [simp]: "[i..<numeral n] = (if i < numeral n then i # [Suc i..<numeral n] else [])"
  "[i..<Suc j] = (if i < Suc j then i # [Suc i..<Suc j] else [])"
  by (simp_all add: upt_rec)

lemmas mirror_defs = device_resume_def device_suspend_def device_invalidate_def
  device_invalidate_kernels_def sm_invalidate_def warp_invalidate_def lane_invalidate_def
  check_dev_def check_sm_def check_wp_def check_ln_def cuda_system_get_num_devices_def
  device_get_num_sms_def device_get_num_warps_def device_get_num_lanes_def ret_def


lemma device_invalidated_clears:
  assumes "clears (count_queries \<union> device_slots d (dev_num_sms (dev_of m' d))
           (dev_num_warps (dev_of m' d)) (dev_num_lanes (dev_of m' d))) m m'"
  shows "device_invalidated m' d"
  unfolding device_invalidated_def lane_flags_clear_def warp_flags_clear_def sm_flags_clear_def
  by (simp add: clears_dev[OF assms] clears_sm[OF assms] clears_wp[OF assms] clears_ln[OF assms])

lemma device_invalidated_upd [simp]:
  "device_invalidated (do_effect a m) d = device_invalidated m d"
  "device_invalidated (upd_dev d' (\<lambda>x. x\<lparr>dev_suspended := b\<rparr>) m) d = device_invalidated m d"
  "device_invalidated (upd_sys (\<lambda>y. y\<lparr>sys_suspended_devices_mask := k y\<rparr>) m) d = device_invalidated m d"
  by (simp_all add: device_invalidated_def)

lemma outcome_InrD: "outcome f r = Inr v \<Longrightarrow> \<exists>a m. r = Inr (a, m) \<and> f m = v"
  by (auto simp: outcome_def split: sum.splits)

lemmas demo_defs = outcome_def mirror_defs env_demo_def zero_system_def zero_device_def
  zero_sm_def zero_warp_def zero_lane_def Let_def

subsection \<open>Single step\<close>

lemma push_bit_and_neq_0: "(push_bit i 1 AND (x :: 'a::len word) \<noteq> 0) = bit x i"
proof -
  have "(push_bit i 1 AND x = 0) = (\<not> bit x i)"
  proof
    assume "push_bit i 1 AND x = 0"
    then have "\<not> bit (push_bit i 1 AND x) i" by simp
    then show "\<not> bit x i" by (auto simp: bit_simps dest: bit_imp_le_length)
  next
    assume n: "\<not> bit x i"
    show "push_bit i 1 AND x = 0"
      by (rule bit_eqI) (use n in \<open>auto simp: bit_simps\<close>)
  qed
  then show ?thesis by simp
qed

lemma two_power_and_0 [simp]: "(2 ^ i AND (x :: 'a::len word) = 0) = (\<not> bit x i)"
  using push_bit_and_neq_0[of i x] by auto

lemma only_bit:
  assumes "(x :: 'a::len word) AND NOT (push_bit w 1) = 0" and "bit x i"
  shows "i = w"
proof (rule ccontr)
  assume "i \<noteq> w"
  with assms(2) have "bit (x AND NOT (push_bit w 1)) i"
    by (auto simp: bit_simps dest: bit_imp_le_length)
  with assms(1) show False by simp
qed

lemma other_bit:
  assumes "(x :: 'a::len word) AND NOT (push_bit w 1) \<noteq> 0"
  shows "\<exists>i. i \<noteq> w \<and> bit x i"
proof (rule ccontr)
  assume a: "\<not> (\<exists>i. i \<noteq> w \<and> bit x i)"
  have "x AND NOT (push_bit w 1) = 0"
    by (rule bit_eqI) (use a in \<open>auto simp: bit_simps\<close>)
  with assms show False by simp
qed

lemma effects_after:
  assumes "clears A m m'"
  shows "\<exists>tr. effects m' = effects m @ tr \<and> (\<forall>a\<in>set tr. Eff a \<in> A)"
  using clearsD(8)[OF assms] by (auto simp: list_all_iff)

lemma stepped_loop:
  assumes lp: "for_loop [0..<n]
      (\<lambda>i m5. if push_bit i 1 AND (stepped :: 64 word) \<noteq> 0 then warp_invalidate e d s i m5 else ret () m5) m = Inr (u, m')"
  shows "clears (count_queries \<union> (\<Union>i\<in>set [0..<n].
           if bit stepped i then warp_slots d s i (dev_num_lanes (dev_of m' d)) else {})) m m'"
proof -
  let ?F = "\<lambda>m i. if bit stepped i then warp_slots d s i (dev_num_lanes (dev_of m d)) else {}"
  let ?body = "\<lambda>i m5. if push_bit i 1 AND stepped \<noteq> 0 then warp_invalidate e d s i m5 else ret () m5"
  have "clears (count_queries \<union> (\<Union>i\<in>set [0..<n]. ?F m' i)) m m' \<and> True"
  proof (rule for_loop_clears[OF lp count_queries_eff, where I = "\<lambda>_. True" and F = ?F])
    show "clears (count_queries \<union> ?F m2 i) m1 m2" if "?body i m1 = Inr ((), m2)" for i m1 m2
      using that warp_invalidate_spec(1)[of e d s i m1 "()" m2]
      by (auto simp: push_bit_and_neq_0 split: if_splits)
    show "?F m3 i = ?F m2 i" if "?body i m1 = Inr ((), m2)" "clears A m2 m3" for i m1 m2 A m3
    proof (cases "bit stepped i")
      case True
      with that(1) have "warp_invalidate e d s i m1 = Inr ((), m2)"
        by (simp add: push_bit_and_neq_0)
      from counts_keptD(3)[OF that(2) warp_invalidate_spec(3)[OF this]] show ?thesis by simp
    next
      case False
      then show ?thesis by simp
    qed
  qed simp_all
  then show ?thesis by simp
qed

lemma device_invalidated_covered:
  assumes "clears A m m'"
    and "device_slots d (dev_num_sms (dev_of m' d)) (dev_num_warps (dev_of m' d))
           (dev_num_lanes (dev_of m' d)) \<subseteq> A"
  shows "device_invalidated m' d"
proof -
  have "Dev_flags d \<in> A" using assms(2) by (auto simp: device_slots_def)
  moreover have "Sm_flags d s \<in> A" if "s < dev_num_sms (dev_of m' d)" for s
    using assms(2) that by (auto simp: device_slots_def)
  moreover have "Wp_flags d s w \<in> A"
    if "s < dev_num_sms (dev_of m' d)" "w < dev_num_warps (dev_of m' d)" for s w
    using assms(2) that by (auto simp: device_slots_def)
  moreover have "Ln_flags d s w l \<in> A"
    if "s < dev_num_sms (dev_of m' d)" "w < dev_num_warps (dev_of m' d)" "l < dev_num_lanes (dev_of m' d)" for s w l
    using assms(2) that by (auto simp: device_slots_def)
  ultimately show ?thesis
    unfolding device_invalidated_def lane_flags_clear_def warp_flags_clear_def sm_flags_clear_def
    by (simp add: clears_dev[OF assms(1)] clears_sm[OF assms(1)] clears_wp[OF assms(1)] clears_ln[OF assms(1)])
qed

lemma stepped_body_keeps:
  assumes "(if push_bit i 1 AND (stepped :: 64 word) \<noteq> 0 then warp_invalidate e d s i m1 else ret () m1) = Inr ((), m2)"
    and "dev_num_lanes_p (dev_of m1 d)"
  shows "dev_num_lanes_p (dev_of m2 d)"
proof (cases "bit stepped i")
  case True
  with assms(1) have "warp_invalidate e d s i m1 = Inr ((), m2)" by simp
  from warp_invalidate_spec(3)[OF this] show ?thesis .
next
  case False
  with assms show ?thesis by simp
qed

lemma stepped_loop_latches:
  assumes "for_loop is (\<lambda>i m5. if push_bit i 1 AND (stepped :: 64 word) \<noteq> 0
              then warp_invalidate e d s i m5 else ret () m5) m = Inr (u, m')"
    and "w \<in> set is" and "bit stepped w"
  shows "dev_num_lanes_p (dev_of m' d)"
  using assms(1,2)
proof (induction "is" arbitrary: m)
  case Nil
  then show ?case by simp
next
  case (Cons i "is")
  let ?body = "\<lambda>i m5. if push_bit i 1 AND stepped \<noteq> 0 then warp_invalidate e d s i m5 else ret () m5"
  from Cons.prems(1) obtain m1 where b: "?body i m = Inr ((), m1)"
    and r: "for_loop is ?body m1 = Inr (u, m')"
    by (auto elim!: bindE_E)
  show ?case
  proof (cases "i = w")
    case True
    with b assms(3) have "warp_invalidate e d s w m = Inr ((), m1)" by simp
    from warp_invalidate_spec(3)[OF this] have "dev_num_lanes_p (dev_of m1 d)" .
    from for_loop_rule[OF r, where P = "\<lambda>m. dev_num_lanes_p (dev_of m d)", OF this]
    show ?thesis using stepped_body_keeps by blast
  next
    case False
    with Cons.prems(2) have "w \<in> set is" by simp
    from Cons.IH[OF r this] show ?thesis .
  qed
qed

lemma new_effects_mem:
  assumes "effects m1 = effects m @ t0" and "effects m' = effects m1 @ a # t1"
  shows "a \<in> set (new_effects m m')"
  using assms by (simp add: new_effects_def)

lemma new_effects_bound:
  assumes "clears A m m'" and "a \<in> set (new_effects m m')"
  shows "Eff a \<in> A"
  using effects_after[OF assms(1)] assms(2) by (auto simp: new_effects_def)

lemma warp_single_step_cases:
  assumes "warp_single_step e d s w m = Inr (stepped, m')"
  obtains m1 where "check_wp e d s w m = Inr ((), m1)" "stepped = api_single_step_warp e d s w"
    "cuda_options_software_preemption e"
    "device_invalidate e d (do_effect (Api_single_step_warp d s w) m1) = Inr ((), m')"
  | m1 m3 n m4 m5 where "check_wp e d s w m = Inr ((), m1)" "stepped = api_single_step_warp e d s w"
    "\<not> cuda_options_software_preemption e" "stepped AND NOT (push_bit w 1) \<noteq> 0"
    "device_invalidate e d (do_effect single_step_warning (do_effect (Api_single_step_warp d s w) m1)) = Inr ((), m3)"
    "device_get_num_warps e d m3 = Inr (n, m4)"
    "for_loop [0..<n] (\<lambda>i m5. if push_bit i 1 AND stepped \<noteq> 0 then warp_invalidate e d s i m5 else ret () m5) m4 = Inr ((), m5)"
    "sm_invalidate e d s NON_RECURSIVE m5 = Inr ((), m')"
  | m1 n m4 m5 where "check_wp e d s w m = Inr ((), m1)" "stepped = api_single_step_warp e d s w"
    "\<not> cuda_options_software_preemption e" "stepped AND NOT (push_bit w 1) = 0"
    "device_get_num_warps e d (do_effect (Api_single_step_warp d s w) m1) = Inr (n, m4)"
    "for_loop [0..<n] (\<lambda>i m5. if push_bit i 1 AND stepped \<noteq> 0 then warp_invalidate e d s i m5 else ret () m5) m4 = Inr ((), m5)"
    "sm_invalidate e d s NON_RECURSIVE m5 = Inr ((), m')"
proof -
  let ?a = "Api_single_step_warp d s w"
  let ?st = "api_single_step_warp e d s w"
  let ?lp = "\<lambda>n m4. bindE (for_loop [0..<n]
                        (\<lambda>i m5. if push_bit i 1 AND ?st \<noteq> 0
                                  then warp_invalidate e d s i m5 else ret () m5) m4) (\<lambda>_.
               sm_invalidate e d s NON_RECURSIVE)"
  let ?inner = "\<lambda>m1. (if cuda_options_software_preemption e then device_invalidate e d (do_effect ?a m1)
             else
               bindE (if ?st AND NOT (push_bit w 1) \<noteq> 0
                      then device_invalidate e d
                             (do_effect (Warning ''Warp(s) other than the current warp had to be single-stepped.'') (do_effect ?a m1))
                      else ret () (do_effect ?a m1)) (\<lambda>_ m3.
               bindE (device_get_num_warps e d m3) ?lp))"
  from assms have "bindE (check_wp e d s w m) (\<lambda>_ m1. bindE (?inner m1) (\<lambda>_. ret ?st)) = Inr (stepped, m')"
    unfolding warp_single_step_def Let_def .
  then obtain a m1 where c0: "check_wp e d s w m = Inr (a, m1)"
    and r: "bindE (?inner m1) (\<lambda>_. ret ?st) = Inr (stepped, m')"
    by (rule bindE_E)
  from c0 have c: "check_wp e d s w m = Inr ((), m1)" by simp
  from r obtain u m9 where r2: "?inner m1 = Inr (u, m9)" and "ret ?st m9 = Inr (stepped, m')"
    by (rule bindE_E)
  then have st: "stepped = ?st" and m9: "m9 = m'" by (simp_all add: ret_def)
  show ?thesis
  proof (cases "cuda_options_software_preemption e")
    case True
    with r2 c st that(1) show ?thesis by (simp add: m9)
  next
    case False
    show ?thesis
    proof (cases "api_single_step_warp e d s w AND NOT (push_bit w 1) \<noteq> 0")
      case True
      with r2 \<open>\<not> cuda_options_software_preemption e\<close> obtain m3 n m4 m5 where
        "device_invalidate e d (do_effect single_step_warning (do_effect (Api_single_step_warp d s w) m1)) = Inr ((), m3)"
        "device_get_num_warps e d m3 = Inr (n, m4)"
        "for_loop [0..<n] (\<lambda>i m5. if push_bit i 1 AND api_single_step_warp e d s w \<noteq> 0 then warp_invalidate e d s i m5 else ret () m5) m4 = Inr ((), m5)"
        "sm_invalidate e d s NON_RECURSIVE m5 = Inr ((), m')"
        unfolding single_step_warning_def m9
        by (simp only: if_False if_True) (elim bindE_E, auto)
      with c st False True that(2) show ?thesis by simp
    next
      case zero: False
      with r2 \<open>\<not> cuda_options_software_preemption e\<close> obtain n m4 m5 where
        "device_get_num_warps e d (do_effect (Api_single_step_warp d s w) m1) = Inr (n, m4)"
        "for_loop [0..<n] (\<lambda>i m5. if push_bit i 1 AND api_single_step_warp e d s w \<noteq> 0 then warp_invalidate e d s i m5 else ret () m5) m4 = Inr ((), m5)"
        "sm_invalidate e d s NON_RECURSIVE m5 = Inr ((), m')"
        unfolding m9
        by (simp only: if_False if_True) (elim bindE_E, auto simp: ret_def)
      with c st False zero that(3) show ?thesis by simp
    qed
  qed
qed

lemma effects_do_effect_app: "effects (do_effect a m) = effects m @ [a]"
  by (simp add: do_effect_def)

lemma clears_new_effects:
  assumes "clears A m m1" and "clears B (do_effect a m1) m'"
  shows "a \<in> set (new_effects m m')"
proof -
  from effects_after[OF assms(1)] obtain t0 where 0: "effects m1 = effects m @ t0" by blast
  from effects_after[OF assms(2)] obtain t1 where "effects m' = effects (do_effect a m1) @ t1" by blast
  then have "effects m' = effects m1 @ a # t1" by (simp add: effects_do_effect_app)
  from new_effects_mem[OF 0 this] show ?thesis .
qed

lemma single_step_warning_slots [simp]:
  "Eff single_step_warning \<notin> count_queries"
  "Eff single_step_warning \<notin> device_slots d ns nw nl"
  "Eff single_step_warning \<notin> stepped_slots d s x nl"
  "single_step_warning \<noteq> Api_single_step_warp d s w"
  "Eff (Api_single_step_warp d s w) \<notin> count_queries"
  "\<not> is_count_query single_step_warning"
  "single_step_warning \<noteq> Kernels_invalidate"
  by (auto simp: single_step_warning_def count_queries_def device_slots_def stepped_slots_def)

lemma warp_single_step_preempt:
  assumes c: "check_wp e d s w m = Inr ((), m1)"
    and i: "device_invalidate e d (do_effect (Api_single_step_warp d s w) m1) = Inr ((), m')"
  shows "clears (count_queries \<union> {Eff (Api_single_step_warp d s w)} \<union>
           device_slots d (dev_num_sms (dev_of m' d)) (dev_num_warps (dev_of m' d)) (dev_num_lanes (dev_of m' d))) m m'"
    and "Api_single_step_warp d s w \<in> set (new_effects m m')"
proof -
  note c1 = check_wp_spec[OF c]
  note i1 = device_invalidate_spec[OF i]
  from clears_trans[OF clears_trans[OF c1(1) clears_do_effect] i1(1)]
  show "clears (count_queries \<union> {Eff (Api_single_step_warp d s w)} \<union>
           device_slots d (dev_num_sms (dev_of m' d)) (dev_num_warps (dev_of m' d)) (dev_num_lanes (dev_of m' d))) m m'"
    by (rule clears_eq) auto
  from clears_new_effects[OF c1(1) i1(1)] show "Api_single_step_warp d s w \<in> set (new_effects m m')" .
qed

lemma warp_single_step_others:
  fixes stepped :: "64 word"
  assumes c: "check_wp e d s w m = Inr ((), m1)"
    and i: "device_invalidate e d (do_effect single_step_warning (do_effect (Api_single_step_warp d s w) m1)) = Inr ((), m3)"
    and g: "device_get_num_warps e d m3 = Inr (n, m4)"
    and lp: "for_loop [0..<n] (\<lambda>i m5. if push_bit i 1 AND stepped \<noteq> 0 then warp_invalidate e d s i m5 else ret () m5) m4 = Inr ((), m5)"
    and si: "sm_invalidate e d s NON_RECURSIVE m5 = Inr ((), m')"
  shows "clears (count_queries \<union> {Eff (Api_single_step_warp d s w), Eff single_step_warning} \<union>
           device_slots d (dev_num_sms (dev_of m' d)) (dev_num_warps (dev_of m' d)) (dev_num_lanes (dev_of m' d))) m m'"
    and "Api_single_step_warp d s w \<in> set (new_effects m m')"
    and "single_step_warning \<in> set (new_effects m m')"
proof -
  let ?a = "Api_single_step_warp d s w"
  note c1 = check_wp_spec[OF c]
  note i1 = device_invalidate_spec[OF i]
  note g1 = device_get_num_warps_spec[OF g]
  note l1 = stepped_loop[OF lp]
  note s1 = sm_invalidate_non_recursive_spec[OF si]
  have r1: "dev_num_sms_p (dev_of m1 d)" "s < dev_num_sms (dev_of m1 d)"
    "dev_num_warps_p (dev_of m1 d)" "w < dev_num_warps (dev_of m1 d)"
    using c1(2) by (simp_all add: ready_wp_def ready_sm_def)
  have c13: "clears ({Eff ?a} \<union> ({Eff single_step_warning} \<union> (count_queries \<union>
      device_slots d (dev_num_sms (dev_of m3 d)) (dev_num_warps (dev_of m3 d)) (dev_num_lanes (dev_of m3 d))))) m1 m3"
    by (rule clears_trans[OF clears_do_effect clears_trans[OF clears_do_effect i1(1)]])
  have r3: "dev_num_sms (dev_of m3 d) = dev_num_sms (dev_of m1 d)"
    "dev_num_warps (dev_of m3 d) = dev_num_warps (dev_of m1 d)"
    using counts_keptD(1)[OF c13 r1(1)] counts_keptD(2)[OF c13 r1(3)] by simp_all
  have p3: "dev_num_sms_p (dev_of m3 d)" "dev_num_warps_p (dev_of m3 d)" "dev_num_lanes_p (dev_of m3 d)"
    using i1(3) i1(4) i1(5) r3 r1 by simp_all
  have c35: "clears (count_queries \<union> (count_queries \<union> (\<Union>i\<in>set [0..<n].
           if bit stepped i then warp_slots d s i (dev_num_lanes (dev_of m5 d)) else {}))) m3 m5"
    by (rule clears_trans[OF g1(1) l1])
  have c3': "clears ((count_queries \<union> (count_queries \<union> (\<Union>i\<in>set [0..<n].
           if bit stepped i then warp_slots d s i (dev_num_lanes (dev_of m5 d)) else {}))) \<union>
           (count_queries \<union> {Sm_flags d s})) m3 m'"
    by (rule clears_trans[OF c35 s1(1)])
  have r': "dev_num_sms (dev_of m' d) = dev_num_sms (dev_of m3 d)"
    "dev_num_warps (dev_of m' d) = dev_num_warps (dev_of m3 d)"
    "dev_num_lanes (dev_of m' d) = dev_num_lanes (dev_of m3 d)"
    using counts_keptD(1)[OF c3' p3(1)] counts_keptD(2)[OF c3' p3(2)] counts_keptD(3)[OF c3' p3(3)]
    by simp_all
  have r5: "dev_num_lanes (dev_of m5 d) = dev_num_lanes (dev_of m3 d)"
    using counts_keptD(3)[OF c35 p3(3)] by simp
  have n: "n = dev_num_warps (dev_of m3 d)"
    using g1(4) counts_keptD(2)[OF g1(1) p3(2)] by simp
  have "clears (count_queries \<union> (({Eff ?a} \<union> ({Eff single_step_warning} \<union> (count_queries \<union>
      device_slots d (dev_num_sms (dev_of m3 d)) (dev_num_warps (dev_of m3 d)) (dev_num_lanes (dev_of m3 d))))) \<union>
      ((count_queries \<union> (count_queries \<union> (\<Union>i\<in>set [0..<n].
           if bit stepped i then warp_slots d s i (dev_num_lanes (dev_of m5 d)) else {}))) \<union>
           (count_queries \<union> {Sm_flags d s})))) m m'"
    by (rule clears_trans[OF c1(1) clears_trans[OF c13 c3']])
  then show "clears (count_queries \<union> {Eff ?a, Eff single_step_warning} \<union>
           device_slots d (dev_num_sms (dev_of m' d)) (dev_num_warps (dev_of m' d)) (dev_num_lanes (dev_of m' d))) m m'"
    unfolding r' r5 n
    by (rule clears_eq) (use r1(2) r3 in \<open>auto simp: warp_slots_def device_slots_def split: if_splits\<close>)
  from clears_new_effects[OF c1(1) clears_trans[OF clears_trans[OF clears_do_effect i1(1)] c3']]
  show "?a \<in> set (new_effects m m')" .
  from clears_new_effects[OF clears_trans[OF c1(1) clears_do_effect] clears_trans[OF i1(1) c3']]
  show "single_step_warning \<in> set (new_effects m m')" .
qed

lemma warp_single_step_alone:
  fixes stepped :: "64 word"
  assumes c: "check_wp e d s w m = Inr ((), m1)"
    and z: "stepped AND NOT (push_bit w 1) = 0"
    and g: "device_get_num_warps e d (do_effect (Api_single_step_warp d s w) m1) = Inr (n, m4)"
    and lp: "for_loop [0..<n] (\<lambda>i m5. if push_bit i 1 AND stepped \<noteq> 0 then warp_invalidate e d s i m5 else ret () m5) m4 = Inr ((), m5)"
    and si: "sm_invalidate e d s NON_RECURSIVE m5 = Inr ((), m')"
  shows "clears (count_queries \<union> {Eff (Api_single_step_warp d s w)} \<union>
           stepped_slots d s stepped (dev_num_lanes (dev_of m' d))) m m'"
    and "Api_single_step_warp d s w \<in> set (new_effects m m')"
proof -
  let ?a = "Api_single_step_warp d s w"
  note c1 = check_wp_spec[OF c]
  note g1 = device_get_num_warps_spec[OF g]
  note l1 = stepped_loop[OF lp]
  note s1 = sm_invalidate_non_recursive_spec[OF si]
  have r1: "dev_num_warps_p (dev_of m1 d)" "w < dev_num_warps (dev_of m1 d)"
    using c1(2) by (simp_all add: ready_wp_def)
  have c14: "clears ({Eff ?a} \<union> count_queries) m1 m4"
    by (rule clears_trans[OF clears_do_effect g1(1)])
  have n: "w < n"
    using g1(4) counts_keptD(2)[OF c14 r1(1)] r1(2) by simp
  have b: "i = w" if "bit stepped i" for i
    using only_bit[OF z that] .
  have nl: "dev_num_lanes (dev_of m' d) = dev_num_lanes (dev_of m5 d)" if "bit stepped w"
  proof -
    from n have "w \<in> set [0..<n]" by simp
    from stepped_loop_latches[OF lp this that] have "dev_num_lanes_p (dev_of m5 d)" .
    from counts_keptD(3)[OF s1(1) this] show ?thesis by simp
  qed
  have c2': "clears (count_queries \<union> (count_queries \<union> (\<Union>i\<in>set [0..<n].
           if bit stepped i then warp_slots d s i (dev_num_lanes (dev_of m5 d)) else {}) \<union>
           (count_queries \<union> {Sm_flags d s}))) (do_effect ?a m1) m'"
    by (rule clears_trans[OF g1(1) clears_trans[OF l1 s1(1)]])
  have "clears (count_queries \<union> ({Eff ?a} \<union> (count_queries \<union> (count_queries \<union> (\<Union>i\<in>set [0..<n].
           if bit stepped i then warp_slots d s i (dev_num_lanes (dev_of m5 d)) else {}) \<union>
           (count_queries \<union> {Sm_flags d s}))))) m m'"
    by (rule clears_trans[OF c1(1) clears_trans[OF clears_do_effect c2']])
  then show "clears (count_queries \<union> {Eff ?a} \<union> stepped_slots d s stepped (dev_num_lanes (dev_of m' d))) m m'"
  proof (rule clears_eq)
    show "count_queries \<union> ({Eff ?a} \<union> (count_queries \<union> (count_queries \<union> (\<Union>i\<in>set [0..<n].
           if bit stepped i then warp_slots d s i (dev_num_lanes (dev_of m5 d)) else {}) \<union>
           (count_queries \<union> {Sm_flags d s})))) =
       count_queries \<union> {Eff ?a} \<union> stepped_slots d s stepped (dev_num_lanes (dev_of m' d))"
    proof (cases "bit stepped w")
      case True
      with b have bw: "bit stepped i = (i = w)" for i by blast
      have u: "(\<Union>i\<in>set [0..<n]. if bit stepped i then warp_slots d s i (dev_num_lanes (dev_of m5 d)) else {}) =
          warp_slots d s w (dev_num_lanes (dev_of m5 d))"
        unfolding bw using n by (simp add: set_eq_iff)
      have v: "stepped_slots d s stepped (dev_num_lanes (dev_of m' d)) = warp_slots d s w (dev_num_lanes (dev_of m5 d))"
        unfolding nl[OF True] stepped_slots_def warp_slots_def bw by (auto simp add: set_eq_iff)
      show ?thesis unfolding u v by (auto simp add: set_eq_iff warp_slots_def)
    next
      case False
      with b have nb: "bit stepped i = False" for i by blast
      show ?thesis unfolding stepped_slots_def nb by (auto simp add: set_eq_iff)
    qed
  qed
  from clears_new_effects[OF c1(1) c2'] show "?a \<in> set (new_effects m m')" .
qed

subsection \<open>Runs that return\<close>

lemma for_loop_returns:
  assumes "I m"
    and "\<And>i m1. i \<in> set is \<Longrightarrow> I m1 \<Longrightarrow> \<exists>m2. body i m1 = Inr ((), m2) \<and> I m2"
  shows "\<exists>m'. for_loop is body m = Inr ((), m') \<and> I m'"
  using assms
proof (induction "is" arbitrary: m)
  case Nil
  then show ?case by simp
next
  case (Cons i "is")
  from Cons.prems(2)[of i m] Cons.prems(1) obtain m1 where b: "body i m = Inr ((), m1)" and 1: "I m1"
    by auto
  have "\<exists>m'. for_loop is body m1 = Inr ((), m') \<and> I m'"
  proof (rule Cons.IH[OF 1])
    show "\<exists>m2. body j m1 = Inr ((), m2) \<and> I m2" if "j \<in> set is" "I m1" for j m1
      using Cons.prems(2)[of j m1] that by simp
  qed
  with b show ?case by simp
qed

lemma check_dev_returns:
  assumes "device_in_range e m d"
  shows "\<exists>m'. check_dev e d m = Inr ((), m') \<and> ready_dev e m' d \<and> (\<forall>d'. dev_of m' d' = dev_of m d')"
  using assms
  by (auto simp: device_in_range_def check_dev_def cuda_system_get_num_devices_def Let_def ready_dev_def
      split: if_splits)

lemma device_get_num_sms_returns:
  assumes "ready_dev e m d" and "dev_num_sms_p (dev_of m d) \<or> api_num_sms e d \<le> CUDBG_MAX_SMS e"
  shows "\<exists>m'. device_get_num_sms e d m =
           Inr (if dev_num_sms_p (dev_of m d) then dev_num_sms (dev_of m d) else api_num_sms e d, m') \<and>
           dev_num_warps_p (dev_of m' d) = dev_num_warps_p (dev_of m d) \<and>
           dev_num_warps (dev_of m' d) = dev_num_warps (dev_of m d) \<and>
           dev_num_lanes_p (dev_of m' d) = dev_num_lanes_p (dev_of m d) \<and>
           dev_num_lanes (dev_of m' d) = dev_num_lanes (dev_of m d)"
  using assms by (auto simp: device_get_num_sms_def Let_def)

lemma device_get_num_warps_returns:
  assumes "ready_dev e m d" and "dev_num_warps_p (dev_of m d) \<or> api_num_warps e d \<le> CUDBG_MAX_WARPS e"
  shows "\<exists>m'. device_get_num_warps e d m =
           Inr (if dev_num_warps_p (dev_of m d) then dev_num_warps (dev_of m d) else api_num_warps e d, m') \<and>
           dev_num_lanes_p (dev_of m' d) = dev_num_lanes_p (dev_of m d) \<and>
           dev_num_lanes (dev_of m' d) = dev_num_lanes (dev_of m d)"
  using assms by (auto simp: device_get_num_warps_def Let_def)

lemma device_get_num_lanes_returns:
  assumes "ready_dev e m d" and "dev_num_lanes_p (dev_of m d) \<or> api_num_lanes e d \<le> CUDBG_MAX_LANES e"
  shows "\<exists>n m'. device_get_num_lanes e d m = Inr (n, m')"
  using assms by (auto simp: device_get_num_lanes_def Let_def)

lemma counts_in_range_clears:
  assumes "clears A m m'" and "counts_in_range e m d"
  shows "counts_in_range e m' d"
  using assms(2) counts_keptD[OF assms(1), of d] by (auto simp: counts_in_range_def)

lemma counts_in_range_upd [simp]:
  "counts_in_range e (do_effect a m) d = counts_in_range e m d"
  "counts_in_range e (upd_sm d' s' fs m) d = counts_in_range e m d"
  "counts_in_range e (upd_wp d' s' w' fw m) d = counts_in_range e m d"
  "counts_in_range e (upd_ln d' s' w' l' fl m) d = counts_in_range e m d"
  by (simp_all add: counts_in_range_def)

lemma check_wp_returns:
  assumes "warp_in_range e m d s w"
  shows "\<exists>m'. check_wp e d s w m = Inr ((), m')"
proof -
  from assms have r: "device_in_range e m d" "counts_in_range e m d"
    "s < (if dev_num_sms_p (dev_of m d) then dev_num_sms (dev_of m d) else api_num_sms e d)"
    "w < (if dev_num_warps_p (dev_of m d) then dev_num_warps (dev_of m d) else api_num_warps e d)"
    by (simp_all add: warp_in_range_def)
  from check_dev_returns[OF r(1)] obtain m1 where
    1: "check_dev e d m = Inr ((), m1)" "ready_dev e m1 d" "dev_of m1 d = dev_of m d"
    by auto
  from r(2) have s1: "dev_num_sms_p (dev_of m1 d) \<or> api_num_sms e d \<le> CUDBG_MAX_SMS e"
    by (simp add: counts_in_range_def 1(3))
  from device_get_num_sms_returns[OF 1(2) s1] obtain m2 where
    2: "device_get_num_sms e d m1 =
         Inr (if dev_num_sms_p (dev_of m d) then dev_num_sms (dev_of m d) else api_num_sms e d, m2)"
       "dev_num_warps_p (dev_of m2 d) = dev_num_warps_p (dev_of m d)"
       "dev_num_warps (dev_of m2 d) = dev_num_warps (dev_of m d)"
    by (auto simp: 1(3))
  have c: "check_sm e d s m = Inr ((), m2)"
    using 1(1) 2(1) r(3) by (simp add: check_sm_def)
  have r2: "ready_dev e m2 d"
    using device_get_num_sms_spec(2)[OF 2(1)] .
  from r(2) have w2: "dev_num_warps_p (dev_of m2 d) \<or> api_num_warps e d \<le> CUDBG_MAX_WARPS e"
    by (simp add: counts_in_range_def 2(2))
  from device_get_num_warps_returns[OF r2 w2] obtain m3 where
    "device_get_num_warps e d m2 =
       Inr (if dev_num_warps_p (dev_of m d) then dev_num_warps (dev_of m d) else api_num_warps e d, m3)"
    by (auto simp: 2(2,3))
  with c r(4) show ?thesis by (simp add: check_wp_def)
qed

lemma lane_invalidate_ready:
  "ready_ln e m d s w l \<Longrightarrow> lane_invalidate e d s w l m = Inr ((), upd_ln d s w l clear_lane_flags m)"
  by (simp add: lane_invalidate_def clear_lane_flags_def[abs_def] ret_def)

lemma lanes_loop_returns:
  assumes "ready_wp e m d s w" and "dev_num_lanes_p (dev_of m d)"
  shows "\<exists>m'. for_loop [0..<dev_num_lanes (dev_of m d)] (lane_invalidate e d s w) m = Inr ((), m') \<and>
           effects m' = effects m"
proof -
  let ?I = "\<lambda>x. ready_wp e x d s w \<and> dev_num_lanes_p (dev_of x d) \<and>
     dev_num_lanes (dev_of x d) = dev_num_lanes (dev_of m d) \<and> effects x = effects m"
  have "\<exists>m'. for_loop [0..<dev_num_lanes (dev_of m d)] (lane_invalidate e d s w) m = Inr ((), m') \<and> ?I m'"
  proof (rule for_loop_returns[where I = ?I])
    show "?I m" using assms by simp
    show "\<exists>m2. lane_invalidate e d s w l m1 = Inr ((), m2) \<and> ?I m2"
      if "l \<in> set [0..<dev_num_lanes (dev_of m d)]" "?I m1" for l m1
    proof -
      from that have "ready_ln e m1 d s w l" by (simp add: ready_ln_def)
      from lane_invalidate_ready[OF this] that(2) show ?thesis by simp
    qed
  qed
  then show ?thesis by blast
qed

lemma warp_invalidate_returns:
  assumes "ready_wp e m d s w" and "counts_in_range e m d"
  shows "\<exists>m'. warp_invalidate e d s w m = Inr ((), m')"
proof -
  have rd: "ready_dev e m d" using assms(1) by (rule readyD)
  from assms(2) have "dev_num_lanes_p (dev_of m d) \<or> api_num_lanes e d \<le> CUDBG_MAX_LANES e"
    by (simp add: counts_in_range_def)
  from device_get_num_lanes_returns[OF rd this] obtain n m2 where
    g: "device_get_num_lanes e d m = Inr (n, m2)" by blast
  note g1 = device_get_num_lanes_spec[OF g]
  have r2: "ready_wp e m2 d s w" using ready_clears(3)[OF g1(1) assms(1)] .
  from lanes_loop_returns[OF r2 g1(3)] g1(4) obtain m3 where
    "for_loop [0..<n] (lane_invalidate e d s w) m2 = Inr ((), m3)" by auto
  with g assms(1) show ?thesis by (simp add: warp_invalidate_def)
qed

lemma sm_invalidate_returns:
  assumes "ready_sm e m d s" and "counts_in_range e m d"
  shows "\<exists>m'. sm_invalidate e d s RECURSIVE m = Inr ((), m')"
proof -
  have rd: "ready_dev e m d" using assms(1) by (rule readyD)
  from assms(2) have "dev_num_warps_p (dev_of m d) \<or> api_num_warps e d \<le> CUDBG_MAX_WARPS e"
    by (simp add: counts_in_range_def)
  from device_get_num_warps_returns[OF rd this] obtain n m2 where
    g: "device_get_num_warps e d m = Inr (n, m2)" by blast
  note g1 = device_get_num_warps_spec[OF g]
  let ?I = "\<lambda>x. ready_sm e x d s \<and> dev_num_warps_p (dev_of x d) \<and> dev_num_warps (dev_of x d) = n \<and>
     counts_in_range e x d"
  have "\<exists>m3. for_loop [0..<n] (warp_invalidate e d s) m2 = Inr ((), m3) \<and> ?I m3"
  proof (rule for_loop_returns[where I = ?I])
    show "?I m2"
      using ready_clears(2)[OF g1(1) assms(1)] g1(3,4) counts_in_range_clears[OF g1(1) assms(2)] by simp
    show "\<exists>m2. warp_invalidate e d s w m1 = Inr ((), m2) \<and> ?I m2" if "w \<in> set [0..<n]" "?I m1" for w m1
    proof -
      from that have rw: "ready_wp e m1 d s w" by (simp add: ready_wp_def)
      from warp_invalidate_returns[OF rw] that(2) obtain m2 where
        w: "warp_invalidate e d s w m1 = Inr ((), m2)" by blast
      note w1 = warp_invalidate_spec[OF w]
      from that(2) ready_clears(2)[OF w1(1)] counts_keptD(2)[OF w1(1)] counts_in_range_clears[OF w1(1)]
      have "?I m2" by simp
      with w show ?thesis by blast
    qed
  qed
  then obtain m3 where "for_loop [0..<n] (warp_invalidate e d s) m2 = Inr ((), m3)" by blast
  with g assms(1) show ?thesis by (simp add: sm_invalidate_def)
qed

lemma device_invalidate_returns:
  assumes "ready_dev e m d" and "counts_in_range e m d"
  shows "\<exists>m'. device_invalidate e d m = Inr ((), m')"
proof -
  from assms(2) have "dev_num_sms_p (dev_of m d) \<or> api_num_sms e d \<le> CUDBG_MAX_SMS e"
    by (simp add: counts_in_range_def)
  from device_get_num_sms_returns[OF assms(1) this] obtain n m2 where
    g: "device_get_num_sms e d m = Inr (n, m2)" by blast
  note g1 = device_get_num_sms_spec[OF g]
  let ?I = "\<lambda>x. ready_dev e x d \<and> dev_num_sms_p (dev_of x d) \<and> dev_num_sms (dev_of x d) = n \<and>
     counts_in_range e x d"
  have "\<exists>m3. for_loop [0..<n] (\<lambda>s. sm_invalidate e d s RECURSIVE) m2 = Inr ((), m3) \<and> ?I m3"
  proof (rule for_loop_returns[where I = ?I])
    show "?I m2"
      using g1(2,3,4) counts_in_range_clears[OF g1(1) assms(2)] by simp
    show "\<exists>m2. sm_invalidate e d s RECURSIVE m1 = Inr ((), m2) \<and> ?I m2" if "s \<in> set [0..<n]" "?I m1" for s m1
    proof -
      from that have rs: "ready_sm e m1 d s" by (simp add: ready_sm_def)
      from sm_invalidate_returns[OF rs] that(2) obtain m2 where
        w: "sm_invalidate e d s RECURSIVE m1 = Inr ((), m2)" by blast
      note w1 = sm_invalidate_recursive_spec[OF w]
      from that(2) ready_clears(1)[OF w1(1)] counts_keptD(1)[OF w1(1)] counts_in_range_clears[OF w1(1)]
      have "?I m2" by simp
      with w show ?thesis by blast
    qed
  qed
  then obtain m3 where "for_loop [0..<n] (\<lambda>s. sm_invalidate e d s RECURSIVE) m2 = Inr ((), m3)"
    "ready_dev e m3 d" by blast
  with g assms(1) show ?thesis
    by (simp add: device_invalidate_def device_invalidate_kernels_def)
qed

subsection \<open>The calls of the debug API, in order\<close>

lemma clears_queries:
  assumes "clears A m m'" and "\<And>a. Eff a \<in> A \<Longrightarrow> is_count_query a"
  shows "\<exists>q. effects m' = effects m @ q \<and> list_all is_count_query q"
  using effects_after[OF assms(1)] assms(2) by (auto simp: list_all_iff)

lemma queries_trans:
  assumes "\<exists>q. effects m1 = effects m @ q \<and> list_all is_count_query q"
    and "\<exists>q. effects m2 = effects m1 @ q \<and> list_all is_count_query q"
  shows "\<exists>q. effects m2 = effects m @ q \<and> list_all is_count_query q"
proof -
  from assms obtain q1 q2 where "effects m1 = effects m @ q1" "list_all is_count_query q1"
    "effects m2 = effects m1 @ q2" "list_all is_count_query q2" by blast
  then have "effects m2 = effects m @ (q1 @ q2) \<and> list_all is_count_query (q1 @ q2)" by simp
  then show ?thesis by blast
qed

lemma device_invalidate_effects:
  assumes "device_invalidate e d m = Inr (u, m')"
  shows "\<exists>q. effects m' = effects m @ q @ [Kernels_invalidate] \<and> list_all is_count_query q"
proof -
  from assms obtain m1 n m2 m3 m4 where c: "check_dev e d m = Inr ((), m1)"
    and g: "device_get_num_sms e d m1 = Inr (n, m2)"
    and lp: "for_loop [0..<n] (\<lambda>s. sm_invalidate e d s RECURSIVE) m2 = Inr ((), m3)"
    and k: "device_invalidate_kernels e d m3 = Inr ((), m4)"
    and m': "m' = upd_dev d clear_dev_flags m4"
    unfolding device_invalidate_def clear_dev_flags_def by (auto elim!: bindE_E)
  from k obtain m5 where c5: "check_dev e d m3 = Inr ((), m5)" and m4: "m4 = do_effect Kernels_invalidate m5"
    unfolding device_invalidate_kernels_def by (auto elim!: bindE_E)
  have 1: "\<exists>q. effects m2 = effects m @ q \<and> list_all is_count_query q"
    by (rule clears_queries[OF clears_trans[OF check_dev_spec(1)[OF c] device_get_num_sms_spec(1)[OF g]]]) simp
  have "\<exists>q. effects m3 = effects m2 @ q \<and> list_all is_count_query q"
  proof (rule for_loop_rule[OF lp, where P = "\<lambda>x. \<exists>q. effects x = effects m2 @ q \<and> list_all is_count_query q"])
    show "\<exists>q. effects m2 = effects m2 @ q \<and> list_all is_count_query q" by simp
    show "\<exists>q. effects y = effects m2 @ q \<and> list_all is_count_query q"
      if "\<exists>q. effects x = effects m2 @ q \<and> list_all is_count_query q"
        "sm_invalidate e d s RECURSIVE x = Inr ((), y)" for s x y
    proof (rule queries_trans[OF that(1)])
      show "\<exists>q. effects y = effects x @ q \<and> list_all is_count_query q"
        by (rule clears_queries[OF sm_invalidate_recursive_spec(1)[OF that(2)]]) auto
    qed
  qed
  from queries_trans[OF 1 this] have 3: "\<exists>q. effects m3 = effects m @ q \<and> list_all is_count_query q" .
  have "\<exists>q. effects m5 = effects m3 @ q \<and> list_all is_count_query q"
    by (rule clears_queries[OF check_dev_spec(1)[OF c5]]) simp
  from queries_trans[OF 3 this] obtain q where "effects m5 = effects m @ q" "list_all is_count_query q"
    by blast
  then have "effects m' = effects m @ q @ [Kernels_invalidate] \<and> list_all is_count_query q"
    by (simp add: m' m4)
  then show ?thesis by blast
qed

lemma warp_invalidate_quiet:
  assumes "warp_invalidate e d s w m = Inr (u, m')" and "ready_wp e m d s w"
    and "dev_num_lanes_p (dev_of m d)"
  shows "effects m' = effects m"
proof -
  have rd: "ready_dev e m d" using assms(2) by (rule readyD)
  from lanes_loop_returns[OF assms(2,3)] obtain m3 where
    "for_loop [0..<dev_num_lanes (dev_of m d)] (lane_invalidate e d s w) m = Inr ((), m3)"
    "effects m3 = effects m" by blast
  with assms(1,2,3) rd show ?thesis
    by (auto simp: warp_invalidate_def device_get_num_lanes_ready)
qed

lemma sm_invalidate_non_recursive_ready:
  "ready_sm e m d s \<Longrightarrow> sm_invalidate e d s NON_RECURSIVE m = Inr ((), upd_sm d s clear_sm_flags m)"
  by (simp add: sm_invalidate_def clear_sm_flags_def[abs_def] ret_def)

lemma stepped_body_returns:
  assumes "ready_wp e m d s i" and "counts_in_range e m d"
  shows "\<exists>m'. (if push_bit i 1 AND (stepped :: 64 word) \<noteq> 0 then warp_invalidate e d s i m else ret () m) = Inr ((), m') \<and>
     ready_sm e m' d s \<and> dev_num_warps_p (dev_of m' d) \<and> dev_num_warps (dev_of m' d) = dev_num_warps (dev_of m d) \<and>
     counts_in_range e m' d \<and>
     (dev_num_lanes_p (dev_of m d) \<longrightarrow> dev_num_lanes_p (dev_of m' d) \<and> effects m' = effects m)"
proof (cases "bit stepped i")
  case False
  with assms show ?thesis by (simp add: ready_wp_def ret_def)
next
  case True
  from warp_invalidate_returns[OF assms] obtain m' where w: "warp_invalidate e d s i m = Inr ((), m')"
    by blast
  note w1 = warp_invalidate_spec[OF w]
  have rw: "ready_wp e m' d s i" using ready_clears(3)[OF w1(1) assms(1)] .
  have "dev_num_warps_p (dev_of m d)" using assms(1) by (simp add: ready_wp_def)
  from counts_keptD(2)[OF w1(1) this] rw counts_in_range_clears[OF w1(1) assms(2)] w1(3)
    warp_invalidate_quiet[OF w assms(1)] w True
  show ?thesis by (simp add: ready_wp_def)
qed

lemma stepped_loop_returns:
  assumes "ready_sm e m d s" and "dev_num_warps_p (dev_of m d)" and "counts_in_range e m d"
  shows "\<exists>m'. for_loop [0..<dev_num_warps (dev_of m d)]
            (\<lambda>i m5. if push_bit i 1 AND (stepped :: 64 word) \<noteq> 0 then warp_invalidate e d s i m5 else ret () m5) m =
              Inr ((), m') \<and> ready_sm e m' d s \<and>
          (dev_num_lanes_p (dev_of m d) \<longrightarrow> effects m' = effects m)"
proof -
  let ?n = "dev_num_warps (dev_of m d)"
  let ?I = "\<lambda>x. ready_sm e x d s \<and> dev_num_warps_p (dev_of x d) \<and> dev_num_warps (dev_of x d) = ?n \<and>
     counts_in_range e x d \<and> (dev_num_lanes_p (dev_of m d) \<longrightarrow> dev_num_lanes_p (dev_of x d) \<and> effects x = effects m)"
  have "\<exists>m'. for_loop [0..<?n]
            (\<lambda>i m5. if push_bit i 1 AND stepped \<noteq> 0 then warp_invalidate e d s i m5 else ret () m5) m =
              Inr ((), m') \<and> ?I m'"
  proof (rule for_loop_returns[where I = ?I])
    show "?I m" using assms by simp
    show "\<exists>m2. (if push_bit i 1 AND stepped \<noteq> 0 then warp_invalidate e d s i m1 else ret () m1) = Inr ((), m2) \<and> ?I m2"
      if "i \<in> set [0..<?n]" "?I m1" for i m1
    proof -
      from that have rw: "ready_wp e m1 d s i" by (simp add: ready_wp_def)
      from stepped_body_returns[OF rw, of stepped] that(2) show ?thesis by auto
    qed
  qed
  then show ?thesis by blast
qed

lemma warp_single_step_returns:
  assumes "warp_in_range e m d s w"
  shows "\<exists>m'. warp_single_step e d s w m = Inr (api_single_step_warp e d s w, m')"
proof -
  from check_wp_returns[OF assms] obtain m1 where c: "check_wp e d s w m = Inr ((), m1)" by blast
  note c1 = check_wp_spec[OF c]
  have cr: "counts_in_range e m1 d"
    using counts_in_range_clears[OF c1(1)] assms by (simp add: warp_in_range_def)
  let ?m2 = "do_effect (Api_single_step_warp d s w) m1"
  have r2: "ready_wp e ?m2 d s w" "ready_dev e ?m2 d" "counts_in_range e ?m2 d"
    using c1(2) cr readyD(3)[OF c1(2)] by simp_all
  have tail: "\<exists>m'. bindE (device_get_num_warps e d x) (\<lambda>n m4.
               bindE (for_loop [0..<n]
                        (\<lambda>i m5. if push_bit i 1 AND api_single_step_warp e d s w \<noteq> 0
                                  then warp_invalidate e d s i m5 else ret () m5) m4) (\<lambda>_.
               sm_invalidate e d s NON_RECURSIVE)) = Inr ((), m')"
    if x: "ready_wp e x d s w" "counts_in_range e x d" for x
  proof -
    from x(1) have p: "ready_dev e x d" "ready_sm e x d s" "dev_num_warps_p (dev_of x d)"
      by (simp_all add: ready_wp_def ready_sm_def)
    from stepped_loop_returns[OF p(2,3) x(2), of "api_single_step_warp e d s w"] obtain m5 where
      "for_loop [0..<dev_num_warps (dev_of x d)]
            (\<lambda>i m5. if push_bit i 1 AND api_single_step_warp e d s w \<noteq> 0 then warp_invalidate e d s i m5 else ret () m5) x =
              Inr ((), m5)" "ready_sm e m5 d s" by blast
    then show ?thesis
      by (simp add: device_get_num_warps_ready[OF p(1,3)] sm_invalidate_non_recursive_ready)
  qed
  show ?thesis
  proof (cases "cuda_options_software_preemption e")
    case True
    from device_invalidate_returns[OF r2(2,3)] obtain m' where
      "device_invalidate e d ?m2 = Inr ((), m')" by blast
    with c True show ?thesis by (simp add: warp_single_step_def Let_def ret_def)
  next
    case False
    show ?thesis
    proof (cases "api_single_step_warp e d s w AND NOT (push_bit w 1) \<noteq> 0")
      case stray: True
      let ?m2w = "do_effect (Warning ''Warp(s) other than the current warp had to be single-stepped.'') ?m2"
      have "ready_dev e ?m2w d" "counts_in_range e ?m2w d" using r2 by simp_all
      from device_invalidate_returns[OF this] obtain m3 where
        i: "device_invalidate e d ?m2w = Inr ((), m3)" by blast
      note i1 = device_invalidate_spec[OF i]
      have "ready_wp e ?m2w d s w" using r2(1) by simp
      from ready_clears(3)[OF i1(1) this] have r3: "ready_wp e m3 d s w" .
      have "counts_in_range e ?m2w d" using r2(3) by simp
      from counts_in_range_clears[OF i1(1) this] have c3: "counts_in_range e m3 d" .
      from tail[OF r3 c3] obtain m' where "bindE (device_get_num_warps e d m3) (\<lambda>n m4.
               bindE (for_loop [0..<n]
                        (\<lambda>i m5. if push_bit i 1 AND api_single_step_warp e d s w \<noteq> 0
                                  then warp_invalidate e d s i m5 else ret () m5) m4) (\<lambda>_.
               sm_invalidate e d s NON_RECURSIVE)) = Inr ((), m')" by blast
      with c False stray i show ?thesis by (simp add: warp_single_step_def Let_def ret_def)
    next
      case alone: False
      from tail[OF r2(1,3)] obtain m' where "bindE (device_get_num_warps e d ?m2) (\<lambda>n m4.
               bindE (for_loop [0..<n]
                        (\<lambda>i m5. if push_bit i 1 AND api_single_step_warp e d s w \<noteq> 0
                                  then warp_invalidate e d s i m5 else ret () m5) m4) (\<lambda>_.
               sm_invalidate e d s NON_RECURSIVE)) = Inr ((), m')" by blast
      with c False alone show ?thesis by (simp add: warp_single_step_def Let_def ret_def)
    qed
  qed
qed

lemma new_effects_app: "effects m' = effects m @ tr \<Longrightarrow> new_effects m m' = tr"
  by (simp add: new_effects_def)

lemma warp_single_step_preempt_effects:
  assumes c: "check_wp e d s w m = Inr ((), m1)"
    and i: "device_invalidate e d (do_effect (Api_single_step_warp d s w) m1) = Inr ((), m')"
  shows "\<exists>q0 q1. new_effects m m' = q0 @ [Api_single_step_warp d s w] @ q1 @ [Kernels_invalidate] \<and>
           list_all is_count_query q0 \<and> list_all is_count_query q1"
proof -
  from clears_queries[OF check_wp_spec(1)[OF c]] obtain q0 where
    0: "effects m1 = effects m @ q0" "list_all is_count_query q0" by auto
  from device_invalidate_effects[OF i] obtain q1 where
    1: "effects m' = effects (do_effect (Api_single_step_warp d s w) m1) @ q1 @ [Kernels_invalidate]"
      "list_all is_count_query q1" by blast
  have "effects m' = effects m @ (q0 @ [Api_single_step_warp d s w] @ q1 @ [Kernels_invalidate])"
    using 0(1) 1(1) by simp
  from new_effects_app[OF this] 0(2) 1(2) show ?thesis by blast
qed

lemma warp_single_step_others_effects:
  fixes stepped :: "64 word"
  assumes c: "check_wp e d s w m = Inr ((), m1)"
    and i: "device_invalidate e d (do_effect single_step_warning (do_effect (Api_single_step_warp d s w) m1)) = Inr ((), m3)"
    and g: "device_get_num_warps e d m3 = Inr (n, m4)"
    and lp: "for_loop [0..<n] (\<lambda>i m5. if push_bit i 1 AND stepped \<noteq> 0 then warp_invalidate e d s i m5 else ret () m5) m4 = Inr ((), m5)"
    and si: "sm_invalidate e d s NON_RECURSIVE m5 = Inr ((), m')"
  shows "\<exists>q0 q1. new_effects m m' =
           q0 @ [Api_single_step_warp d s w, single_step_warning] @ q1 @ [Kernels_invalidate] \<and>
           list_all is_count_query q0 \<and> list_all is_count_query q1"
proof -
  let ?a = "Api_single_step_warp d s w"
  note c1 = check_wp_spec[OF c]
  note i1 = device_invalidate_spec[OF i]
  from clears_queries[OF c1(1)] obtain q0 where
    0: "effects m1 = effects m @ q0" "list_all is_count_query q0" by auto
  from device_invalidate_effects[OF i] obtain q1 where
    1: "effects m3 = effects (do_effect single_step_warning (do_effect ?a m1)) @ q1 @ [Kernels_invalidate]"
      "list_all is_count_query q1" by blast
  have "ready_wp e (do_effect single_step_warning (do_effect ?a m1)) d s w" using c1(2) by simp
  from ready_clears(3)[OF i1(1) this] have r3: "ready_wp e m3 d s w" .
  then have p: "ready_dev e m3 d" "ready_sm e m3 d s" "dev_num_warps_p (dev_of m3 d)"
    "0 < dev_num_sms (dev_of m3 d)" "0 < dev_num_warps (dev_of m3 d)"
    by (auto simp: ready_wp_def ready_sm_def)
  have l3: "dev_num_lanes_p (dev_of m3 d)" using i1(5)[OF p(4,5)] .
  have c3: "counts_in_range e m3 d"
    using i1(3) p(3) l3 by (simp add: counts_in_range_def)
  from g have g': "n = dev_num_warps (dev_of m3 d)" "m4 = m3"
    by (auto simp: device_get_num_warps_ready[OF p(1,3)])
  from stepped_loop_returns[OF p(2,3) c3, of stepped] l3 lp obtain
    5: "ready_sm e m5 d s" "effects m5 = effects m3"
    unfolding g' by auto
  from si have "effects m' = effects m3"
    by (auto simp: sm_invalidate_non_recursive_ready[OF 5(1)] 5(2))
  then have "effects m' = effects m @ (q0 @ [?a, single_step_warning] @ q1 @ [Kernels_invalidate])"
    using 0(1) 1(1) by simp
  from new_effects_app[OF this] 0(2) 1(2) show ?thesis by blast
qed

lemma warp_single_step_alone_effects:
  fixes stepped :: "64 word"
  assumes c: "check_wp e d s w m = Inr ((), m1)"
    and g: "device_get_num_warps e d (do_effect (Api_single_step_warp d s w) m1) = Inr (n, m4)"
    and lp: "for_loop [0..<n] (\<lambda>i m5. if push_bit i 1 AND stepped \<noteq> 0 then warp_invalidate e d s i m5 else ret () m5) m4 = Inr ((), m5)"
    and si: "sm_invalidate e d s NON_RECURSIVE m5 = Inr ((), m')"
  shows "\<exists>q0 q1. new_effects m m' = q0 @ [Api_single_step_warp d s w] @ q1 \<and>
           list_all is_count_query q0 \<and> list_all is_count_query q1"
proof -
  let ?a = "Api_single_step_warp d s w"
  from clears_queries[OF check_wp_spec(1)[OF c]] obtain q0 where
    0: "effects m1 = effects m @ q0" "list_all is_count_query q0" by auto
  have "\<exists>q. effects m' = effects (do_effect ?a m1) @ q \<and> list_all is_count_query q"
    by (rule clears_queries[OF clears_trans[OF device_get_num_warps_spec(1)[OF g]
          clears_trans[OF stepped_loop[OF lp] sm_invalidate_non_recursive_spec(1)[OF si]]]])
       (auto split: if_splits)
  then obtain q1 where 1: "effects m' = effects (do_effect ?a m1) @ q1" "list_all is_count_query q1"
    by blast
  have "effects m' = effects m @ (q0 @ [?a] @ q1)"
    using 0(1) 1(1) by simp
  from new_effects_app[OF this] 0(2) 1(2) show ?thesis by blast
qed

text \<open>
  Claim C3. When the warp is within the ranges, \<^verbatim>\<open>warp_single_step (dev, sm, wp)\<close>
  returns; and when it returns, it has called the single step of the debug API once, and
  returns the mask of that call. If the software preemption option is on, the cached state
  of the whole device is then invalidated, without warning. Otherwise, if the mask has a
  warp other than \<^verbatim>\<open>wp\<close>, the warning is given and the cached state of the whole device
  is invalidated. Otherwise the present flags of exactly the warps of the mask, of their
  lanes, and of the two masks of the SM are cleared, without warning. In each case
  nothing else of the cache is cleared and no cached value changes. What the run does
  outside the mirror is, in order: queries of the counts by the range checks, the single
  step, the warning if any, and for the whole device more queries of the counts and the
  invalidation of the kernels.
\<close>

theorem warp_single_step_effect:
  "(warp_in_range e m d s w \<longrightarrow>
      (\<exists>m'. warp_single_step e d s w m = Inr (api_single_step_warp e d s w, m'))) \<and>
   (\<forall>stepped m'. warp_single_step e d s w m = Inr (stepped, m') \<longrightarrow>
      stepped = api_single_step_warp e d s w \<and>
      (\<exists>q0 q1. list_all is_count_query q0 \<and> list_all is_count_query q1 \<and>
         (if cuda_options_software_preemption e then
            new_effects m m' = q0 @ [Api_single_step_warp d s w] @ q1 @ [Kernels_invalidate] \<and>
            device_invalidated m' d \<and>
            clears (count_queries \<union> {Eff (Api_single_step_warp d s w)} \<union>
              device_slots d (dev_num_sms (dev_of m' d)) (dev_num_warps (dev_of m' d))
                (dev_num_lanes (dev_of m' d))) m m'
          else if stepped AND NOT (push_bit w 1) \<noteq> 0 then
            new_effects m m' =
              q0 @ [Api_single_step_warp d s w, single_step_warning] @ q1 @ [Kernels_invalidate] \<and>
            device_invalidated m' d \<and>
            clears (count_queries \<union> {Eff (Api_single_step_warp d s w), Eff single_step_warning} \<union>
              device_slots d (dev_num_sms (dev_of m' d)) (dev_num_warps (dev_of m' d))
                (dev_num_lanes (dev_of m' d))) m m'
          else
            new_effects m m' = q0 @ [Api_single_step_warp d s w] @ q1 \<and>
            clears (count_queries \<union> {Eff (Api_single_step_warp d s w)} \<union>
              stepped_slots d s stepped (dev_num_lanes (dev_of m' d))) m m')))"
proof (intro conjI impI allI)
  assume "warp_in_range e m d s w"
  then show "\<exists>m'. warp_single_step e d s w m = Inr (api_single_step_warp e d s w, m')"
    by (rule warp_single_step_returns)
next
  fix stepped m'
  assume "warp_single_step e d s w m = Inr (stepped, m')"
  then show "stepped = api_single_step_warp e d s w"
    by (cases rule: warp_single_step_cases)
next
  fix stepped m'
  assume "warp_single_step e d s w m = Inr (stepped, m')"
  then show "\<exists>q0 q1. list_all is_count_query q0 \<and> list_all is_count_query q1 \<and>
         (if cuda_options_software_preemption e then
            new_effects m m' = q0 @ [Api_single_step_warp d s w] @ q1 @ [Kernels_invalidate] \<and>
            device_invalidated m' d \<and>
            clears (count_queries \<union> {Eff (Api_single_step_warp d s w)} \<union>
              device_slots d (dev_num_sms (dev_of m' d)) (dev_num_warps (dev_of m' d))
                (dev_num_lanes (dev_of m' d))) m m'
          else if stepped AND NOT (push_bit w 1) \<noteq> 0 then
            new_effects m m' =
              q0 @ [Api_single_step_warp d s w, single_step_warning] @ q1 @ [Kernels_invalidate] \<and>
            device_invalidated m' d \<and>
            clears (count_queries \<union> {Eff (Api_single_step_warp d s w), Eff single_step_warning} \<union>
              device_slots d (dev_num_sms (dev_of m' d)) (dev_num_warps (dev_of m' d))
                (dev_num_lanes (dev_of m' d))) m m'
          else
            new_effects m m' = q0 @ [Api_single_step_warp d s w] @ q1 \<and>
            clears (count_queries \<union> {Eff (Api_single_step_warp d s w)} \<union>
              stepped_slots d s stepped (dev_num_lanes (dev_of m' d))) m m')"
  proof (cases rule: warp_single_step_cases)
    case (1 m1)
    note p = warp_single_step_preempt[OF 1(1) 1(4)]
    have "device_invalidated m' d"
      by (rule device_invalidated_covered[OF p(1)]) auto
    with warp_single_step_preempt_effects[OF 1(1) 1(4)] 1(3) p(1) show ?thesis by auto
  next
    case (2 m1 m3 n m4 m5)
    note p = warp_single_step_others[OF 2(1) 2(5) 2(6) 2(7) 2(8)]
    have "device_invalidated m' d"
      by (rule device_invalidated_covered[OF p(1)]) auto
    with warp_single_step_others_effects[OF 2(1) 2(5) 2(6) 2(7) 2(8)] 2(3,4) p(1) show ?thesis by auto
  next
    case (3 m1 n m4 m5)
    note p = warp_single_step_alone[OF 3(1) 3(4) 3(5) 3(6) 3(7)]
    with warp_single_step_alone_effects[OF 3(1) 3(5) 3(6) 3(7)] 3(3,4) show ?thesis by auto
  qed
qed

lemma observing_InrD:
  "observing r g obs = Inr v \<Longrightarrow> \<exists>a m b m'. r = Inr (a, m) \<and> g m = Inr (b, m') \<and> obs m b m' = v"
  by (auto simp: observing_def split: sum.splits prod.splits)

lemma observing_InrD2:
  "r = Inr (a, m) \<Longrightarrow> observing r g obs = Inr v \<Longrightarrow> \<exists>b m'. g m = Inr (b, m') \<and> obs m b m' = v"
  by (auto simp: observing_def split: sum.splits prod.splits)

lemmas scenario_defs = observing_def demo_populated_def demo_defs
  cuda_system_initialize_def device_initialize_def device_get_contexts_def
  device_is_any_context_present_def lane_get_pc_def lane_is_valid_def lane_is_active_def
  share_pc_def warp_get_valid_lanes_mask_def warp_get_active_lanes_mask_def warp_is_valid_def
  sm_get_valid_warps_mask_def shifted_bit_def warp_single_step_def new_effects_def
  warp_in_range_def device_in_range_def counts_in_range_def env_preemption_def env_both_warps_def
  single_step_warning_def

lemma scenario_alone:
  "observing demo_populated (warp_single_step env_demo 0 0 1)
     (\<lambda>m b m'. (warp_in_range env_demo m 0 0 1, b, new_effects m m',
        [ln_pc_p (ln_of m 0 0 0 0), ln_pc_p (ln_of m 0 0 1 0), wp_valid_lanes_mask_p (wp_of m 0 0 0),
         wp_valid_lanes_mask_p (wp_of m 0 0 1), sm_valid_warps_mask_p (sm_of m 0 0)],
        [ln_pc_p (ln_of m' 0 0 0 0), ln_pc_p (ln_of m' 0 0 1 0), wp_valid_lanes_mask_p (wp_of m' 0 0 0),
         wp_valid_lanes_mask_p (wp_of m' 0 0 1), sm_valid_warps_mask_p (sm_of m' 0 0)],
        dev_num_lanes (dev_of m' 0))) =
   Inr (True, 2, [Api_single_step_warp 0 0 1], [True, True, True, True, True],
        [True, False, True, False, False], 4)"
  by (simp add: scenario_defs)

lemma scenario_preemption:
  "observing demo_populated (warp_single_step env_preemption 0 0 1)
     (\<lambda>m b m'. (warp_in_range env_preemption m 0 0 1, b, new_effects m m',
        [ln_pc_p (ln_of m' 0 0 0 0), ln_pc_p (ln_of m' 0 0 1 0), wp_valid_lanes_mask_p (wp_of m' 0 0 0),
         wp_valid_lanes_mask_p (wp_of m' 0 0 1), sm_valid_warps_mask_p (sm_of m' 0 0)])) =
   Inr (True, 2, [Api_single_step_warp 0 0 1, Kernels_invalidate],
        [False, False, False, False, False])"
  by (simp add: scenario_defs)

lemma scenario_both_warps:
  "observing demo_populated (warp_single_step env_both_warps 0 0 1)
     (\<lambda>m b m'. (warp_in_range env_both_warps m 0 0 1, b, new_effects m m',
        [ln_pc_p (ln_of m' 0 0 0 0), ln_pc_p (ln_of m' 0 0 1 0), wp_valid_lanes_mask_p (wp_of m' 0 0 0),
         wp_valid_lanes_mask_p (wp_of m' 0 0 1), sm_valid_warps_mask_p (sm_of m' 0 0)])) =
   Inr (True, 3, [Api_single_step_warp 0 0 1, single_step_warning, Kernels_invalidate],
        [False, False, False, False, False])"
  by (simp add: scenario_defs)

theorem warp_single_step_effect_witness:
  "\<exists>m. demo_populated = Inr ((), m) \<and>
     ln_pc_p (ln_of m 0 0 0 0) \<and> ln_pc_p (ln_of m 0 0 1 0) \<and>
     wp_valid_lanes_mask_p (wp_of m 0 0 0) \<and> wp_valid_lanes_mask_p (wp_of m 0 0 1) \<and>
     sm_valid_warps_mask_p (sm_of m 0 0) \<and>
     warp_in_range env_demo m 0 0 1 \<and> warp_in_range env_preemption m 0 0 1 \<and>
     warp_in_range env_both_warps m 0 0 1 \<and>
     (\<exists>m'. warp_single_step env_demo 0 0 1 m = Inr (2, m') \<and>
        new_effects m m' = [Api_single_step_warp 0 0 1] \<and>
        ln_pc_p (ln_of m' 0 0 0 0) \<and> \<not> ln_pc_p (ln_of m' 0 0 1 0) \<and>
        wp_valid_lanes_mask_p (wp_of m' 0 0 0) \<and> \<not> wp_valid_lanes_mask_p (wp_of m' 0 0 1) \<and>
        \<not> sm_valid_warps_mask_p (sm_of m' 0 0) \<and>
        clears (count_queries \<union> {Eff (Api_single_step_warp 0 0 1)} \<union> stepped_slots 0 0 2 4) m m') \<and>
     (\<exists>m'. warp_single_step env_preemption 0 0 1 m = Inr (2, m') \<and>
        new_effects m m' = [Api_single_step_warp 0 0 1, Kernels_invalidate] \<and>
        \<not> ln_pc_p (ln_of m' 0 0 0 0) \<and> \<not> ln_pc_p (ln_of m' 0 0 1 0) \<and>
        \<not> wp_valid_lanes_mask_p (wp_of m' 0 0 0) \<and> \<not> wp_valid_lanes_mask_p (wp_of m' 0 0 1) \<and>
        \<not> sm_valid_warps_mask_p (sm_of m' 0 0) \<and> device_invalidated m' 0) \<and>
     (\<exists>m'. warp_single_step env_both_warps 0 0 1 m = Inr (3, m') \<and>
        new_effects m m' = [Api_single_step_warp 0 0 1, single_step_warning, Kernels_invalidate] \<and>
        \<not> ln_pc_p (ln_of m' 0 0 0 0) \<and> \<not> ln_pc_p (ln_of m' 0 0 1 0) \<and>
        \<not> wp_valid_lanes_mask_p (wp_of m' 0 0 0) \<and> \<not> wp_valid_lanes_mask_p (wp_of m' 0 0 1) \<and>
        \<not> sm_valid_warps_mask_p (sm_of m' 0 0) \<and> device_invalidated m' 0)"
proof -
  from observing_InrD[OF scenario_alone] obtain m m1 where
    m: "demo_populated = Inr ((), m)" and r1: "warp_single_step env_demo 0 0 1 m = Inr (2, m1)"
    and o1: "warp_in_range env_demo m 0 0 1" "new_effects m m1 = [Api_single_step_warp 0 0 1]"
      "ln_pc_p (ln_of m 0 0 0 0)" "ln_pc_p (ln_of m 0 0 1 0)" "wp_valid_lanes_mask_p (wp_of m 0 0 0)"
      "wp_valid_lanes_mask_p (wp_of m 0 0 1)" "sm_valid_warps_mask_p (sm_of m 0 0)"
      "ln_pc_p (ln_of m1 0 0 0 0)" "\<not> ln_pc_p (ln_of m1 0 0 1 0)" "wp_valid_lanes_mask_p (wp_of m1 0 0 0)"
      "\<not> wp_valid_lanes_mask_p (wp_of m1 0 0 1)" "\<not> sm_valid_warps_mask_p (sm_of m1 0 0)"
      "dev_num_lanes (dev_of m1 0) = 4"
    by auto
  from observing_InrD2[OF m scenario_preemption] obtain m2 where
    r2: "warp_single_step env_preemption 0 0 1 m = Inr (2, m2)"
    and o2: "warp_in_range env_preemption m 0 0 1"
      "new_effects m m2 = [Api_single_step_warp 0 0 1, Kernels_invalidate]"
      "\<not> ln_pc_p (ln_of m2 0 0 0 0)" "\<not> ln_pc_p (ln_of m2 0 0 1 0)" "\<not> wp_valid_lanes_mask_p (wp_of m2 0 0 0)"
      "\<not> wp_valid_lanes_mask_p (wp_of m2 0 0 1)" "\<not> sm_valid_warps_mask_p (sm_of m2 0 0)"
    by auto
  from observing_InrD2[OF m scenario_both_warps] obtain m3 where
    r3: "warp_single_step env_both_warps 0 0 1 m = Inr (3, m3)"
    and o3: "warp_in_range env_both_warps m 0 0 1"
      "new_effects m m3 = [Api_single_step_warp 0 0 1, single_step_warning, Kernels_invalidate]"
      "\<not> ln_pc_p (ln_of m3 0 0 0 0)" "\<not> ln_pc_p (ln_of m3 0 0 1 0)" "\<not> wp_valid_lanes_mask_p (wp_of m3 0 0 0)"
      "\<not> wp_valid_lanes_mask_p (wp_of m3 0 0 1)" "\<not> sm_valid_warps_mask_p (sm_of m3 0 0)"
    by auto
  have e: "\<not> cuda_options_software_preemption env_demo" "cuda_options_software_preemption env_preemption"
    "\<not> cuda_options_software_preemption env_both_warps"
    by (simp_all add: env_demo_def env_preemption_def env_both_warps_def)
  have b: "(2 :: 64 word) AND NOT (push_bit (1 :: nat) 1) = 0" "(3 :: 64 word) AND NOT (push_bit (1 :: nat) 1) \<noteq> 0"
    by simp_all
  have c1: "clears (count_queries \<union> {Eff (Api_single_step_warp 0 0 1)} \<union> stepped_slots 0 0 2 4) m m1"
    using warp_single_step_effect[of env_demo m 0 0 1] r1 e(1) b(1) o1(13) by auto
  have c2: "device_invalidated m2 0"
    using warp_single_step_effect[of env_preemption m 0 0 1] r2 e(2) by auto
  have c3: "device_invalidated m3 0"
    using warp_single_step_effect[of env_both_warps m 0 0 1] r3 e(3) b(2) by auto
  from m r1 o1 r2 o2 r3 o3 c1 c2 c3 show ?thesis by blast
qed

lemma device_resume_returns:
  assumes "device_in_range e m d" and "counts_in_range e m d"
  shows "\<exists>m'. device_resume e d m = Inr ((), m')"
proof -
  from check_dev_returns[OF assms(1)] obtain m1 where
    1: "check_dev e d m = Inr ((), m1)" "ready_dev e m1 d" "dev_of m1 d = dev_of m d" by auto
  have "counts_in_range e m1 d" using assms(2) by (simp add: counts_in_range_def 1(3))
  from device_invalidate_returns[OF 1(2) this] obtain m2 where
    "device_invalidate e d m1 = Inr ((), m2)" by blast
  with 1(1) show ?thesis by (simp add: device_resume_def ret_def)
qed

text \<open>
  Claim C5, as amended. When the device is within the range, \<^verbatim>\<open>device_resume (dev)\<close>
  returns; and when it returns, it has invalidated the whole cached subtree under the device
  (the masks of every SM of the device and the present flags of every warp and lane of
  the device) and cleared the device's \<^verbatim>\<open>valid_p\<close> and \<^verbatim>\<open>filter_exception_state_p\<close>,
  every other cached value being kept. When the device is marked suspended it then calls
  \<^verbatim>\<open>resume (dev)\<close> of the debug API, once and last, clears the mark and clears the
  device's bit in the mask of suspended devices; when it is not, it returns after the
  invalidation: the debug API is not asked to resume and the mask is as it was.
\<close>

theorem device_resume_effect:
  "(device_in_range e m d \<and> counts_in_range e m d \<longrightarrow> (\<exists>m'. device_resume e d m = Inr ((), m'))) \<and>
   (\<forall>u m'. device_resume e d m = Inr (u, m') \<longrightarrow>
      device_invalidated m' d \<and>
      (\<exists>q. effects m' = effects m @ q @ [Kernels_invalidate] @
              (if dev_suspended (dev_of m d) then [Api_resume_device d] else []) \<and>
            list_all is_count_query q) \<and>
      (\<exists>m2. clears (count_queries \<union> device_slots d (dev_num_sms (dev_of m' d))
                (dev_num_warps (dev_of m' d)) (dev_num_lanes (dev_of m' d))) m m2 \<and>
             m' = (if dev_suspended (dev_of m d)
                   then upd_sys (\<lambda>y. y\<lparr>sys_suspended_devices_mask :=
                               sys_suspended_devices_mask y AND NOT (push_bit d 1)\<rparr>)
                          (upd_dev d (\<lambda>x. x\<lparr>dev_suspended := False\<rparr>)
                            (do_effect (Api_resume_device d) m2))
                   else m2)) \<and>
      \<not> dev_suspended (dev_of m' d) \<and>
      sys_suspended_devices_mask (cuda_system_info m') =
        (if dev_suspended (dev_of m d)
         then sys_suspended_devices_mask (cuda_system_info m) AND NOT (push_bit d 1)
         else sys_suspended_devices_mask (cuda_system_info m)) \<and>
      (dev_suspended (dev_of m d) \<longrightarrow> \<not> bit (sys_suspended_devices_mask (cuda_system_info m')) d))"
proof (intro conjI impI allI)
  assume "device_in_range e m d \<and> counts_in_range e m d"
  then show "\<exists>m'. device_resume e d m = Inr ((), m')"
    using device_resume_returns by blast
next
  fix u m'
  assume a: "device_resume e d m = Inr (u, m')"
  then obtain m1 m2 where c: "check_dev e d m = Inr ((), m1)"
    and i: "device_invalidate e d m1 = Inr ((), m2)"
    and r: "(if \<not> dev_suspended (dev_of m2 d) then ret () m2
       else ret ()
           (upd_sys (\<lambda>y. y\<lparr>sys_suspended_devices_mask :=
                               sys_suspended_devices_mask y AND NOT (push_bit d 1)\<rparr>)
             (upd_dev d (\<lambda>x. x\<lparr>dev_suspended := False\<rparr>)
               (do_effect (Api_resume_device d) m2)))) = Inr (u, m')"
    unfolding device_resume_def by (auto elim!: bindE_E)
  note c1 = check_dev_spec[OF c]
  note i1 = device_invalidate_spec[OF i]
  let ?A = "count_queries \<union> device_slots d (dev_num_sms (dev_of m2 d))
           (dev_num_warps (dev_of m2 d)) (dev_num_lanes (dev_of m2 d))"
  have inv2: "device_invalidated m2 d" using i1(1) by (rule device_invalidated_clears)
  have "clears (count_queries \<union> ?A) m m2" by (rule clears_trans[OF c1(1) i1(1)])
  then have cl: "clears ?A m m2" by (rule clears_eq) auto
  have s2: "dev_suspended (dev_of m2 d) = dev_suspended (dev_of m d)"
    by (rule clears_dev(5)[OF cl])
  have k2: "sys_suspended_devices_mask (cuda_system_info m2) = sys_suspended_devices_mask (cuda_system_info m)"
    by (rule clearsD(1)[OF cl])
  from clears_queries[OF c1(1)] obtain q0 where q0: "effects m1 = effects m @ q0" "list_all is_count_query q0"
    by auto
  from device_invalidate_effects[OF i] obtain q1 where
    q1: "effects m2 = effects m1 @ q1 @ [Kernels_invalidate]" "list_all is_count_query q1" by blast
  have tr: "effects m2 = effects m @ (q0 @ q1) @ [Kernels_invalidate]" "list_all is_count_query (q0 @ q1)"
    using q0 q1 by simp_all
  have m': "m' = (if dev_suspended (dev_of m d)
                   then upd_sys (\<lambda>y. y\<lparr>sys_suspended_devices_mask :=
                               sys_suspended_devices_mask y AND NOT (push_bit d 1)\<rparr>)
                          (upd_dev d (\<lambda>x. x\<lparr>dev_suspended := False\<rparr>)
                            (do_effect (Api_resume_device d) m2))
                   else m2)"
    using r s2 by (auto split: if_splits)
  have n': "dev_num_sms (dev_of m' d) = dev_num_sms (dev_of m2 d)"
    "dev_num_warps (dev_of m' d) = dev_num_warps (dev_of m2 d)"
    "dev_num_lanes (dev_of m' d) = dev_num_lanes (dev_of m2 d)"
    unfolding m' by simp_all
  show "device_invalidated m' d" unfolding m' using inv2 by simp
  show "\<exists>q. effects m' = effects m @ q @ [Kernels_invalidate] @
              (if dev_suspended (dev_of m d) then [Api_resume_device d] else []) \<and>
            list_all is_count_query q"
    using tr unfolding m' by (intro exI[of _ "q0 @ q1"]) simp
  show "\<exists>m2. clears (count_queries \<union> device_slots d (dev_num_sms (dev_of m' d))
                (dev_num_warps (dev_of m' d)) (dev_num_lanes (dev_of m' d))) m m2 \<and>
             m' = (if dev_suspended (dev_of m d)
                   then upd_sys (\<lambda>y. y\<lparr>sys_suspended_devices_mask :=
                               sys_suspended_devices_mask y AND NOT (push_bit d 1)\<rparr>)
                          (upd_dev d (\<lambda>x. x\<lparr>dev_suspended := False\<rparr>)
                            (do_effect (Api_resume_device d) m2))
                   else m2)"
    unfolding n' using cl m' by blast
  show "\<not> dev_suspended (dev_of m' d)" unfolding m' using s2 by simp
  show "sys_suspended_devices_mask (cuda_system_info m') =
        (if dev_suspended (dev_of m d)
         then sys_suspended_devices_mask (cuda_system_info m) AND NOT (push_bit d 1)
         else sys_suspended_devices_mask (cuda_system_info m))"
    unfolding m' by (simp add: k2)
  show "\<not> bit (sys_suspended_devices_mask (cuda_system_info m')) d" if "dev_suspended (dev_of m d)"
    unfolding m' using that by (simp add: k2 bit_simps)
qed

lemma scenario_resume:
  "observing demo_populated (device_resume env_demo 0)
     (\<lambda>m b m'. (device_in_range env_demo m 0 \<and> counts_in_range env_demo m 0,
        dev_suspended (dev_of m 0), sys_suspended_devices_mask (cuda_system_info m),
        [ln_pc_p (ln_of m 0 0 0 0), ln_pc_p (ln_of m 0 0 1 1), wp_valid_lanes_mask_p (wp_of m 0 0 0),
         wp_active_lanes_mask_p (wp_of m 0 0 1), sm_valid_warps_mask_p (sm_of m 0 0)],
        (dev_num_sms (dev_of m 0), dev_num_warps (dev_of m 0), dev_num_lanes (dev_of m 0)),
        new_effects m m', sys_suspended_devices_mask (cuda_system_info m'),
        [ln_pc_p (ln_of m' 0 0 0 0), ln_pc_p (ln_of m' 0 0 1 1), wp_valid_lanes_mask_p (wp_of m' 0 0 0),
         wp_active_lanes_mask_p (wp_of m' 0 0 1), sm_valid_warps_mask_p (sm_of m' 0 0)],
        ln_pc (ln_of m' 0 0 1 1))) =
   Inr (True, True, 1, [True, True, True, True, True], (1, 2, 4),
        [Kernels_invalidate, Api_resume_device 0], 0, [False, False, False, False, False], 57005)"
  by (simp add: scenario_defs)

theorem device_resume_effect_witness:
  "\<exists>m m'. demo_populated = Inr ((), m) \<and>
     device_in_range env_demo m 0 \<and> counts_in_range env_demo m 0 \<and>
     dev_suspended (dev_of m 0) \<and> sys_suspended_devices_mask (cuda_system_info m) = 1 \<and>
     ln_pc_p (ln_of m 0 0 0 0) \<and> ln_pc_p (ln_of m 0 0 1 1) \<and> wp_valid_lanes_mask_p (wp_of m 0 0 0) \<and>
     wp_active_lanes_mask_p (wp_of m 0 0 1) \<and> sm_valid_warps_mask_p (sm_of m 0 0) \<and>
     \<not> device_invalidated m 0 \<and>
     device_resume env_demo 0 m = Inr ((), m') \<and>
     device_invalidated m' 0 \<and>
     \<not> ln_pc_p (ln_of m' 0 0 0 0) \<and> \<not> ln_pc_p (ln_of m' 0 0 1 1) \<and> ln_pc (ln_of m' 0 0 1 1) = 57005 \<and>
     \<not> wp_valid_lanes_mask_p (wp_of m' 0 0 0) \<and> \<not> wp_active_lanes_mask_p (wp_of m' 0 0 1) \<and>
     \<not> sm_valid_warps_mask_p (sm_of m' 0 0) \<and>
     new_effects m m' = [Kernels_invalidate, Api_resume_device 0] \<and>
     \<not> dev_suspended (dev_of m' 0) \<and> sys_suspended_devices_mask (cuda_system_info m') = 0"
proof -
  from observing_InrD[OF scenario_resume] obtain m m' where
    m: "demo_populated = Inr ((), m)" and r: "device_resume env_demo 0 m = Inr ((), m')"
    and o: "device_in_range env_demo m 0" "counts_in_range env_demo m 0"
      "dev_suspended (dev_of m 0)" "sys_suspended_devices_mask (cuda_system_info m) = 1"
      "ln_pc_p (ln_of m 0 0 0 0)" "ln_pc_p (ln_of m 0 0 1 1)" "wp_valid_lanes_mask_p (wp_of m 0 0 0)"
      "wp_active_lanes_mask_p (wp_of m 0 0 1)" "sm_valid_warps_mask_p (sm_of m 0 0)"
      "new_effects m m' = [Kernels_invalidate, Api_resume_device 0]"
      "sys_suspended_devices_mask (cuda_system_info m') = 0"
      "\<not> ln_pc_p (ln_of m' 0 0 0 0)" "\<not> ln_pc_p (ln_of m' 0 0 1 1)" "\<not> wp_valid_lanes_mask_p (wp_of m' 0 0 0)"
      "\<not> wp_active_lanes_mask_p (wp_of m' 0 0 1)" "\<not> sm_valid_warps_mask_p (sm_of m' 0 0)"
      "ln_pc (ln_of m' 0 0 1 1) = 57005"
    and n: "dev_num_sms (dev_of m 0) = 1"
    by auto
  have before: "\<not> device_invalidated m 0"
    using n o(9) by (auto simp: device_invalidated_def sm_flags_clear_def)
  from device_resume_effect[of env_demo m 0] r
  have "device_invalidated m' 0" "\<not> dev_suspended (dev_of m' 0)" by auto
  with m r o before show ?thesis by blast
qed

text \<open>
  Claim C5 as stated fails: on a device that is not marked suspended the debug API's
  \<^verbatim>\<open>resume\<close> is not called.
\<close>

theorem device_resume_not_suspended:
  "outcome effects (device_resume env_demo 0 zero_mirror) =
     Inr [Api_get_num_devices, Api_get_num_sms 0, Api_get_num_warps 0, Api_get_num_lanes 0,
          Kernels_invalidate]"
  by (simp add: outcome_def mirror_defs env_demo_def zero_system_def zero_device_def Let_def)

subsection \<open>The masks of a warp\<close>

lemma shifted_bit_eq_bit: "shifted_bit x i = bit x i"
proof -
  have "(drop_bit i x AND 1 = 0) = (\<not> bit x i)"
    by (simp add: and_one_eq bit_iff_odd_drop_bit even_iff_mod_2_eq_zero)
  then show ?thesis by (simp add: shifted_bit_def)
qed

lemma sm_get_valid_warps_mask_ready:
  assumes "ready_sm e m d s"
  shows "sm_get_valid_warps_mask e d s m =
     (if sm_valid_warps_mask_p (sm_of m d s) then Inr (sm_valid_warps_mask (sm_of m d s), m)
      else Inr (api_valid_warps e d s,
             upd_sm d s (\<lambda>x. x\<lparr>sm_valid_warps_mask := api_valid_warps e d s, sm_valid_warps_mask_p := True\<rparr>)
               (do_effect (Api_read_valid_warps d s) m)))"
  using assms by (simp add: sm_get_valid_warps_mask_def ret_def)

lemma warp_is_valid_ready:
  assumes "ready_wp e m d s w"
  shows "\<exists>m'. warp_is_valid e d s w m = Inr (bit (sm_valid_warps_mask (sm_of m' d s)) w, m') \<and>
     ready_wp e m' d s w \<and> sm_valid_warps_mask_p (sm_of m' d s) \<and>
     sm_valid_warps_mask (sm_of m' d s) =
       (if sm_valid_warps_mask_p (sm_of m d s) then sm_valid_warps_mask (sm_of m d s) else api_valid_warps e d s) \<and>
     (\<forall>w'. wp_of m' d s w' = wp_of m d s w') \<and>
     effects m' = effects m @ (if sm_valid_warps_mask_p (sm_of m d s) then [] else [Api_read_valid_warps d s])"
proof -
  have rs: "ready_sm e m d s" using assms by (rule readyD)
  show ?thesis
    using assms
    by (simp add: warp_is_valid_def sm_get_valid_warps_mask_ready[OF rs] ret_def shifted_bit_eq_bit)
qed

lemma warp_get_valid_lanes_mask_ready:
  assumes "ready_wp e m d s w"
  shows "\<exists>m'. warp_get_valid_lanes_mask e d s w m = Inr (wp_valid_lanes_mask (wp_of m' d s w), m') \<and>
     ready_wp e m' d s w \<and> wp_valid_lanes_mask_p (wp_of m' d s w) \<and>
     wp_valid_lanes_mask (wp_of m' d s w) =
       (if wp_valid_lanes_mask_p (wp_of m d s w) then wp_valid_lanes_mask (wp_of m d s w)
        else if bit (sm_valid_warps_mask (sm_of m' d s)) w then api_valid_lanes e d s w else 0) \<and>
     (\<not> wp_valid_lanes_mask_p (wp_of m d s w) \<longrightarrow>
        sm_valid_warps_mask_p (sm_of m' d s) \<and>
        sm_valid_warps_mask (sm_of m' d s) =
          (if sm_valid_warps_mask_p (sm_of m d s) then sm_valid_warps_mask (sm_of m d s)
           else api_valid_warps e d s)) \<and>
     wp_active_lanes_mask_p (wp_of m' d s w) = wp_active_lanes_mask_p (wp_of m d s w) \<and>
     wp_active_lanes_mask (wp_of m' d s w) = wp_active_lanes_mask (wp_of m d s w) \<and>
     effects m' = effects m @
       (if wp_valid_lanes_mask_p (wp_of m d s w) then []
        else (if sm_valid_warps_mask_p (sm_of m d s) then [] else [Api_read_valid_warps d s]) @
             (if bit (sm_valid_warps_mask (sm_of m' d s)) w then [Api_read_valid_lanes d s w] else []))"
proof (cases "wp_valid_lanes_mask_p (wp_of m d s w)")
  case True
  with assms show ?thesis by (simp add: warp_get_valid_lanes_mask_def ret_def)
next
  case False
  from warp_is_valid_ready[OF assms] obtain m2 where
    v: "warp_is_valid e d s w m = Inr (bit (sm_valid_warps_mask (sm_of m2 d s)) w, m2)"
    and p: "ready_wp e m2 d s w" "sm_valid_warps_mask_p (sm_of m2 d s)"
      "sm_valid_warps_mask (sm_of m2 d s) =
         (if sm_valid_warps_mask_p (sm_of m d s) then sm_valid_warps_mask (sm_of m d s) else api_valid_warps e d s)"
      "\<forall>w'. wp_of m2 d s w' = wp_of m d s w'"
      "effects m2 = effects m @ (if sm_valid_warps_mask_p (sm_of m d s) then [] else [Api_read_valid_warps d s])"
    by blast
  show ?thesis
    using assms False p
    by (simp add: warp_get_valid_lanes_mask_def v Let_def ret_def)
qed

lemma warp_get_active_lanes_mask_ready:
  assumes "ready_wp e m d s w"
  shows "\<exists>m'. warp_get_active_lanes_mask e d s w m = Inr (wp_active_lanes_mask (wp_of m' d s w), m') \<and>
     ready_wp e m' d s w \<and> wp_active_lanes_mask_p (wp_of m' d s w) \<and>
     wp_active_lanes_mask (wp_of m' d s w) =
       (if wp_active_lanes_mask_p (wp_of m d s w) then wp_active_lanes_mask (wp_of m d s w)
        else api_active_lanes e d s w) \<and>
     wp_valid_lanes_mask_p (wp_of m' d s w) = wp_valid_lanes_mask_p (wp_of m d s w) \<and>
     wp_valid_lanes_mask (wp_of m' d s w) = wp_valid_lanes_mask (wp_of m d s w) \<and>
     sm_valid_warps_mask_p (sm_of m' d s) = sm_valid_warps_mask_p (sm_of m d s) \<and>
     sm_valid_warps_mask (sm_of m' d s) = sm_valid_warps_mask (sm_of m d s) \<and>
     effects m' = effects m @
       (if wp_active_lanes_mask_p (wp_of m d s w) then [] else [Api_read_active_lanes d s w])"
  using assms by (simp add: warp_get_active_lanes_mask_def Let_def ret_def)

lemma divergent_from_ready:
  assumes "ready_wp e m1 d s w"
  shows "\<exists>m'. warp_get_divergent_lanes_mask e d s w m1 =
       Inr (wp_valid_lanes_mask (wp_of m' d s w) AND NOT (wp_active_lanes_mask (wp_of m' d s w)), m') \<and>
     wp_valid_lanes_mask_p (wp_of m' d s w) \<and> wp_active_lanes_mask_p (wp_of m' d s w) \<and>
     wp_valid_lanes_mask (wp_of m' d s w) =
       (if wp_valid_lanes_mask_p (wp_of m1 d s w) then wp_valid_lanes_mask (wp_of m1 d s w)
        else if bit (sm_valid_warps_mask (sm_of m' d s)) w then api_valid_lanes e d s w else 0) \<and>
     (\<not> wp_valid_lanes_mask_p (wp_of m1 d s w) \<longrightarrow>
        sm_valid_warps_mask_p (sm_of m' d s) \<and>
        sm_valid_warps_mask (sm_of m' d s) =
          (if sm_valid_warps_mask_p (sm_of m1 d s) then sm_valid_warps_mask (sm_of m1 d s)
           else api_valid_warps e d s)) \<and>
     wp_active_lanes_mask (wp_of m' d s w) =
       (if wp_active_lanes_mask_p (wp_of m1 d s w) then wp_active_lanes_mask (wp_of m1 d s w)
        else api_active_lanes e d s w) \<and>
     effects m' = effects m1 @
       (if wp_valid_lanes_mask_p (wp_of m1 d s w) then []
        else (if sm_valid_warps_mask_p (sm_of m1 d s) then [] else [Api_read_valid_warps d s]) @
             (if bit (sm_valid_warps_mask (sm_of m' d s)) w then [Api_read_valid_lanes d s w] else [])) @
       (if wp_active_lanes_mask_p (wp_of m1 d s w) then [] else [Api_read_active_lanes d s w])"
proof -
  from warp_get_valid_lanes_mask_ready[OF assms] obtain m2 where
    v: "warp_get_valid_lanes_mask e d s w m1 = Inr (wp_valid_lanes_mask (wp_of m2 d s w), m2)"
    and p2: "ready_wp e m2 d s w" "wp_valid_lanes_mask_p (wp_of m2 d s w)"
     "wp_valid_lanes_mask (wp_of m2 d s w) =
       (if wp_valid_lanes_mask_p (wp_of m1 d s w) then wp_valid_lanes_mask (wp_of m1 d s w)
        else if bit (sm_valid_warps_mask (sm_of m2 d s)) w then api_valid_lanes e d s w else 0)"
     "\<not> wp_valid_lanes_mask_p (wp_of m1 d s w) \<longrightarrow>
        sm_valid_warps_mask_p (sm_of m2 d s) \<and>
        sm_valid_warps_mask (sm_of m2 d s) =
          (if sm_valid_warps_mask_p (sm_of m1 d s) then sm_valid_warps_mask (sm_of m1 d s)
           else api_valid_warps e d s)"
     "wp_active_lanes_mask_p (wp_of m2 d s w) = wp_active_lanes_mask_p (wp_of m1 d s w)"
     "wp_active_lanes_mask (wp_of m2 d s w) = wp_active_lanes_mask (wp_of m1 d s w)"
     "effects m2 = effects m1 @
       (if wp_valid_lanes_mask_p (wp_of m1 d s w) then []
        else (if sm_valid_warps_mask_p (sm_of m1 d s) then [] else [Api_read_valid_warps d s]) @
             (if bit (sm_valid_warps_mask (sm_of m2 d s)) w then [Api_read_valid_lanes d s w] else []))"
    by blast
  from warp_get_active_lanes_mask_ready[OF p2(1)] obtain m3 where
    a: "warp_get_active_lanes_mask e d s w m2 = Inr (wp_active_lanes_mask (wp_of m3 d s w), m3)"
    and p3: "wp_active_lanes_mask_p (wp_of m3 d s w)"
     "wp_active_lanes_mask (wp_of m3 d s w) =
       (if wp_active_lanes_mask_p (wp_of m2 d s w) then wp_active_lanes_mask (wp_of m2 d s w)
        else api_active_lanes e d s w)"
     "wp_valid_lanes_mask_p (wp_of m3 d s w) = wp_valid_lanes_mask_p (wp_of m2 d s w)"
     "wp_valid_lanes_mask (wp_of m3 d s w) = wp_valid_lanes_mask (wp_of m2 d s w)"
     "sm_valid_warps_mask_p (sm_of m3 d s) = sm_valid_warps_mask_p (sm_of m2 d s)"
     "sm_valid_warps_mask (sm_of m3 d s) = sm_valid_warps_mask (sm_of m2 d s)"
     "effects m3 = effects m2 @
       (if wp_active_lanes_mask_p (wp_of m2 d s w) then [] else [Api_read_active_lanes d s w])"
    by blast
  have "warp_get_divergent_lanes_mask e d s w m1 =
       Inr (wp_valid_lanes_mask (wp_of m3 d s w) AND NOT (wp_active_lanes_mask (wp_of m3 d s w)), m3)"
    using assms by (simp add: warp_get_divergent_lanes_mask_def v a ret_def p3(4))
  with p2 p3 show ?thesis by (intro exI[of _ m3]) simp
qed

text \<open>
  Claim C8, as amended. For a warp within the ranges \<^verbatim>\<open>warp_get_divergent_lanes_mask\<close>
  returns; and when it returns, both masks of the warp are cached and the result is exactly
  the cached valid mask \<open>AND NOT\<close> the cached active mask. A mask that was cached is kept. A
  valid mask that was not cached is now the answer of the debug API if the warp is valid
  in the mask of the SM, and 0 if it is not; an active mask that was not cached is now the
  answer of the debug API, whatever it is. So when the call reads both masks of a valid
  warp, the cached active mask is within the cached valid mask exactly when the answers
  of the debug API are so. The debug API is asked for what was not cached, and for nothing else
  but the counts.
\<close>

theorem warp_divergent_lanes:
  "(warp_in_range e m d s w \<longrightarrow> (\<exists>v m'. warp_get_divergent_lanes_mask e d s w m = Inr (v, m'))) \<and>
   (\<forall>v m'. warp_get_divergent_lanes_mask e d s w m = Inr (v, m') \<longrightarrow>
      wp_valid_lanes_mask_p (wp_of m' d s w) \<and> wp_active_lanes_mask_p (wp_of m' d s w) \<and>
      v = wp_valid_lanes_mask (wp_of m' d s w) AND NOT (wp_active_lanes_mask (wp_of m' d s w)) \<and>
      wp_valid_lanes_mask (wp_of m' d s w) =
        (if wp_valid_lanes_mask_p (wp_of m d s w) then wp_valid_lanes_mask (wp_of m d s w)
         else if bit (sm_valid_warps_mask (sm_of m' d s)) w then api_valid_lanes e d s w else 0) \<and>
      wp_active_lanes_mask (wp_of m' d s w) =
        (if wp_active_lanes_mask_p (wp_of m d s w) then wp_active_lanes_mask (wp_of m d s w)
         else api_active_lanes e d s w) \<and>
      (\<not> wp_valid_lanes_mask_p (wp_of m d s w) \<and> \<not> wp_active_lanes_mask_p (wp_of m d s w) \<and>
       bit (sm_valid_warps_mask (sm_of m' d s)) w \<longrightarrow>
         (wp_active_lanes_mask (wp_of m' d s w) AND NOT (wp_valid_lanes_mask (wp_of m' d s w)) = 0) =
         (api_active_lanes e d s w AND NOT (api_valid_lanes e d s w) = 0)) \<and>
      (\<exists>q. list_all is_count_query q \<and>
         new_effects m m' = q @
           (if wp_valid_lanes_mask_p (wp_of m d s w) then []
            else (if sm_valid_warps_mask_p (sm_of m d s) then [] else [Api_read_valid_warps d s]) @
                 (if bit (sm_valid_warps_mask (sm_of m' d s)) w then [Api_read_valid_lanes d s w] else [])) @
           (if wp_active_lanes_mask_p (wp_of m d s w) then [] else [Api_read_active_lanes d s w])))"
proof (intro conjI impI allI)
  assume "warp_in_range e m d s w"
  from check_wp_returns[OF this] obtain m1 where c: "check_wp e d s w m = Inr ((), m1)" by blast
  from divergent_from_ready[OF check_wp_spec(2)[OF c]] obtain v m' where
    "warp_get_divergent_lanes_mask e d s w m1 = Inr (v, m')" by blast
  then have "warp_get_divergent_lanes_mask e d s w m = Inr (v, m')"
    using c check_wp_ready[OF check_wp_spec(2)[OF c]]
    by (simp add: warp_get_divergent_lanes_mask_def)
  then show "\<exists>v m'. warp_get_divergent_lanes_mask e d s w m = Inr (v, m')" by blast
next
  fix v m'
  assume r: "warp_get_divergent_lanes_mask e d s w m = Inr (v, m')"
  then obtain m1 where c: "check_wp e d s w m = Inr ((), m1)"
    unfolding warp_get_divergent_lanes_mask_def by (auto elim!: bindE_E)
  note c1 = check_wp_spec[OF c]
  have r1: "warp_get_divergent_lanes_mask e d s w m1 = Inr (v, m')"
    using r c check_wp_ready[OF c1(2)] by (simp add: warp_get_divergent_lanes_mask_def)
  have same: "wp_valid_lanes_mask_p (wp_of m1 d s w) = wp_valid_lanes_mask_p (wp_of m d s w)"
    "wp_valid_lanes_mask (wp_of m1 d s w) = wp_valid_lanes_mask (wp_of m d s w)"
    "wp_active_lanes_mask_p (wp_of m1 d s w) = wp_active_lanes_mask_p (wp_of m d s w)"
    "wp_active_lanes_mask (wp_of m1 d s w) = wp_active_lanes_mask (wp_of m d s w)"
    "sm_valid_warps_mask_p (sm_of m1 d s) = sm_valid_warps_mask_p (sm_of m d s)"
    "sm_valid_warps_mask (sm_of m1 d s) = sm_valid_warps_mask (sm_of m d s)"
    using clears_wp[OF c1(1), of d s w] clears_sm[OF c1(1), of d s] by simp_all
  from clears_queries[OF c1(1)] obtain q where q: "effects m1 = effects m @ q" "list_all is_count_query q"
    by auto
  from divergent_from_ready[OF c1(2)] r1 have
    p: "v = wp_valid_lanes_mask (wp_of m' d s w) AND NOT (wp_active_lanes_mask (wp_of m' d s w))"
     "wp_valid_lanes_mask_p (wp_of m' d s w)" "wp_active_lanes_mask_p (wp_of m' d s w)"
     "wp_valid_lanes_mask (wp_of m' d s w) =
       (if wp_valid_lanes_mask_p (wp_of m d s w) then wp_valid_lanes_mask (wp_of m d s w)
        else if bit (sm_valid_warps_mask (sm_of m' d s)) w then api_valid_lanes e d s w else 0)"
     "wp_active_lanes_mask (wp_of m' d s w) =
       (if wp_active_lanes_mask_p (wp_of m d s w) then wp_active_lanes_mask (wp_of m d s w)
        else api_active_lanes e d s w)"
     "effects m' = effects m1 @
       (if wp_valid_lanes_mask_p (wp_of m d s w) then []
        else (if sm_valid_warps_mask_p (sm_of m d s) then [] else [Api_read_valid_warps d s]) @
             (if bit (sm_valid_warps_mask (sm_of m' d s)) w then [Api_read_valid_lanes d s w] else [])) @
       (if wp_active_lanes_mask_p (wp_of m d s w) then [] else [Api_read_active_lanes d s w])"
    unfolding same by auto
  show "wp_valid_lanes_mask_p (wp_of m' d s w)" "wp_active_lanes_mask_p (wp_of m' d s w)"
    "v = wp_valid_lanes_mask (wp_of m' d s w) AND NOT (wp_active_lanes_mask (wp_of m' d s w))"
    "wp_valid_lanes_mask (wp_of m' d s w) =
        (if wp_valid_lanes_mask_p (wp_of m d s w) then wp_valid_lanes_mask (wp_of m d s w)
         else if bit (sm_valid_warps_mask (sm_of m' d s)) w then api_valid_lanes e d s w else 0)"
    "wp_active_lanes_mask (wp_of m' d s w) =
        (if wp_active_lanes_mask_p (wp_of m d s w) then wp_active_lanes_mask (wp_of m d s w)
         else api_active_lanes e d s w)"
    by (fact p)+
  show "(wp_active_lanes_mask (wp_of m' d s w) AND NOT (wp_valid_lanes_mask (wp_of m' d s w)) = 0) =
         (api_active_lanes e d s w AND NOT (api_valid_lanes e d s w) = 0)"
    if "\<not> wp_valid_lanes_mask_p (wp_of m d s w) \<and> \<not> wp_active_lanes_mask_p (wp_of m d s w) \<and>
       bit (sm_valid_warps_mask (sm_of m' d s)) w"
    using that p(4,5) by simp
  have "effects m' = effects m @ (q @
       (if wp_valid_lanes_mask_p (wp_of m d s w) then []
        else (if sm_valid_warps_mask_p (sm_of m d s) then [] else [Api_read_valid_warps d s]) @
             (if bit (sm_valid_warps_mask (sm_of m' d s)) w then [Api_read_valid_lanes d s w] else [])) @
       (if wp_active_lanes_mask_p (wp_of m d s w) then [] else [Api_read_active_lanes d s w]))"
    using p(6) q(1) by simp
  from new_effects_app[OF this] q(2)
  show "\<exists>q. list_all is_count_query q \<and>
         new_effects m m' = q @
           (if wp_valid_lanes_mask_p (wp_of m d s w) then []
            else (if sm_valid_warps_mask_p (sm_of m d s) then [] else [Api_read_valid_warps d s]) @
                 (if bit (sm_valid_warps_mask (sm_of m' d s)) w then [Api_read_valid_lanes d s w] else [])) @
           (if wp_active_lanes_mask_p (wp_of m d s w) then [] else [Api_read_active_lanes d s w])"
    by blast
qed

lemma scenario_divergent:
  "observing (cuda_system_initialize env_demo zero_mirror) (warp_get_divergent_lanes_mask env_demo 0 0 1)
     (\<lambda>m b m'. (warp_in_range env_demo m 0 0 1, wp_valid_lanes_mask_p (wp_of m 0 0 1),
        wp_active_lanes_mask_p (wp_of m 0 0 1), b, wp_valid_lanes_mask (wp_of m' 0 0 1),
        wp_active_lanes_mask (wp_of m' 0 0 1), sm_valid_warps_mask (sm_of m' 0 0), new_effects m m')) =
   Inr (True, False, False, 12, 15, 3, 3,
        [Api_get_num_sms 0, Api_get_num_warps 0, Api_read_valid_warps 0 0, Api_read_valid_lanes 0 0 1,
         Api_read_active_lanes 0 0 1])"
  by (simp add: scenario_defs warp_get_divergent_lanes_mask_def)

theorem warp_divergent_lanes_witness:
  "\<exists>m m'. cuda_system_initialize env_demo zero_mirror = Inr ((), m) \<and>
     warp_in_range env_demo m 0 0 1 \<and>
     \<not> wp_valid_lanes_mask_p (wp_of m 0 0 1) \<and> \<not> wp_active_lanes_mask_p (wp_of m 0 0 1) \<and>
     api_active_lanes env_demo 0 0 1 AND NOT (api_valid_lanes env_demo 0 0 1) = 0 \<and>
     warp_get_divergent_lanes_mask env_demo 0 0 1 m = Inr (12, m') \<and>
     bit (sm_valid_warps_mask (sm_of m' 0 0)) (1 :: nat) \<and>
     wp_valid_lanes_mask_p (wp_of m' 0 0 1) \<and> wp_active_lanes_mask_p (wp_of m' 0 0 1) \<and>
     wp_valid_lanes_mask (wp_of m' 0 0 1) = 15 \<and> wp_active_lanes_mask (wp_of m' 0 0 1) = 3 \<and>
     wp_active_lanes_mask (wp_of m' 0 0 1) AND NOT (wp_valid_lanes_mask (wp_of m' 0 0 1)) = 0 \<and>
     new_effects m m' =
       [Api_get_num_sms 0, Api_get_num_warps 0, Api_read_valid_warps 0 0, Api_read_valid_lanes 0 0 1,
        Api_read_active_lanes 0 0 1]"
proof -
  from observing_InrD[OF scenario_divergent] obtain m m' where
    m: "cuda_system_initialize env_demo zero_mirror = Inr ((), m)"
    and r: "warp_get_divergent_lanes_mask env_demo 0 0 1 m = Inr (12, m')"
    and o: "warp_in_range env_demo m 0 0 1" "\<not> wp_valid_lanes_mask_p (wp_of m 0 0 1)"
      "\<not> wp_active_lanes_mask_p (wp_of m 0 0 1)" "wp_valid_lanes_mask (wp_of m' 0 0 1) = 15"
      "wp_active_lanes_mask (wp_of m' 0 0 1) = 3" "sm_valid_warps_mask (sm_of m' 0 0) = 3"
      "new_effects m m' =
       [Api_get_num_sms 0, Api_get_num_warps 0, Api_read_valid_warps 0 0, Api_read_valid_lanes 0 0 1,
        Api_read_active_lanes 0 0 1]"
    by auto
  have a: "api_active_lanes env_demo 0 0 1 AND NOT (api_valid_lanes env_demo 0 0 1) = 0"
    by (simp add: env_demo_def)
  have b: "bit (sm_valid_warps_mask (sm_of m' 0 0)) (1 :: nat)"
    unfolding o(6) by (simp add: bit_simps)
  from warp_divergent_lanes[of env_demo m 0 0 1] r o(2,3) a b
  have "wp_valid_lanes_mask_p (wp_of m' 0 0 1)" "wp_active_lanes_mask_p (wp_of m' 0 0 1)"
    "wp_active_lanes_mask (wp_of m' 0 0 1) AND NOT (wp_valid_lanes_mask (wp_of m' 0 0 1)) = 0"
    by auto
  with m r o a b show ?thesis by blast
qed

text \<open>
  Claim C8 as stated fails: the mirror caches what the debug API answers. When the debug
  API reports lane 1 active and only lane 0 valid, a valid warp of the mirror has an
  active lane that is not valid.
\<close>

theorem active_lane_not_valid:
  "observing (cuda_system_initialize env_stray_lane zero_mirror)
     (warp_get_divergent_lanes_mask env_stray_lane 0 0 0)
     (\<lambda>m b m'. (bit (sm_valid_warps_mask (sm_of m' 0 0)) (0 :: nat),
        wp_valid_lanes_mask_p (wp_of m' 0 0 0), wp_valid_lanes_mask (wp_of m' 0 0 0),
        wp_active_lanes_mask_p (wp_of m' 0 0 0), wp_active_lanes_mask (wp_of m' 0 0 0),
        wp_active_lanes_mask (wp_of m' 0 0 0) AND NOT (wp_valid_lanes_mask (wp_of m' 0 0 0)))) =
   Inr (True, True, 1, True, 2, 2)"
  by (simp add: scenario_defs warp_get_divergent_lanes_mask_def env_stray_lane_def)

section \<open>Properties of the event handlers\<close>

lemma bindH_simps [simp]:
  "bindH (Inl err) f = Inl err"
  "bindH (Inr (a, h)) f = f a h"
  by (simp_all add: bindH_def)

lemmas handler_defs = cuda_event_create_context_def cuda_event_destroy_context_def
  cuda_event_push_context_def cuda_event_pop_context_def cuda_event_kernel_ready_def
  cuda_event_load_elf_image_def cuda_event_kernel_finished_def cuda_event_internal_error_def

text \<open>
  Claim C4, as amended. An event of kind \<^verbatim>\<open>CTX_CREATE\<close>, \<^verbatim>\<open>CTX_DESTROY\<close> or
  \<^verbatim>\<open>KERNEL_READY\<close> whose thread id is \<^verbatim>\<open>~0U\<close> fails with the error
  ``A CUDA event reported an invalid thread id.'', in every attach state and whatever the
  rest of the state, and so does the draining of a queue that comes to it. An event of kind
  \<^verbatim>\<open>CTX_PUSH\<close> or \<^verbatim>\<open>CTX_POP\<close> with that thread id fails in the same way when the
  attach state is \<^verbatim>\<open>CUDA_ATTACH_STATE_NOT_STARTED\<close>; in every other attach state it is
  ignored before its thread id is looked at: its processing returns, the state is as it
  was, and the draining of the queue goes on with the next event.
\<close>

theorem invalid_thread_id_fatal:
  assumes "carries_invalid_tid ev"
  shows "cuda_process_event e opts ev h =
           (if is_push_or_pop ev \<and> h_attach_state h \<noteq> CUDA_ATTACH_STATE_NOT_STARTED
            then Inr ((), h) else Inl invalid_thread_id) \<and>
         drain e opts (ev # evs) h =
           (if is_push_or_pop ev \<and> h_attach_state h \<noteq> CUDA_ATTACH_STATE_NOT_STARTED
            then drain e opts evs h else Inl invalid_thread_id) \<and>
         cuda_process_events e opts (ev # evs) h =
           (if is_push_or_pop ev \<and> h_attach_state h \<noteq> CUDA_ATTACH_STATE_NOT_STARTED
            then cuda_process_events e opts evs h else Inl invalid_thread_id)"
proof -
  have 1: "cuda_process_event e opts ev h =
           (if is_push_or_pop ev \<and> h_attach_state h \<noteq> CUDA_ATTACH_STATE_NOT_STARTED
            then Inr ((), h) else Inl invalid_thread_id)"
    using assms by (cases ev) (simp_all add: handler_defs)
  have 2: "ev \<noteq> CUDBG_EVENT_INVALID" using assms by auto
  show ?thesis
    using 1 2 by (simp add: cuda_process_events_def)
qed

theorem invalid_thread_id_fatal_witness:
  "carries_invalid_tid (CUDBG_EVENT_CTX_CREATE 0 10 (NOT 0)) \<and>
   carries_invalid_tid (CUDBG_EVENT_CTX_POP 0 10 (NOT 0)) \<and>
   cuda_process_event env_demo options_demo (CUDBG_EVENT_CTX_CREATE 0 10 (NOT 0))
     ((host_of zero_mirror)\<lparr>h_attach_state := CUDA_ATTACH_STATE_APP_READY\<rparr>) = Inl invalid_thread_id \<and>
   cuda_process_events env_demo options_demo
     [CUDBG_EVENT_CTX_POP 0 10 (NOT 0), CUDBG_EVENT_TIMEOUT] (host_of zero_mirror) = Inl invalid_thread_id \<and>
   cuda_process_event env_demo options_demo (CUDBG_EVENT_CTX_POP 0 10 (NOT 0))
     ((host_of zero_mirror)\<lparr>h_attach_state := CUDA_ATTACH_STATE_APP_READY\<rparr>) =
       Inr ((), (host_of zero_mirror)\<lparr>h_attach_state := CUDA_ATTACH_STATE_APP_READY\<rparr>)"
  using invalid_thread_id_fatal[of "CUDBG_EVENT_CTX_CREATE 0 10 (NOT 0)" env_demo options_demo
      "(host_of zero_mirror)\<lparr>h_attach_state := CUDA_ATTACH_STATE_APP_READY\<rparr>" "[]"]
    invalid_thread_id_fatal[of "CUDBG_EVENT_CTX_POP 0 10 (NOT 0)" env_demo options_demo
      "host_of zero_mirror" "[CUDBG_EVENT_TIMEOUT]"]
    invalid_thread_id_fatal[of "CUDBG_EVENT_CTX_POP 0 10 (NOT 0)" env_demo options_demo
      "(host_of zero_mirror)\<lparr>h_attach_state := CUDA_ATTACH_STATE_APP_READY\<rparr>" "[]"]
  by (simp add: host_of_def)

text \<open>
  Claim C4 as stated fails: once an attach has completed, a \<^verbatim>\<open>CTX_PUSH\<close> event with the
  thread id \<^verbatim>\<open>~0U\<close> is processed without error, and so is the queue that holds it.
\<close>

theorem push_invalid_thread_id_ignored:
  "cuda_process_events env_demo options_demo
     [CUDBG_EVENT_ATTACH_COMPLETE, CUDBG_EVENT_CTX_PUSH 0 10 (NOT 0)] (host_of zero_mirror) =
   Inr ((), (host_of zero_mirror)\<lparr>h_attach_state := CUDA_ATTACH_STATE_APP_READY,
              h_calls := [Cuda_remove_breakpoints, Cuda_insert_breakpoints]\<rparr>)"
  by (simp add: cuda_process_events_def handler_defs host_of_def cuda_event_post_process_def call_def)

lemma device_get_contexts_returns:
  assumes "device_in_range e m d" and "dev_contexts (dev_of m d) = Some r"
  shows "\<exists>m'. device_get_contexts e d m = Inr (r, m')"
proof -
  from check_dev_returns[OF assms(1)] obtain m1 where
    1: "check_dev e d m = Inr ((), m1)" "ready_dev e m1 d" "dev_of m1 d = dev_of m d" by auto
  then show ?thesis using assms(2) by (simp add: device_get_contexts_def ret_def)
qed

lemma in_mirror_returns:
  "f (h_mirror h) = Inr (a, m') \<Longrightarrow> in_mirror f h = Inr (a, h\<lparr>h_mirror := m'\<rparr>)"
  by (simp add: in_mirror_def)

lemma call_simps [simp]:
  "h_calls (call c h) = h_calls h @ [c]" "h_registries (call c h) = h_registries h"
  "h_store (call c h) = h_store h" "h_current_context (call c h) = h_current_context h"
  "h_mirror (call c h) = h_mirror h" "h_attach_state (call c h) = h_attach_state h"
  "h_allocated (call c h) = h_allocated h"
  by (simp_all add: call_def)

lemmas registry_defs = contexts_find_context_by_id_def contexts_get_active_context_def
  contexts_unstack_context_def contexts_remove_context_def contexts_add_context_def
  contexts_stack_context_def context_delete_def context_new_def context_get_id_def
  get_current_context_def set_current_context_def

text \<open>
  Claim C6. For a thread id other than \<^verbatim>\<open>~0U\<close>, a device within the range whose
  registry exists and a context id that the registry holds, the processing of
  \<^verbatim>\<open>CTX_DESTROY (dev, ctx, tid)\<close> returns. Its calls are, in this order: the pop of the
  stack of \<open>tid\<close> if the context is the top of that stack; \<^verbatim>\<open>set_current_context (NULL)\<close>
  if the context is the current context; the removal of the auto-breakpoints of the
  context id; the unresolving of the breakpoints of the context id; and only then the
  removal of the context from the list of the device and its deletion (and the message, if
  the option asks for it). Afterwards the stack of \<open>tid\<close> is popped in the first case and
  untouched otherwise, the current context is \<^verbatim>\<open>NULL\<close> in the second case and untouched
  otherwise, the context is off the list, and its structure is freed.
\<close>

theorem destroy_context_order:
  assumes "tid \<noteq> NOT 0" and "device_in_range e (h_mirror h) d"
    and "dev_contexts (dev_of (h_mirror h) d) = Some r"
    and "contexts_find_context_by_id r cid h = Some a"
  shows "\<exists>h'. cuda_process_event e opts (CUDBG_EVENT_CTX_DESTROY d cid tid) h = Inr ((), h') \<and>
     h_calls h' = h_calls h @
       (if contexts_get_active_context r tid h = Some a then [Contexts_unstack_context r tid] else []) @
       (if h_current_context h = Some a then [Set_current_context None] else []) @
       [Cuda_cleanup_auto_breakpoints cid, Cuda_unresolve_breakpoints cid,
        Contexts_remove_context r (Some a), Context_delete (Some a)] @
       (if cuda_options_show_context_events opts
        then [Printf_unfiltered ''[Context Destroy of context 0x%llx on Device %u]'' cid d] else []) \<and>
     cs_stacks (h_registries h' r) =
       (if contexts_get_active_context r tid h = Some a
        then (cs_stacks (h_registries h r))(tid := tl (cs_stacks (h_registries h r) tid))
        else cs_stacks (h_registries h r)) \<and>
     h_current_context h' = (if h_current_context h = Some a then None else h_current_context h) \<and>
     cs_list (h_registries h' r) = remove1 a (cs_list (h_registries h r)) \<and>
     h_store h' = (h_store h)(a := None) \<and>
     (\<forall>r'. r' \<noteq> r \<longrightarrow> h_registries h' r' = h_registries h r') \<and>
     h_attach_state h' = h_attach_state h"
proof -
  from device_get_contexts_returns[OF assms(2,3)] obtain m' where
    g: "device_get_contexts e d (h_mirror h) = Inr (r, m')" by blast
  let ?h1 = "h\<lparr>h_mirror := m'\<rparr>"
  have f: "contexts_find_context_by_id r cid ?h1 = Some a"
    using assms(4) by (simp add: contexts_find_context_by_id_def)
  have i: "in_mirror (device_get_contexts e d) h = Inr (r, ?h1)"
    using g by (simp add: in_mirror_def)
  show ?thesis
    using assms(1) f
    by (auto simp: cuda_event_destroy_context_def i Let_def registry_defs call_def fun_eq_iff
        split: list.splits)
qed

lemma observingH_InrD:
  "observingH r g obs = Inr v \<Longrightarrow> \<exists>a h b h'. r = Inr (a, h) \<and> g h = Inr (b, h') \<and> obs h h' = v"
  by (auto simp: observingH_def split: sum.splits prod.splits)

lemma scenario_destroy:
  "observingH host_with_context
     (cuda_process_event env_demo options_demo (CUDBG_EVENT_CTX_DESTROY 0 10 100))
     (\<lambda>h h'. (device_in_range env_demo (h_mirror h) 0, dev_contexts (dev_of (h_mirror h) 0),
        contexts_find_context_by_id 0 10 h, contexts_get_active_context 0 100 h, h_current_context h,
        cs_list (h_registries h 0), map_option cx_context_id (h_store h 1),
        cs_stacks (h_registries h 0) 100)) =
   Inr (True, Some 0, Some 1, Some 1, Some 1, [1], Some 10, [1])"
  by (simp add: observingH_def host_with_context_def host_demo_def host_of_def empty_registry_def
      options_demo_def handler_defs registry_defs call_def in_mirror_def demo_defs
      cuda_system_initialize_def device_initialize_def device_get_contexts_def device_in_range_def)

theorem destroy_context_order_witness:
  "\<exists>h h'. host_with_context = Inr ((), h) \<and>
     (100 :: 32 word) \<noteq> NOT 0 \<and> device_in_range env_demo (h_mirror h) 0 \<and>
     dev_contexts (dev_of (h_mirror h) 0) = Some 0 \<and>
     contexts_find_context_by_id 0 10 h = Some 1 \<and>
     contexts_get_active_context 0 100 h = Some 1 \<and> h_current_context h = Some 1 \<and>
     cs_list (h_registries h 0) = [1] \<and> map_option cx_context_id (h_store h 1) = Some 10 \<and>
     cuda_process_event env_demo options_demo (CUDBG_EVENT_CTX_DESTROY 0 10 100) h = Inr ((), h') \<and>
     h_calls h' = h_calls h @
       [Contexts_unstack_context 0 100, Set_current_context None, Cuda_cleanup_auto_breakpoints 10,
        Cuda_unresolve_breakpoints 10, Contexts_remove_context 0 (Some 1), Context_delete (Some 1)] \<and>
     contexts_get_active_context 0 100 h' = None \<and> h_current_context h' = None \<and>
     cs_list (h_registries h' 0) = [] \<and> h_store h' 1 = None"
proof -
  from observingH_InrD[OF scenario_destroy] obtain h where
    h: "host_with_context = Inr ((), h)"
    and o: "device_in_range env_demo (h_mirror h) 0" "dev_contexts (dev_of (h_mirror h) 0) = Some 0"
      "contexts_find_context_by_id 0 10 h = Some 1" "contexts_get_active_context 0 100 h = Some 1"
      "h_current_context h = Some 1" "cs_list (h_registries h 0) = [1]"
      "map_option cx_context_id (h_store h 1) = Some 10" "cs_stacks (h_registries h 0) 100 = [1]"
    by auto
  have t: "(100 :: 32 word) \<noteq> NOT 0" by simp
  have s: "\<not> cuda_options_show_context_events options_demo" by (simp add: options_demo_def)
  from destroy_context_order[OF t o(1,2,3), of options_demo] obtain h' where
    r: "cuda_process_event env_demo options_demo (CUDBG_EVENT_CTX_DESTROY 0 10 100) h = Inr ((), h')"
    and c: "h_calls h' = h_calls h @
       [Contexts_unstack_context 0 100, Set_current_context None, Cuda_cleanup_auto_breakpoints 10,
        Cuda_unresolve_breakpoints 10, Contexts_remove_context 0 (Some 1), Context_delete (Some 1)]"
    and p: "cs_stacks (h_registries h' 0) = (cs_stacks (h_registries h 0))(100 := tl (cs_stacks (h_registries h 0) 100))"
      "h_current_context h' = None" "cs_list (h_registries h' 0) = []" "h_store h' = (h_store h)(1 := None)"
    using o(4,5,6) s by auto
  have "contexts_get_active_context 0 100 h' = None"
    using p(1) o(8) by (simp add: contexts_get_active_context_def)
  with h t o(1-7) r c p(2-4) show ?thesis by auto
qed

end
